(* ===== verification/Thru_Prelude.thy ===== *)
theory Thru_Prelude
  imports Main "HOL-Library.Word" "HOL-Library.Multiset"
begin

text \<open>
  Shared vocabulary of the development: machine integers at their width, Rust strings as
  their UTF-8 bytes, \<^theory_text>\<open>io::Error\<close> and \<^theory_text>\<open>io::Result\<close> as a datatype and a sum, the
  \<^theory_text>\<open>?\<close> operator as the combinator \<open>try_io\<close>, decimal printing and parsing of the standard
  library, and the list lemmas the component theories share.
\<close>

section \<open>Machine integers and strings\<close>

type_synonym u8 = "8 word"
type_synonym u16 = "16 word"
type_synonym u32 = "32 word"
type_synonym u64 = "64 word"
type_synonym bytes = "u8 list"

text \<open>A Rust \<^theory_text>\<open>String\<close> is a vector of bytes (valid UTF-8 where the source guarantees it).\<close>

type_synonym rstr = "u8 list"

text \<open>The bytes of a string literal of the source.\<close>

definition lit :: "string \<Rightarrow> rstr" where
  "lit s = map of_char s"

text \<open>Collections used by the component proofs.\<close>

named_theorems wire_simps \<open>encoding and decoding of the wire format\<close>
named_theorems conn_simps \<open>effect of the stream operations on a connection\<close>

section \<open>Errors and the question-mark operator\<close>

datatype io_kind =
    NotFound | PermissionDenied | InvalidInput | InvalidData | UnexpectedEof
  | WouldBlock | TimedOut | BrokenPipe | Interrupted | ConnectionAborted
  | ConnectionRefused | WriteZero | OtherKind

datatype io_error = IoError (err_kind: io_kind) (err_msg: rstr)

type_synonym 'a io = "io_error + 'a"

text \<open>
  An operation on a state returns its result and the new state. \<open>try_io\<close> is Rust's
  \<^theory_text>\<open>?\<close>: an error returns at once with the state reached so far, a value is passed on.
\<close>

definition try_io ::
    "'a io \<times> 's \<Rightarrow> ('a \<Rightarrow> 's \<Rightarrow> 'b io \<times> 's) \<Rightarrow> 'b io \<times> 's" where
  "try_io r k = (case r of (Inl e, s) \<Rightarrow> (Inl e, s) | (Inr x, s) \<Rightarrow> k x s)"

lemma try_io_simps [simp]:
  "try_io (Inl e, s) k = (Inl e, s)"
  "try_io (Inr x, s) k = k x s"
  by (simp_all add: try_io_def)

lemma try_io_Inr_iff:
  "try_io r k = (Inr y, t) \<longleftrightarrow> (\<exists>x s. r = (Inr x, s) \<and> k x s = (Inr y, t))"
  by (cases r; cases "fst r") (auto simp: try_io_def)

lemma try_io_Inl_iff:
  "try_io r k = (Inl e, t) \<longleftrightarrow>
     r = (Inl e, t) \<or> (\<exists>x s. r = (Inr x, s) \<and> k x s = (Inl e, t))"
  by (cases r; cases "fst r") (auto simp: try_io_def)

lemma try_io_snd:
  assumes "P (snd r)" and "\<And>x s. r = (Inr x, s) \<Longrightarrow> P (snd (k x s))"
  shows "P (snd (try_io r k))"
  using assms by (cases r; cases "fst r") (auto simp: try_io_def)

definition is_ok :: "'a io \<times> 's \<Rightarrow> bool" where
  "is_ok r = (case fst r of Inl _ \<Rightarrow> False | Inr _ \<Rightarrow> True)"

lemma is_ok_simps [simp]: "is_ok (Inl e, s) = False" "is_ok (Inr x, s) = True"
  by (simp_all add: is_ok_def)

section \<open>Decimal numbers of the standard library\<close>

text \<open>\<^theory_text>\<open>to_string\<close> and \<^theory_text>\<open>{}\<close> on an unsigned integer.\<close>

fun decimal :: "nat \<Rightarrow> rstr" where
  "decimal n =
     (if n < 10 then [48 + of_nat n] else decimal (n div 10) @ [48 + of_nat (n mod 10)])"

declare decimal.simps [simp del]

definition digit_val :: "u8 \<Rightarrow> nat option" where
  "digit_val b = (if 48 \<le> b \<and> b \<le> 57 then Some (unat b - 48) else None)"

text \<open>The digit loop of \<^theory_text>\<open>from_str_radix\<close>: an error on a non-digit or on overflow.\<close>

fun parse_digits :: "nat \<Rightarrow> nat \<Rightarrow> rstr \<Rightarrow> nat option" where
  "parse_digits m acc [] = Some acc"
| "parse_digits m acc (b # bs) =
     (case digit_val b of
        None \<Rightarrow> None
      | Some d \<Rightarrow> if acc * 10 + d > m then None else parse_digits m (acc * 10 + d) bs)"

text \<open>
  \<^theory_text>\<open>str::parse\<close> at an unsigned type with largest value \<open>m\<close>: the empty string and a lone
  sign are errors, one leading plus sign is accepted.
\<close>

definition parse_uint :: "nat \<Rightarrow> rstr \<Rightarrow> nat option" where
  "parse_uint m s =
     (case s of
        [] \<Rightarrow> None
      | b # bs \<Rightarrow> if b = 43 then (if bs = [] then None else parse_digits m 0 bs)
                  else parse_digits m 0 s)"

definition parse_u16 :: "rstr \<Rightarrow> nat option" where
  "parse_u16 = parse_uint 65535"

definition parse_u32 :: "rstr \<Rightarrow> nat option" where
  "parse_u32 = parse_uint 4294967295"

definition parse_usize :: "rstr \<Rightarrow> nat option" where
  "parse_usize = parse_uint 18446744073709551615"

lemma unat_digit: "d < 10 \<Longrightarrow> unat (48 + of_nat d :: u8) = 48 + d"
  by (simp add: unat_word_ariths unat_of_nat)

lemma digit_val_digit [simp]: "d < 10 \<Longrightarrow> digit_val (48 + of_nat d) = Some d"
  by (simp add: digit_val_def unat_digit word_le_nat_alt)

lemma decimal_not_Nil [simp]: "decimal n \<noteq> []"
  by (subst decimal.simps) simp

lemma set_decimal: "b \<in> set (decimal n) \<Longrightarrow> 48 \<le> b \<and> b \<le> 57"
proof (induction n rule: decimal.induct)
  case (1 n)
  have d: "48 \<le> (48 + of_nat k :: u8) \<and> (48 + of_nat k :: u8) \<le> 57" if "k < 10" for k
    using that by (simp add: word_le_nat_alt unat_digit)
  from 1 d show ?case
    by (subst (asm) (2) decimal.simps) (auto split: if_splits)
qed

lemma parse_digits_append:
  "parse_digits m acc (xs @ ys) =
     (case parse_digits m acc xs of None \<Rightarrow> None | Some a \<Rightarrow> parse_digits m a ys)"
  by (induction xs arbitrary: acc) (auto split: option.splits)

lemma parse_digits_decimal: "n \<le> m \<Longrightarrow> parse_digits m 0 (decimal n) = Some n"
proof (induction n rule: decimal.induct)
  case (1 n)
  show ?case
  proof (cases "n < 10")
    case True
    with 1 show ?thesis by (subst decimal.simps) simp
  next
    case False
    with 1 have "parse_digits m 0 (decimal (n div 10)) = Some (n div 10)" by simp
    moreover from 1(2) have "\<not> m < n div 10 * 10 + n mod 10" by simp
    ultimately show ?thesis using False
      by (subst decimal.simps) (simp add: parse_digits_append)
  qed
qed

lemma parse_digits_bound: "parse_digits m acc s = Some n \<Longrightarrow> acc \<le> m \<Longrightarrow> n \<le> m"
  by (induction s arbitrary: acc) (auto split: option.splits if_splits)

lemma parse_uint_bound: "parse_uint m s = Some n \<Longrightarrow> n \<le> m"
  by (auto simp del: parse_digits.simps simp: parse_uint_def
      split: list.splits if_splits dest: parse_digits_bound)

lemma parse_uint_decimal: "n \<le> m \<Longrightarrow> parse_uint m (decimal n) = Some n"
proof -
  assume le: "n \<le> m"
  obtain b bs where bs: "decimal n = b # bs" by (cases "decimal n") simp_all
  with set_decimal [of b n] have "b \<noteq> 43" by auto
  with bs show ?thesis
    using parse_digits_decimal [OF le] by (simp add: parse_uint_def del: parse_digits.simps)
qed

section \<open>Whitespace and lines of the standard library\<close>

text \<open>The UTF-8 encodings of the characters with the Unicode property \<^theory_text>\<open>White_Space\<close>.\<close>

definition white_space :: "rstr list" where
  "white_space =
     [[9], [10], [11], [12], [13], [32], [0xC2, 0x85], [0xC2, 0xA0], [0xE1, 0x9A, 0x80],
      [0xE2, 0x80, 0x80], [0xE2, 0x80, 0x81], [0xE2, 0x80, 0x82], [0xE2, 0x80, 0x83],
      [0xE2, 0x80, 0x84], [0xE2, 0x80, 0x85], [0xE2, 0x80, 0x86], [0xE2, 0x80, 0x87],
      [0xE2, 0x80, 0x88], [0xE2, 0x80, 0x89], [0xE2, 0x80, 0x8A], [0xE2, 0x80, 0xA8],
      [0xE2, 0x80, 0xA9], [0xE2, 0x80, 0xAF], [0xE2, 0x81, 0x9F], [0xE3, 0x80, 0x80]]"

definition starts_with :: "rstr \<Rightarrow> rstr \<Rightarrow> bool" where
  "starts_with p s = (take (length p) s = p)"

definition strip_prefix :: "rstr \<Rightarrow> rstr \<Rightarrow> rstr option" where
  "strip_prefix p s = (if starts_with p s then Some (drop (length p) s) else None)"

fun trim_front :: "rstr list \<Rightarrow> nat \<Rightarrow> rstr \<Rightarrow> rstr" where
  "trim_front ws 0 s = s"
| "trim_front ws (Suc k) s =
     (case find (\<lambda>w. starts_with w s) ws of
        None \<Rightarrow> s
      | Some w \<Rightarrow> trim_front ws k (drop (length w) s))"

text \<open>\<^theory_text>\<open>str::trim\<close>; each round removes a non-empty prefix, so \<open>length s\<close> rounds are enough.\<close>

definition trim_start :: "rstr \<Rightarrow> rstr" where
  "trim_start s = trim_front white_space (length s) s"

definition trim_end :: "rstr \<Rightarrow> rstr" where
  "trim_end s = rev (trim_front (map rev white_space) (length s) (rev s))"

definition trim :: "rstr \<Rightarrow> rstr" where
  "trim s = trim_end (trim_start s)"

text \<open>\<open>split\<close> of a string at a one-byte separator, and \<^theory_text>\<open>str::lines\<close>.\<close>

fun split_on :: "u8 \<Rightarrow> rstr \<Rightarrow> rstr list" where
  "split_on c [] = [[]]"
| "split_on c (b # bs) =
     (if b = c then [] # split_on c bs
      else (case split_on c bs of [] \<Rightarrow> [[b]] | w # ws \<Rightarrow> (b # w) # ws))"

definition strip_cr :: "rstr \<Rightarrow> rstr" where
  "strip_cr l = (if l \<noteq> [] \<and> last l = 13 then butlast l else l)"

definition lines_of :: "rstr \<Rightarrow> rstr list" where
  "lines_of s =
     (let ls = split_on 10 s
      in if last ls = [] then map strip_cr (butlast ls)
         else map strip_cr (butlast ls) @ [last ls])"

lemma split_on_not_Nil [simp]: "split_on c s \<noteq> []"
  by (induction s) (auto split: list.splits)

lemma split_on_append_sep:
  "c \<notin> set w \<Longrightarrow> split_on c (w @ c # s) = w # split_on c s"
  by (induction w) auto

lemma split_on_no_sep: "c \<notin> set w \<Longrightarrow> split_on c w = [w]"
  by (induction w) auto

section \<open>Word and list lemmas\<close>

lemma unat_bound: "unat (w :: 'a::len word) < 2 ^ LENGTH('a)"
  by (rule unsigned_less)

lemma take_exact [simp]: "length xs = n \<Longrightarrow> take n (xs @ ys) = xs"
  by simp

lemma drop_exact [simp]: "length xs = n \<Longrightarrow> drop n (xs @ ys) = ys"
  by simp

lemma length_ge_Cons: "Suc n \<le> length xs \<longleftrightarrow> (\<exists>y ys. xs = y # ys \<and> n \<le> length ys)"
  by (cases xs) auto

end
