(* ===== verification/Utf8.thy ===== *)
theory Utf8
  imports Thru_Prelude
begin

text \<open>
  UTF-8 validation and lossy decoding as the standard library does them:
  \<^theory_text>\<open>str::from_utf8\<close> (\<open>from_utf8\<close>) and \<^theory_text>\<open>String::from_utf8_lossy\<close> (\<open>lossy\<close>). Both walk the
  bytes one character at a time with \<open>utf8_step\<close>, which follows the table of well-formed
  sequences; an ill-formed maximal prefix becomes one U+FFFD. The lemmas show that lossy
  decoding always yields a valid string and changes no valid one.
\<close>

definition utf8_width :: "u8 \<Rightarrow> nat" where
  "utf8_width b =
     (if b < 0x80 then 1 else if 0xC2 \<le> b \<and> b \<le> 0xDF then 2
      else if 0xE0 \<le> b \<and> b \<le> 0xEF then 3 else if 0xF0 \<le> b \<and> b \<le> 0xF4 then 4 else 0)"

definition is_cont :: "u8 \<Rightarrow> bool" where
  "is_cont b \<longleftrightarrow> 0x80 \<le> b \<and> b \<le> 0xBF"

text \<open>The second byte of a sequence of two to four bytes, given the first.\<close>

definition second_ok :: "u8 \<Rightarrow> u8 \<Rightarrow> bool" where
  "second_ok a b =
     (if a = 0xE0 then 0xA0 \<le> b \<and> b \<le> 0xBF
      else if a = 0xED then 0x80 \<le> b \<and> b \<le> 0x9F
      else if a = 0xF0 then 0x90 \<le> b \<and> b \<le> 0xBF
      else if a = 0xF4 then 0x80 \<le> b \<and> b \<le> 0x8F
      else is_cont b)"

text \<open>
  Length of the next piece of a non-empty string, and whether it is a character (otherwise it
  is the maximal ill-formed prefix).
\<close>

fun utf8_step :: "bytes \<Rightarrow> nat \<times> bool" where
  "utf8_step [] = (1, False)"
| "utf8_step (a # r) =
     (if utf8_width a = 1 then (1, True)
      else if utf8_width a = 0 then (1, False)
      else (case r of
          [] \<Rightarrow> (1, False)
        | b # r1 \<Rightarrow>
            if \<not> second_ok a b then (1, False)
            else if utf8_width a = 2 then (2, True)
            else (case r1 of
                [] \<Rightarrow> (2, False)
              | c # r2 \<Rightarrow>
                  if \<not> is_cont c then (2, False)
                  else if utf8_width a = 3 then (3, True)
                  else (case r2 of
                      [] \<Rightarrow> (3, False)
                    | d # _ \<Rightarrow> if is_cont d then (4, True) else (3, False)))))"

lemma utf8_step_bounds: "utf8_step s = (n, ok) \<Longrightarrow> 1 \<le> n \<and> (s \<noteq> [] \<longrightarrow> n \<le> length s)"
  by (cases s) (auto split: if_splits list.splits)

lemma utf8_step_pos [simp]: "0 < fst (utf8_step s)"
  using utf8_step_bounds [of s] by (cases "utf8_step s") simp

lemma utf8_step_append:
  assumes "utf8_step s = (n, True)"
  shows "utf8_step (s @ t) = (n, True)"
  using assms by (cases s) (auto split: if_splits list.splits)

declare utf8_step.simps [simp del]

function utf8_valid :: "bytes \<Rightarrow> bool" where
  "utf8_valid s =
     (if s = [] then True
      else if snd (utf8_step s) then utf8_valid (drop (fst (utf8_step s)) s)
      else False)"
  by pat_completeness auto
termination
  by (relation "measure length") auto

declare utf8_valid.simps [simp del]

definition from_utf8 :: "bytes \<Rightarrow> rstr option" where
  "from_utf8 s = (if utf8_valid s then Some s else None)"

text \<open>The replacement character U+FFFD.\<close>

definition replacement :: bytes where
  "replacement = [0xEF, 0xBF, 0xBD]"

function lossy :: "bytes \<Rightarrow> rstr" where
  "lossy s =
     (if s = [] then []
      else (if snd (utf8_step s) then take (fst (utf8_step s)) s else replacement)
             @ lossy (drop (fst (utf8_step s)) s))"
  by pat_completeness auto
termination
  by (relation "measure length") auto

declare lossy.simps [simp del]

lemma utf8_valid_Nil [simp]: "utf8_valid []"
  by (simp add: utf8_valid.simps)

lemma lossy_Nil [simp]: "lossy [] = []"
  by (simp add: lossy.simps)

lemma utf8_valid_append:
  "utf8_valid s \<Longrightarrow> utf8_valid t \<Longrightarrow> utf8_valid (s @ t)"
proof (induction s rule: utf8_valid.induct)
  case (1 s)
  show ?case
  proof (cases "s = []")
    case True
    with 1 show ?thesis by simp
  next
    case False
    obtain n ok where st: "utf8_step s = (n, ok)" by (cases "utf8_step s")
    with 1(2) False have ok: "ok = True" and rest: "utf8_valid (drop n s)"
      by (auto simp: utf8_valid.simps [of s] split: if_splits)
    from st ok have app: "utf8_step (s @ t) = (n, True)" by (simp add: utf8_step_append)
    from utf8_step_bounds [OF st] False have "n \<le> length s" by simp
    with 1 False st ok rest have "utf8_valid (drop n (s @ t))" by simp
    with app False show ?thesis by (simp add: utf8_valid.simps [of "s @ t"])
  qed
qed

lemma utf8_step_take:
  assumes "utf8_step s = (n, True)"
  shows "utf8_step (take n s) = (n, True)"
proof (cases s)
  case Nil
  with assms show ?thesis by (simp add: utf8_step.simps)
next
  case (Cons a r)
  with assms show ?thesis
    by (auto simp: utf8_step.simps take_Cons'
        split: if_splits list.splits)
qed

lemma utf8_valid_char:
  assumes "utf8_step s = (n, True)"
  shows "utf8_valid (take n s)"
  using utf8_step_take [OF assms] by (simp add: utf8_valid.simps [of "take n s"])

lemma utf8_valid_replacement: "utf8_valid replacement"
  by (simp add: replacement_def utf8_valid.simps utf8_step.simps utf8_width_def second_ok_def
      is_cont_def)

lemma lossy_valid: "utf8_valid s \<Longrightarrow> lossy s = s"
proof (induction s rule: lossy.induct)
  case (1 s)
  then show ?case
    by (subst lossy.simps) (auto simp: utf8_valid.simps [of s] split: if_splits)
qed

lemma utf8_valid_lossy: "utf8_valid (lossy s)"
proof (induction s rule: lossy.induct)
  case (1 s)
  have "utf8_valid (take (fst (utf8_step s)) s)" if "snd (utf8_step s)"
    using that utf8_valid_char [of s "fst (utf8_step s)"] by (cases "utf8_step s") simp
  with 1 show ?case
    by (subst lossy.simps) (auto intro!: utf8_valid_append utf8_valid_replacement)
qed

lemma lossy_lossy [simp]: "lossy (lossy s) = lossy s"
  by (rule lossy_valid) (rule utf8_valid_lossy)

lemma utf8_valid_ascii: "(\<forall>b \<in> set s. b < 0x80) \<Longrightarrow> utf8_valid s"
proof (induction s)
  case (Cons b s)
  then show ?case
    by (subst utf8_valid.simps) (simp add: utf8_step.simps utf8_width_def)
qed simp

lemma utf8_valid_decimal [simp]: "utf8_valid (decimal n)"
proof (rule utf8_valid_ascii, rule ballI)
  fix b assume "b \<in> set (decimal n)"
  then have "b \<le> 57" by (auto dest: set_decimal)
  then show "b < 0x80" by (rule order_le_less_trans) simp
qed

lemma from_utf8_Some_iff [simp]: "from_utf8 s = Some t \<longleftrightarrow> utf8_valid s \<and> t = s"
  by (auto simp: from_utf8_def)

lemma from_utf8_None_iff [simp]: "from_utf8 s = None \<longleftrightarrow> \<not> utf8_valid s"
  by (simp add: from_utf8_def)

end
