(* ===== verification/Wire.thy ===== *)
theory Wire
  imports Utf8
begin

text \<open>
  Big-endian integers and the \<^theory_text>\<open>BufExt\<close> writers of \<^theory_text>\<open>thru-core\<close>
  (\<^theory_text>\<open>crates/thru-core/src/lib.rs\<close>), with the interface \<open>codec\<close>: an encoder whose decoder takes
  exactly one encoded item off the front of any input. \<open>codec_loop\<close> adds a parser that
  decodes items until the first failure, the shape of every \<^theory_text>\<open>while\<close> loop in the client code.
\<close>

section \<open>Big-endian bytes\<close>

text \<open>\<^theory_text>\<open>to_be_bytes\<close> at a width of \<open>k\<close> bytes, and \<^theory_text>\<open>from_be_bytes\<close>.\<close>

primrec be :: "nat \<Rightarrow> nat \<Rightarrow> bytes" where
  "be 0 n = []"
| "be (Suc k) n = of_nat (n div 256 ^ k) # be k n"

definition unbe :: "bytes \<Rightarrow> nat" where
  "unbe bs = foldl (\<lambda>a b. a * 256 + unat b) 0 bs"

lemma length_be [simp]: "length (be k n) = k"
  by (induction k) simp_all

lemma foldl_be_acc:
  "foldl (\<lambda>a b. a * 256 + unat (b :: u8)) acc bs = acc * 256 ^ length bs + unbe bs"
proof (induction bs arbitrary: acc)
  case (Cons b bs)
  from Cons [of "acc * 256 + unat b"] Cons [of "unat b"] show ?case
    by (simp add: unbe_def algebra_simps)
qed (simp add: unbe_def)

lemma unbe_Nil [simp]: "unbe [] = 0"
  by (simp add: unbe_def)

lemma unbe_Cons: "unbe (b # bs) = unat b * 256 ^ length bs + unbe bs"
  using foldl_be_acc [of "unat b" bs] by (simp add: unbe_def)

lemma unbe_lt: "unbe bs < 256 ^ length bs"
proof (induction bs)
  case (Cons b bs)
  have "unat b < 256" using unat_bound [of b] by simp
  then have "(unat b + 1) * 256 ^ length bs \<le> 256 * 256 ^ length bs"
    by (intro mult_le_mono1) simp
  then have "unat b * 256 ^ length bs + 256 ^ length bs \<le> 256 ^ length (b # bs)"
    by (simp only: add_mult_distrib mult_1 list.size power_Suc add_Suc_right add_0_right)
  with Cons show ?case unfolding unbe_Cons by linarith
qed simp

lemma unbe_be: "unbe (be k n) = n mod 256 ^ k"
proof (induction k)
  case (Suc k)
  have "n mod (256 ^ k * 256) = 256 ^ k * (n div 256 ^ k mod 256) + n mod 256 ^ k"
    by (rule mod_mult2_eq)
  with Suc show ?case
    by (simp add: unbe_Cons unat_of_nat mult.commute)
qed simp

lemma be_unbe: "length bs = k \<Longrightarrow> be k (unbe bs + m * 256 ^ k) = bs"
proof (induction k arbitrary: bs m)
  case (Suc k)
  then obtain b bs' where bs: "bs = b # bs'" and len: "length bs' = k"
    by (cases bs) auto
  have "unbe bs + m * 256 ^ Suc k = unbe bs' + (unat b + m * 256) * 256 ^ k"
    using bs len by (simp add: unbe_Cons algebra_simps)
  moreover have "(unbe bs' + (unat b + m * 256) * 256 ^ k) div 256 ^ k = unat b + m * 256"
    using unbe_lt [of bs'] len by simp
  moreover have "of_nat (unat b + m * 256) = b"
  proof -
    have "of_nat (256 :: nat) = (0 :: u8)" by simp
    then have "of_nat (m * 256) = (0 :: u8)" by (simp only: of_nat_mult mult_zero_right)
    then show ?thesis by simp
  qed
  ultimately show ?case using Suc.IH [OF len, of "unat b + m * 256"] bs by simp
qed simp

definition u16_to_be :: "u16 \<Rightarrow> bytes" where "u16_to_be v = be 2 (unat v)"
definition u32_to_be :: "u32 \<Rightarrow> bytes" where "u32_to_be v = be 4 (unat v)"
definition u64_to_be :: "u64 \<Rightarrow> bytes" where "u64_to_be v = be 8 (unat v)"
definition u16_of_be :: "bytes \<Rightarrow> u16" where "u16_of_be bs = of_nat (unbe bs)"
definition u32_of_be :: "bytes \<Rightarrow> u32" where "u32_of_be bs = of_nat (unbe bs)"
definition u64_of_be :: "bytes \<Rightarrow> u64" where "u64_of_be bs = of_nat (unbe bs)"

lemma length_to_be [simp]:
  "length (u16_to_be v) = 2" "length (u32_to_be w) = 4" "length (u64_to_be x) = 8"
  by (simp_all add: u16_to_be_def u32_to_be_def u64_to_be_def)

lemma of_be_to_be [simp]:
  "u16_of_be (u16_to_be v) = v" "u32_of_be (u32_to_be w) = w" "u64_of_be (u64_to_be x) = x"
  using unat_bound [of v] unat_bound [of w] unat_bound [of x]
  by (simp_all add: u16_to_be_def u16_of_be_def u32_to_be_def u32_of_be_def u64_to_be_def
      u64_of_be_def unbe_be)

lemma unat_u8: "n < 256 \<Longrightarrow> unat (of_nat n :: u8) = n"
  by (simp add: unat_of_nat)

lemma unat_u16: "n < 65536 \<Longrightarrow> unat (of_nat n :: u16) = n"
  by (simp add: unat_of_nat)

lemma unat_u32: "n < 4294967296 \<Longrightarrow> unat (of_nat n :: u32) = n"
  by (simp add: unat_of_nat)

lemma unat_u64: "n < 18446744073709551616 \<Longrightarrow> unat (of_nat n :: u64) = n"
  by (simp add: unat_of_nat)

text \<open>A tag byte, a 16-bit field, and the rest: the head of every request frame.\<close>

lemma take2_drop1: "3 \<le> length xs \<Longrightarrow> [xs ! 1, xs ! 2] = take 2 (drop 1 xs)"
  by (auto simp: numeral_3_eq_3 numeral_2_eq_2 length_ge_Cons)

lemma tag16_field [wire_simps]: "[(t # u16_to_be v @ r) ! 1, (t # u16_to_be v @ r) ! 2] = u16_to_be v"
  by (subst take2_drop1) simp_all

lemma tag16_rest [wire_simps]: "drop 3 (t # u16_to_be v @ r) = r"
proof -
  have "t # u16_to_be v @ r = (t # u16_to_be v) @ r" by simp
  then show ?thesis by (metis drop_exact length_Cons length_to_be(1) Suc_1 eval_nat_numeral(3))
qed

section \<open>The BufExt writers\<close>

text \<open>\<^theory_text>\<open>push_str\<close> casts the length to 16 bits: a longer string has its length field wrapped.\<close>

definition push_u16 :: "bytes \<Rightarrow> u16 \<Rightarrow> bytes" where "push_u16 v x = v @ u16_to_be x"
definition push_u32 :: "bytes \<Rightarrow> u32 \<Rightarrow> bytes" where "push_u32 v x = v @ u32_to_be x"
definition push_u64 :: "bytes \<Rightarrow> u64 \<Rightarrow> bytes" where "push_u64 v x = v @ u64_to_be x"

definition push_str :: "bytes \<Rightarrow> rstr \<Rightarrow> bytes" where
  "push_str v s = push_u16 v (of_nat (length s)) @ s"

text \<open>The bytes one \<open>push_str\<close> appends.\<close>

definition str_field :: "rstr \<Rightarrow> bytes" where
  "str_field s = u16_to_be (of_nat (length s)) @ s"

lemma push_append:
  "push_u16 v a = v @ u16_to_be a" "push_u32 v b = v @ u32_to_be b"
  "push_u64 v c = v @ u64_to_be c" "push_str v s = v @ str_field s"
  by (simp_all add: push_u16_def push_u32_def push_u64_def push_str_def str_field_def)

lemma length_str_field [simp]: "length (str_field s) = 2 + length s"
  by (simp add: str_field_def)

section \<open>Self-delimiting codes\<close>

locale codec =
  fixes enc :: "'a \<Rightarrow> bytes"
    and dec :: "bytes \<Rightarrow> ('a \<times> bytes) option"
    and ok :: "'a \<Rightarrow> bool"
  assumes dec_enc: "ok x \<Longrightarrow> dec (enc x @ rest) = Some (x, rest)"
    and dec_shorter: "dec p = Some (x, rest) \<Longrightarrow> length rest < length p"
begin

lemma enc_not_Nil: "ok x \<Longrightarrow> enc x \<noteq> []"
proof -
  assume "ok x"
  then have "dec (enc x) = Some (x, [])" using dec_enc [of x "[]"] by simp
  from dec_shorter [OF this] show ?thesis by auto
qed

lemma enc_inj: "ok x \<Longrightarrow> ok y \<Longrightarrow> enc x @ r = enc y @ s \<Longrightarrow> x = y \<and> r = s"
  by (metis dec_enc option.inject prod.inject)

text \<open>No encoding is a proper prefix of another: a stream of items has one reading.\<close>

lemma enc_stream_inj:
  "\<forall>x \<in> set xs. ok x \<Longrightarrow> \<forall>y \<in> set ys. ok y \<Longrightarrow>
     concat (map enc xs) = concat (map enc ys) \<Longrightarrow> xs = ys"
proof (induction xs arbitrary: ys)
  case Nil
  then show ?case by (cases ys) (auto dest: enc_not_Nil)
next
  case (Cons x xs)
  then obtain y ys' where ys: "ys = y # ys'"
    by (cases ys) (auto dest: enc_not_Nil)
  with Cons.prems enc_inj [of x y "concat (map enc xs)" "concat (map enc ys')"]
  have "x = y" and "concat (map enc xs) = concat (map enc ys')" by auto
  with Cons.IH [of ys'] Cons.prems ys show ?case by simp
qed

end

text \<open>A parser that decodes items until the first failure and keeps what it has.\<close>

locale codec_loop = codec +
  fixes parse :: "bytes \<Rightarrow> 'a list"
  assumes parse_unfold:
    "parse p = (case dec p of None \<Rightarrow> [] | Some (x, rest) \<Rightarrow> x # parse rest)"
begin

lemma parse_stop: "dec p = None \<Longrightarrow> parse p = []"
  by (subst parse_unfold) simp

lemma parse_stream:
  "\<forall>x \<in> set xs. ok x \<Longrightarrow> parse (concat (map enc xs) @ rest) = xs @ parse rest"
proof (induction xs)
  case (Cons x xs)
  then show ?case
    by (subst parse_unfold) (simp add: dec_enc)
qed simp

text \<open>Trailing bytes that start no item are dropped without losing an item before them.\<close>

lemma parse_stream_stop:
  "\<forall>x \<in> set xs. ok x \<Longrightarrow> dec rest = None \<Longrightarrow> parse (concat (map enc xs) @ rest) = xs"
  by (simp add: parse_stream parse_stop)

lemma length_parse: "length (parse p) \<le> length p"
proof (induction p rule: length_induct)
  case (1 p)
  show ?case
  proof (cases "dec p")
    case None
    then show ?thesis by (simp add: parse_stop)
  next
    case (Some r)
    obtain x rest where r: "r = (x, rest)" by (cases r)
    with Some have "length rest < length p" by (simp add: dec_shorter)
    with 1 have "length (parse rest) < length p" by fastforce
    with Some r show ?thesis by (subst parse_unfold) simp
  qed
qed

end

section \<open>The string field as a code\<close>

text \<open>
  The reading side of a length-prefixed string, as \<^theory_text>\<open>parse_device_list\<close>,
  \<^theory_text>\<open>query_server_status\<close> and \<^theory_text>\<open>pid_cmd\<close> spell it out: fewer than two bytes, or fewer than
  the announced length, is a failure; the bytes are decoded lossily.
\<close>

definition read_str :: "bytes \<Rightarrow> (rstr \<times> bytes) option" where
  "read_str p =
     (if length p < 2 then None
      else (let n = unat (u16_of_be (take 2 p)); q = drop 2 p
            in if length q < n then None else Some (lossy (take n q), drop n q)))"

definition str_ok :: "rstr \<Rightarrow> bool" where
  "str_ok s \<longleftrightarrow> utf8_valid s \<and> length s < 65536"

lemma read_str_field [wire_simps]:
  "str_ok s \<Longrightarrow> read_str (str_field s @ rest) = Some (s, rest)"
  by (simp add: read_str_def str_field_def str_ok_def unat_u16 lossy_valid Let_def)

lemma read_str_shorter: "read_str p = Some (s, rest) \<Longrightarrow> length rest < length p"
  by (auto simp: read_str_def Let_def split: if_splits)

lemma read_str_Nil [simp]: "read_str [] = None"
  by (simp add: read_str_def)

interpretation str_code: codec str_field read_str str_ok
  by unfold_locales (auto simp: read_str_field dest: read_str_shorter)

end
