(* ===== verification/Conn.thy ===== *)
theory Conn
  imports Wire
begin

text \<open>
  Connections (\<^theory_text>\<open>crates/thru-transport/src/lib.rs\<close>); the sockets that implement them are in \<open>Tcp\<close>.
  One endpoint is the record \<open>conn\<close>: the bytes the
  peer will have sent by the time its stream ends, the error a read gets after them, the bytes
  the socket accepted, and how many more it accepts before writes fail. A peer that answers is
  covered because the input is arbitrary; a read that would block for ever is not a value of
  the model. \<open>byte_stream\<close> is the contract of \<^theory_text>\<open>Read + Write\<close> the codec above it relies on.
\<close>

section \<open>Endpoints\<close>

record conn =
  c_in :: bytes
  c_end :: io_error
  c_out :: bytes
  c_cap :: "nat option"
  c_werr :: io_error
  c_timeout :: "nat option"
  c_clone :: "io_error option"
  c_peer :: "rstr io"

text \<open>
  \<^theory_text>\<open>try_clone\<close> gives a second handle of the same socket: what one handle reads or writes, the
  other has read or written. The model keeps one state for both.
\<close>

definition try_clone :: "conn \<Rightarrow> conn io" where
  "try_clone c = (case c_clone c of Some e \<Rightarrow> Inl e | None \<Rightarrow> Inr c)"

text \<open>
  \<^theory_text>\<open>Read::read_exact\<close> over \<^theory_text>\<open>S::read\<close>: the next \<open>n\<close> bytes, or the stream's final error once the
  input is exhausted (what was read before it is lost).
\<close>

definition read_exact :: "nat \<Rightarrow> conn \<Rightarrow> bytes io \<times> conn" where
  "read_exact n c =
     (if n \<le> length (c_in c) then (Inr (take n (c_in c)), c\<lparr>c_in := drop n (c_in c)\<rparr>)
      else (Inl (c_end c), c\<lparr>c_in := []\<rparr>))"

text \<open>
  \<^theory_text>\<open>Write::write_all\<close> over \<^theory_text>\<open>S::write\<close>: a socket that fails part-way has already taken the
  bytes before the failure.
\<close>

definition write_all :: "bytes \<Rightarrow> conn \<Rightarrow> unit io \<times> conn" where
  "write_all d c =
     (case c_cap c of
        None \<Rightarrow> (Inr (), c\<lparr>c_out := c_out c @ d\<rparr>)
      | Some k \<Rightarrow>
          if length d \<le> k then (Inr (), c\<lparr>c_out := c_out c @ d, c_cap := Some (k - length d)\<rparr>)
          else (Inl (c_werr c), c\<lparr>c_out := c_out c @ take k d, c_cap := Some 0\<rparr>))"

text \<open>\<^theory_text>\<open>TcpStream::flush\<close> does nothing.\<close>

definition flush :: "conn \<Rightarrow> unit io \<times> conn" where
  "flush c = (Inr (), c)"

text \<open>A half-closed socket accepts no more bytes.\<close>

definition shutdown_write :: "conn \<Rightarrow> unit io \<times> conn" where
  "shutdown_write c = (Inr (), c\<lparr>c_cap := Some 0\<rparr>)"

text \<open>A zero duration is refused by the standard library.\<close>

definition set_read_timeout :: "nat option \<Rightarrow> conn \<Rightarrow> unit io \<times> conn" where
  "set_read_timeout t c =
     (if t = Some 0 then
        (Inl (IoError InvalidInput (lit ''cannot set a 0 duration timeout'')), c)
      else (Inr (), c\<lparr>c_timeout := t\<rparr>))"

definition peer_addr :: "conn \<Rightarrow> rstr io" where
  "peer_addr c = c_peer c"

section \<open>Dialling and accepting\<close>

text \<open>
  A transport is what the operating system answers: to a dialled address, a connection or an
  error; to a bound address, the queue of accept results.
\<close>

record transport =
  t_connect :: "rstr \<Rightarrow> conn io"
  t_bind :: "rstr \<Rightarrow> (conn io list) io"

record server_listener =
  l_queue :: "conn io list"

definition server_bind :: "transport \<Rightarrow> rstr \<Rightarrow> server_listener io" where
  "server_bind t addr =
     (case t_bind t addr of Inl e \<Rightarrow> Inl e | Inr q \<Rightarrow> Inr \<lparr>l_queue = q\<rparr>)"

text \<open>No more queued results: the accept blocks, \<open>None\<close>.\<close>

definition server_accept :: "server_listener \<Rightarrow> (conn io \<times> server_listener) option" where
  "server_accept l =
     (case l_queue l of [] \<Rightarrow> None | r # rs \<Rightarrow> Some (r, l\<lparr>l_queue := rs\<rparr>))"

definition connect :: "transport \<Rightarrow> rstr \<Rightarrow> conn io" where
  "connect t addr = t_connect t addr"

section \<open>The byte-stream contract\<close>

text \<open>
  \<open>inp\<close> and \<open>outp\<close> observe the two directions, \<open>adv n\<close> is the state after \<open>n\<close> bytes were read,
  \<open>put d\<close> after \<open>d\<close> was written, and \<open>room n\<close> says that \<open>n\<close> more bytes can be written.
\<close>

locale byte_stream =
  fixes rd :: "nat \<Rightarrow> 's \<Rightarrow> bytes io \<times> 's"
    and wr :: "bytes \<Rightarrow> 's \<Rightarrow> unit io \<times> 's"
    and inp :: "'s \<Rightarrow> bytes"
    and outp :: "'s \<Rightarrow> bytes"
    and adv :: "nat \<Rightarrow> 's \<Rightarrow> 's"
    and put :: "bytes \<Rightarrow> 's \<Rightarrow> 's"
    and room :: "nat \<Rightarrow> 's \<Rightarrow> bool"
  assumes rd_ok: "n \<le> length (inp s) \<Longrightarrow> rd n s = (Inr (take n (inp s)), adv n s)"
    and rd_short: "length (inp s) < n \<Longrightarrow>
          \<exists>e s'. rd n s = (Inl e, s') \<and> inp s' = [] \<and> outp s' = outp s"
    and inp_adv: "inp (adv n s) = drop n (inp s)"
    and outp_adv: "outp (adv n s) = outp s"
    and adv_adv: "adv m (adv n s) = adv (n + m) s"
    and wr_ok: "room (length d) s \<Longrightarrow> wr d s = (Inr (), put d s)"
    and wr_full: "\<not> room (length d) s \<Longrightarrow>
          \<exists>e k s'. wr d s = (Inl e, s') \<and> inp s' = inp s \<and> outp s' = outp s @ take k d"
    and inp_put: "inp (put d s) = inp s"
    and outp_put: "outp (put d s) = outp s @ d"
    and put_put: "put b (put a s) = put (a @ b) s"
    and room_put: "room n (put d s) \<longleftrightarrow> room (length d + n) s \<or> \<not> room (length d) s \<and> n = 0"
    and room_mono: "room n s \<Longrightarrow> m \<le> n \<Longrightarrow> room m s"

section \<open>TCP endpoints satisfy the contract\<close>

definition conn_adv :: "nat \<Rightarrow> conn \<Rightarrow> conn" where
  "conn_adv n c = c\<lparr>c_in := drop n (c_in c)\<rparr>"

definition conn_put :: "bytes \<Rightarrow> conn \<Rightarrow> conn" where
  "conn_put d c =
     c\<lparr>c_out := c_out c @ d, c_cap := map_option (\<lambda>k. k - length d) (c_cap c)\<rparr>"

definition conn_room :: "nat \<Rightarrow> conn \<Rightarrow> bool" where
  "conn_room n c = (case c_cap c of None \<Rightarrow> True | Some k \<Rightarrow> n \<le> k)"

lemma conn_put_Nil [simp]: "conn_put [] c = c"
  by (cases "c_cap c") (simp_all add: conn_put_def)

interpretation tcp: byte_stream read_exact write_all c_in c_out conn_adv conn_put conn_room
proof (unfold_locales, goal_cases)
  case (7 d s)
  then obtain k where k: "c_cap s = Some k" and "\<not> length d \<le> k"
    by (auto simp: conn_room_def split: option.splits)
  then have "write_all d s = (Inl (c_werr s), s\<lparr>c_out := c_out s @ take k d, c_cap := Some 0\<rparr>)"
    by (simp add: write_all_def)
  then show ?case by (auto intro!: exI [of _ k])
qed (auto simp: read_exact_def write_all_def conn_adv_def conn_put_def conn_room_def add.commute option.map_comp comp_def
      split: option.splits)

text \<open>Facts about the concrete record, for the handlers above.\<close>

lemma write_all_c_in [simp]: "c_in (snd (write_all d c)) = c_in c"
  by (simp add: write_all_def split: option.splits)

lemma write_all_peer [simp]: "c_peer (snd (write_all d c)) = c_peer c"
  by (simp add: write_all_def split: option.splits)

lemma flush_simp [simp]: "flush c = (Inr (), c)"
  by (simp add: flush_def)

lemma conn_put_simps [simp]:
  "c_in (conn_put d c) = c_in c" "c_out (conn_put d c) = c_out c @ d"
  "c_end (conn_put d c) = c_end c" "c_peer (conn_put d c) = c_peer c"
  "c_timeout (conn_put d c) = c_timeout c" "c_werr (conn_put d c) = c_werr c"
  "c_clone (conn_put d c) = c_clone c"
  by (simp_all add: conn_put_def)

lemma conn_put_in [simp]: "(conn_put d c)\<lparr>c_in := x\<rparr> = conn_put d (c\<lparr>c_in := x\<rparr>)"
  by (simp add: conn_put_def)

lemma conn_room_unlimited [simp]: "c_cap c = None \<Longrightarrow> conn_room n c"
  by (simp add: conn_room_def)

lemma conn_cap_put [simp]: "c_cap c = None \<Longrightarrow> c_cap (conn_put d c) = None"
  by (simp add: conn_put_def)

text \<open>A connection nothing was written on yet and whose writes do not fail.\<close>

definition fresh :: "conn \<Rightarrow> bool" where
  "fresh c \<longleftrightarrow> c_cap c = None \<and> c_out c = []"

definition endpoint :: "bytes \<Rightarrow> conn" where
  "endpoint i = \<lparr>c_in = i, c_end = IoError UnexpectedEof [], c_out = [], c_cap = None,
     c_werr = IoError BrokenPipe [], c_timeout = None, c_clone = None, c_peer = Inr []\<rparr>"

lemma endpoint_fresh [simp]: "fresh (endpoint i)" "c_in (endpoint i) = i" "c_cap (endpoint i) = None"
  "c_out (endpoint i) = []" "(endpoint i)\<lparr>c_in := j\<rparr> = endpoint j"
  by (simp_all add: endpoint_def fresh_def)

end
