(* ===== verification/Frame.thy ===== *)
theory Frame
  imports Conn
begin

text \<open>
  The frame codec of \<^theory_text>\<open>thru-core\<close> (\<^theory_text>\<open>crates/thru-core/src/lib.rs\<close>): a 4-byte big-endian length,
  then the payload, at most 64 MiB. \<open>gen_write_frame\<close> and \<open>gen_read_frame\<close> are generic in the
  writer and reader as in the source; the codec laws are proved once over the \<open>byte_stream\<close>
  contract and hold for TCP by the interpretation in \<open>Conn\<close>. \<open>frame\<close> and \<open>frames_of\<close> are the
  specification: the bytes of a frame, and the frames a byte stream holds.
\<close>

section \<open>Constants and operations\<close>

definition MAX_FRAME :: nat where "MAX_FRAME = 64 * 1024 * 1024"

definition ST_OK :: u8 where "ST_OK = 0"
definition ST_NOT_FOUND :: u8 where "ST_NOT_FOUND = 1"
definition ST_ERR :: u8 where "ST_ERR = 2"
definition OP_STATUS :: u8 where "OP_STATUS = 50"

lemmas status_defs = ST_OK_def ST_NOT_FOUND_def ST_ERR_def

definition too_large :: "io_kind \<Rightarrow> nat \<Rightarrow> io_error" where
  "too_large k n =
     IoError k (lit ''frame payload too large: '' @ decimal n @ lit '' bytes (max '' @
       decimal MAX_FRAME @ lit '')'')"

definition gen_write_frame ::
    "(bytes \<Rightarrow> 'w \<Rightarrow> unit io \<times> 'w) \<Rightarrow> bytes \<Rightarrow> 'w \<Rightarrow> unit io \<times> 'w" where
  "gen_write_frame wr data w =
     (if length data > MAX_FRAME then (Inl (too_large InvalidInput (length data)), w)
      else try_io (wr (u32_to_be (of_nat (length data))) w) (\<lambda>_ w. wr data w))"

definition gen_read_frame ::
    "(nat \<Rightarrow> 'r \<Rightarrow> bytes io \<times> 'r) \<Rightarrow> 'r \<Rightarrow> bytes io \<times> 'r" where
  "gen_read_frame rd r =
     try_io (rd 4 r) (\<lambda>h r.
       let n = unat (u32_of_be h) in
       if n > MAX_FRAME then (Inl (too_large InvalidData n), r)
       else try_io (rd n r) (\<lambda>b r. (Inr b, r)))"

abbreviation write_frame :: "bytes \<Rightarrow> conn \<Rightarrow> unit io \<times> conn" where
  "write_frame \<equiv> gen_write_frame write_all"

abbreviation read_frame :: "conn \<Rightarrow> bytes io \<times> conn" where
  "read_frame \<equiv> gen_read_frame read_exact"

section \<open>What a frame is\<close>

definition frame :: "bytes \<Rightarrow> bytes" where
  "frame f = u32_to_be (of_nat (length f)) @ f"

definition frame_ok :: "bytes \<Rightarrow> bool" where
  "frame_ok f \<longleftrightarrow> length f \<le> MAX_FRAME"

definition dec_frame :: "bytes \<Rightarrow> (bytes \<times> bytes) option" where
  "dec_frame p =
     (if length p < 4 then None
      else (let n = unat (u32_of_be (take 4 p)); q = drop 4 p
            in if n > MAX_FRAME \<or> length q < n then None else Some (take n q, drop n q)))"

function frames_of :: "bytes \<Rightarrow> bytes list" where
  "frames_of p = (case dec_frame p of None \<Rightarrow> [] | Some (f, rest) \<Rightarrow> f # frames_of rest)"
  by pat_completeness auto
termination
  by (relation "measure length") (auto simp: dec_frame_def Let_def split: if_splits)

declare frames_of.simps [simp del]

lemma length_frame [simp]: "length (frame f) = 4 + length f"
  by (simp add: frame_def)

lemma frame_ok_small: "length f \<le> 67108864 \<Longrightarrow> frame_ok f"
  by (simp add: frame_ok_def MAX_FRAME_def)

lemma frame_ok_Nil [simp]: "frame_ok []"
  by (simp add: frame_ok_def)

lemma dec_frame_frame: "frame_ok f \<Longrightarrow> dec_frame (frame f @ rest) = Some (f, rest)"
  by (simp add: dec_frame_def frame_def frame_ok_def MAX_FRAME_def unat_u32 Let_def)

interpretation frames: codec_loop frame dec_frame frame_ok frames_of
proof
  show "dec_frame p = Some (x, rest) \<Longrightarrow> length rest < length p" for p x rest
    by (auto simp: dec_frame_def Let_def split: if_splits)
qed (auto simp: dec_frame_frame frames_of.simps)

lemmas frames_of_stream = frames.parse_stream frames.parse_stream_stop

text \<open>What decodes to a frame is that frame's encoding: the code is canonical.\<close>

lemma dec_frame_Some_iff:
  "dec_frame p = Some (f, rest) \<longleftrightarrow> frame_ok f \<and> p = frame f @ rest"
proof
  assume d: "dec_frame p = Some (f, rest)"
  let ?h = "take 4 p" and ?q = "drop 4 p"
  from d have len: "4 \<le> length p" and n: "unat (u32_of_be ?h) \<le> MAX_FRAME"
    "unat (u32_of_be ?h) \<le> length ?q" and f: "f = take (unat (u32_of_be ?h)) ?q"
    and r: "rest = drop (unat (u32_of_be ?h)) ?q"
    by (auto simp: dec_frame_def Let_def split: if_splits)
  from f n have lf: "length f = unat (u32_of_be ?h)" by simp
  have "unbe ?h < 4294967296" using unbe_lt [of ?h] len by simp
  then have "unat (u32_of_be ?h) = unbe ?h" by (simp add: u32_of_be_def unat_u32)
  then have "u32_to_be (of_nat (length f)) = be 4 (unbe ?h)"
    using lf \<open>unbe ?h < 4294967296\<close> by (simp add: u32_to_be_def unat_u32)
  also have "\<dots> = ?h" using len be_unbe [of ?h 4 0] by simp
  finally have "u32_to_be (of_nat (length f)) = ?h" .
  moreover have "?q = f @ rest" unfolding f r by (rule append_take_drop_id [symmetric])
  ultimately have "p = frame f @ rest"
    using append_take_drop_id [of 4 p] by (simp add: frame_def)
  with lf n show "frame_ok f \<and> p = frame f @ rest" by (simp add: frame_ok_def)
qed (auto simp: dec_frame_frame)

section \<open>The codec over any byte stream\<close>

context byte_stream
begin

lemma write_frame_ok:
  assumes "frame_ok f" and "room (4 + length f) s"
  shows "gen_write_frame wr f s = (Inr (), put (frame f) s)"
proof -
  let ?h = "u32_to_be (of_nat (length f))"
  from assms(2) have "room (length ?h) s" by (auto intro: room_mono)
  moreover from assms(2) have "room (length f) (put ?h s)" by (simp add: room_put)
  ultimately show ?thesis
    using assms(1) by (simp add: gen_write_frame_def frame_ok_def wr_ok put_put frame_def)
qed

lemma write_frame_too_large:
  "\<not> frame_ok f \<Longrightarrow> gen_write_frame wr f s = (Inl (too_large InvalidInput (length f)), s)"
  by (simp add: gen_write_frame_def frame_ok_def)

lemma write_frame_fail:
  assumes "\<not> room (4 + length f) s"
  shows "\<exists>e. fst (gen_write_frame wr f s) = Inl e"
proof (cases "frame_ok f")
  case False
  then show ?thesis by (simp add: write_frame_too_large)
next
  case ok: True
  let ?h = "u32_to_be (of_nat (length f))"
  show ?thesis
  proof (cases "room (length ?h) s")
    case False
    from wr_full [OF this] obtain e s' where "wr ?h s = (Inl e, s')" by blast
    with ok show ?thesis by (simp add: gen_write_frame_def frame_ok_def)
  next
    case True
    with assms have "\<not> room (length f) (put ?h s)" by (simp add: room_put)
    from wr_full [OF this] obtain e s' where "wr f (put ?h s) = (Inl e, s')" by blast
    with ok True show ?thesis by (simp add: gen_write_frame_def frame_ok_def wr_ok)
  qed
qed

text \<open>A failed write leaves a prefix of the frame on the wire, never anything else.\<close>

lemma write_frame_prefix:
  "\<exists>k. outp (snd (gen_write_frame wr f s)) = outp s @ take k (frame f)"
proof -
  let ?h = "u32_to_be (of_nat (length f))"
  have part: "\<exists>k. outp (snd (wr d t)) = outp t @ take k d" for d t
  proof (cases "room (length d) t")
    case True
    then show ?thesis by (auto simp: wr_ok outp_put intro!: exI [of _ "length d"])
  next
    case False
    then show ?thesis using wr_full [of d t] by auto
  qed
  show ?thesis
  proof (cases "frame_ok f")
    case False
    then show ?thesis by (simp add: write_frame_too_large exI [of _ 0])
  next
    case ok: True
    show ?thesis
    proof (cases "room (length ?h) s")
      case True
      from part [of f "put ?h s"] obtain k where
        "outp (snd (wr f (put ?h s))) = outp s @ ?h @ take k f" by (auto simp: outp_put)
      then have "outp (snd (gen_write_frame wr f s)) = outp s @ take (4 + k) (frame f)"
        using ok True by (simp add: gen_write_frame_def frame_ok_def wr_ok frame_def)
      then show ?thesis by blast
    next
      case False
      from part [of ?h s] obtain k where k: "outp (snd (wr ?h s)) = outp s @ take k ?h" by blast
      from wr_full [OF False] obtain e s' where w: "wr ?h s = (Inl e, s')" by blast
      have "take k ?h = take (min k 4) (frame f)"
        by (cases "k \<le> 4") (auto simp: frame_def min_def)
      with ok w k have "outp (snd (gen_write_frame wr f s)) = outp s @ take (min k 4) (frame f)"
        by (simp add: gen_write_frame_def frame_ok_def)
      then show ?thesis by blast
    qed
  qed
qed

lemma read_frame_ok:
  assumes "frame_ok f" and "inp s = frame f @ rest"
  shows "gen_read_frame rd s = (Inr f, adv (4 + length f) s)"
proof -
  have h: "rd 4 s = (Inr (u32_to_be (of_nat (length f))), adv 4 s)"
    using assms(2) rd_ok [of 4 s] by (simp add: frame_def)
  have "inp (adv 4 s) = f @ rest" using assms(2) by (simp add: inp_adv frame_def)
  then have "rd (length f) (adv 4 s) = (Inr f, adv (4 + length f) s)"
    using rd_ok [of "length f" "adv 4 s"] by (simp add: adv_adv)
  moreover have "length f < 4294967296" using assms(1) by (simp add: frame_ok_def MAX_FRAME_def)
  ultimately show ?thesis
    using h assms(1) by (simp add: gen_read_frame_def Let_def unat_u32 frame_ok_def)
qed

text \<open>
  Reading succeeds exactly when the input starts with a whole frame; otherwise it is an error
  and nothing is taken for a frame.
\<close>

lemma read_frame_dec:
  "(case dec_frame (inp s) of
      Some (f, rest) \<Rightarrow> gen_read_frame rd s = (Inr f, adv (4 + length f) s)
    | None \<Rightarrow> \<exists>e. fst (gen_read_frame rd s) = Inl e)"
proof (cases "dec_frame (inp s)")
  case (Some r)
  obtain f rest where r: "r = (f, rest)" by (cases r)
  with Some have "frame_ok f" and "inp s = frame f @ rest" by (simp_all add: dec_frame_Some_iff)
  with Some r show ?thesis by (simp add: read_frame_ok)
next
  case None
  show ?thesis
  proof (cases "length (inp s) < 4")
    case True
    with rd_short [of s 4] None show ?thesis by (auto simp: gen_read_frame_def)
  next
    case False
    then have h: "rd 4 s = (Inr (take 4 (inp s)), adv 4 s)" by (simp add: rd_ok)
    let ?n = "unat (u32_of_be (take 4 (inp s)))"
    show ?thesis
    proof (cases "?n > MAX_FRAME")
      case True
      with h None show ?thesis by (simp add: gen_read_frame_def Let_def)
    next
      case ok: False
      with None False have "length (inp (adv 4 s)) < ?n"
        by (auto simp: dec_frame_def Let_def inp_adv split: if_splits)
      with rd_short [of "adv 4 s" ?n] h ok None show ?thesis
        by (auto simp: gen_read_frame_def Let_def)
    qed
  qed
qed

text \<open>Writing then reading through a loop-back of the written bytes gives the payload back.\<close>

lemma write_then_read:
  assumes "frame_ok f" and "room (4 + length f) s" and "outp s = []"
    and "inp r = outp (snd (gen_write_frame wr f s))"
  shows "gen_read_frame rd r = (Inr f, adv (4 + length f) r)"
  using assms by (intro read_frame_ok [where rest = "[]"]) (auto simp: write_frame_ok outp_put)

end

section \<open>Frames on a connection\<close>

lemma write_frame_conn [conn_simps]:
  "frame_ok f \<Longrightarrow> conn_room (4 + length f) c \<Longrightarrow> write_frame f c = (Inr (), conn_put (frame f) c)"
  by (rule tcp.write_frame_ok)

lemma read_frame_conn [conn_simps]:
  "frame_ok f \<Longrightarrow> read_frame (c\<lparr>c_in := frame f @ rest\<rparr>) = (Inr f, c\<lparr>c_in := rest\<rparr>)"
  using tcp.read_frame_ok [of f "c\<lparr>c_in := frame f @ rest\<rparr>" rest]
  by (simp add: conn_adv_def)

lemma read_frame_conn_last [conn_simps]:
  "frame_ok f \<Longrightarrow> read_frame (c\<lparr>c_in := frame f\<rparr>) = (Inr f, c\<lparr>c_in := []\<rparr>)"
  using read_frame_conn [where rest = "[]"] by simp

lemma read_frame_Inr_iff:
  "read_frame c = (Inr f, c') \<longleftrightarrow>
     (\<exists>rest. frame_ok f \<and> c_in c = frame f @ rest \<and> c' = c\<lparr>c_in := rest\<rparr>)"
proof (cases "dec_frame (c_in c)")
  case None
  then show ?thesis
    using tcp.read_frame_dec [where s = c] dec_frame_Some_iff [of "c_in c"] by auto
next
  case (Some r)
  obtain g rest where r: "r = (g, rest)" by (cases r)
  with Some have g: "frame_ok g" "c_in c = frame g @ rest"
    by (auto simp: dec_frame_Some_iff)
  then have "read_frame c = (Inr g, c\<lparr>c_in := rest\<rparr>)"
    using tcp.read_frame_ok [of g c rest] by (simp add: conn_adv_def)
  moreover have "f = g \<and> rest' = rest" if "frame_ok f" "c_in c = frame f @ rest'" for rest'
    using that g frames.enc_inj [of f g rest' rest] by simp
  ultimately show ?thesis using g by auto
qed

lemma read_frame_out [simp]: "c_out (snd (read_frame c)) = c_out c"
  by (simp add: gen_read_frame_def try_io_def read_exact_def Let_def split: prod.splits sum.splits)

lemma read_frame_at:
  "frame_ok f \<Longrightarrow> c_in c = frame f @ rest \<Longrightarrow> read_frame c = (Inr f, c\<lparr>c_in := rest\<rparr>)"
  by (auto simp: read_frame_Inr_iff)

lemma read_frame_keeps_out: "read_frame c = (r, t) \<Longrightarrow> c_out t = c_out c"
  using read_frame_out [of c] by simp

lemma read_frame_c_in_le: "length (c_in (snd (read_frame c))) \<le> length (c_in c)"
  by (simp add: gen_read_frame_def try_io_def read_exact_def Let_def split: prod.splits sum.splits)

lemma read_frame_shrinks:
  "read_frame c = (Inr f, c') \<Longrightarrow> length (c_in c') < length (c_in c)"
  by (auto simp: read_frame_Inr_iff)

lemma write_frame_c_in [simp]: "c_in (snd (write_frame f c)) = c_in c"
  by (simp add: gen_write_frame_def try_io_def write_all_def split: prod.splits sum.splits option.splits)

lemma write_frame_keeps_in: "write_frame f c = (r, t) \<Longrightarrow> c_in t = c_in c"
  using write_frame_c_in [of f c] by simp

lemma write_frame_unlimited [conn_simps]:
  "frame_ok f \<Longrightarrow> c_cap c = None \<Longrightarrow> write_frame f c = (Inr (), conn_put (frame f) c)"
  by (simp add: write_frame_conn)

section \<open>Sending a sequence of frames\<close>

text \<open>A sender that writes frames one after the other and stops at the first error.\<close>

fun send_frames :: "bytes list \<Rightarrow> conn \<Rightarrow> unit io \<times> conn" where
  "send_frames [] c = (Inr (), c)"
| "send_frames (f # fs) c = try_io (write_frame f c) (\<lambda>_ c. send_frames fs c)"

lemma frames_of_partial:
  "frame_ok f \<Longrightarrow> k < length (frame f) \<Longrightarrow> frames_of (take k (frame f)) = []"
proof (rule frames.parse_stop, rule ccontr)
  assume f: "frame_ok f" "k < length (frame f)" and "dec_frame (take k (frame f)) \<noteq> None"
  then obtain g rest where g: "frame_ok g" "take k (frame f) = frame g @ rest"
    by (auto simp: dec_frame_Some_iff)
  have "frame f @ [] = frame g @ rest @ drop k (frame f)"
    using append_take_drop_id [of k "frame f"] g(2) by simp
  then have "drop k (frame f) = []"
    using frames.enc_inj [OF f(1) g(1), of "[]" "rest @ drop k (frame f)"] by blast
  with f(2) show False by simp
qed

lemma frames_of_take:
  "\<forall>g \<in> set gs. frame_ok g \<Longrightarrow> frame_ok f \<Longrightarrow>
     \<exists>n. frames_of (concat (map frame gs) @ take k (frame f)) = gs @ take n (f # fs)"
proof (cases "k < length (frame f)")
  case True
  moreover assume "\<forall>g \<in> set gs. frame_ok g" "frame_ok f"
  ultimately show ?thesis
    by (intro exI [of _ 0]) (simp add: frames.parse_stream frames_of_partial)
next
  case False
  moreover assume "\<forall>g \<in> set gs. frame_ok g" "frame_ok f"
  ultimately show ?thesis
    using frames.parse_stream_stop [of "gs @ [f]" "[]"]
    by (intro exI [of _ 1]) (simp add: dec_frame_def)
qed

lemma send_frames_received:
  "\<forall>g \<in> set gs. frame_ok g \<Longrightarrow> c_out c = concat (map frame gs) \<Longrightarrow>
     \<exists>n. frames_of (c_out (snd (send_frames fs c))) = gs @ take n fs"
proof (induction fs arbitrary: gs c)
  case Nil
  then show ?case using frames.parse_stream_stop [of gs "[]"] by (simp add: dec_frame_def)
next
  case (Cons f fs)
  show ?case
  proof (cases "fst (write_frame f c)")
    case (Inr u)
    then have ok: "frame_ok f" and room: "conn_room (4 + length f) c"
      using tcp.write_frame_too_large [of f c] tcp.write_frame_fail [of f c]
      by (cases "frame_ok f"; auto)+
    with Cons.prems Cons.IH [of "gs @ [f]" "conn_put (frame f) c"] obtain n
      where "frames_of (c_out (snd (send_frames fs (conn_put (frame f) c)))) = (gs @ [f]) @ take n fs"
      by auto
    with ok room show ?thesis by (intro exI [of _ "Suc n"]) (simp add: write_frame_conn)
  next
    case (Inl e)
    then have out: "snd (send_frames (f # fs) c) = snd (write_frame f c)"
      by (cases "write_frame f c") simp
    show ?thesis
    proof (cases "frame_ok f")
      case True
      obtain k where "c_out (snd (write_frame f c)) = c_out c @ take k (frame f)"
        using tcp.write_frame_prefix [of f c] by auto
      then show ?thesis
        using frames_of_take [OF Cons.prems(1) True] Cons.prems(2) by (simp only: out)
    next
      case False
      then show ?thesis
        using frames.parse_stream_stop [of gs "[]"] Cons.prems
        by (intro exI [of _ 0]) (simp add: tcp.write_frame_too_large dec_frame_def)
    qed
  qed
qed

section \<open>Properties\<close>

text \<open>C1: a payload of at most 64 MiB written on a connection with room for it is received
  unchanged by a reader of the written bytes, whatever follows it on the stream, and exactly
  the frame's bytes are consumed.\<close>

theorem frame_roundtrip:
  assumes "frame_ok f" and "conn_room (4 + length f) w" and "c_out w = []"
  shows "fst (write_frame f w) = Inr () \<and>
    read_frame (r\<lparr>c_in := c_out (snd (write_frame f w)) @ rest\<rparr>) = (Inr f, r\<lparr>c_in := rest\<rparr>)"
  using assms by (simp add: write_frame_conn read_frame_conn)

theorem frame_roundtrip_witness:
  "\<exists>w r. fst (write_frame [1, 2, 3] w) = Inr () \<and>
     read_frame (r\<lparr>c_in := c_out (snd (write_frame [1, 2, 3] w)) @ [9]\<rparr>)
       = (Inr [1, 2, 3], r\<lparr>c_in := [9]\<rparr>)"
proof -
  let ?c = "\<lparr>c_in = [], c_end = IoError UnexpectedEof [], c_out = [], c_cap = Some 7,
    c_werr = IoError BrokenPipe [], c_timeout = None, c_clone = None, c_peer = Inr []\<rparr>"
  have "frame_ok [1, 2, 3]" by (simp add: frame_ok_def MAX_FRAME_def)
  moreover have "conn_room (4 + length [1, 2, 3 :: u8]) ?c" by (simp add: conn_room_def)
  moreover have "c_out ?c = []" by simp
  ultimately show ?thesis 
    using frame_roundtrip [where f = "[1, 2, 3]" and w = ?c and r = ?c and rest = "[9]"] by blast
qed

text \<open>C2: whatever the socket does to a sender that writes frames in sequence (it may fail
  after any byte), the frames a reader finds in the bytes on the wire are an initial part of
  the frames sent, in order: none is altered, merged, reordered or invented.\<close>

theorem frames_received_prefix:
  assumes "c_out c = []"
  shows "\<exists>n. frames_of (c_out (snd (send_frames fs c))) = take n fs"
  using send_frames_received [of "[]" c fs] assms by simp

theorem frames_received_prefix_witness:
  "\<exists>c n. frames_of (c_out (snd (send_frames [[1], [2, 3]] c))) = take n [[1], [2, 3]]"
proof -
  let ?c = "\<lparr>c_in = [], c_end = IoError UnexpectedEof [], c_out = [], c_cap = Some 8,
    c_werr = IoError BrokenPipe [], c_timeout = None, c_clone = None, c_peer = Inr []\<rparr>"
  have "c_out ?c = []" by simp
  from frames_received_prefix [OF this, of "[[1], [2, 3]]"] show ?thesis by blast
qed

text \<open>C3: a reader accepts a frame exactly when the input starts with a whole frame of at most
  64 MiB, and then leaves the bytes after it; a header that announces more is refused after
  those four bytes, before any payload is read or allocated.\<close>

theorem read_frame_exact:
  "(read_frame c = (Inr f, c') \<longleftrightarrow>
      (\<exists>rest. length f \<le> MAX_FRAME \<and> c_in c = frame f @ rest \<and> c' = c\<lparr>c_in := rest\<rparr>))
   \<and> (4 \<le> length (c_in c) \<longrightarrow> MAX_FRAME < unat (u32_of_be (take 4 (c_in c))) \<longrightarrow>
      read_frame c = (Inl (too_large InvalidData (unat (u32_of_be (take 4 (c_in c))))),
        c\<lparr>c_in := drop 4 (c_in c)\<rparr>))"
  using read_frame_Inr_iff [of c f c']
  by (auto simp: frame_ok_def gen_read_frame_def read_exact_def Let_def)

theorem read_frame_exact_witness:
  "\<exists>c. read_frame c = (Inl (too_large InvalidData 4294967295), c\<lparr>c_in := [7]\<rparr>)"
proof -
  let ?c = "\<lparr>c_in = [255, 255, 255, 255, 7], c_end = IoError UnexpectedEof [], c_out = [],
    c_cap = None, c_werr = IoError BrokenPipe [], c_timeout = None, c_clone = None, c_peer = Inr []\<rparr>"
  have n: "unat (u32_of_be (take 4 (c_in ?c))) = 4294967295"
    by (simp add: u32_of_be_def unbe_Cons unat_u32)
  have "4 \<le> length (c_in ?c)" and "MAX_FRAME < unat (u32_of_be (take 4 (c_in ?c)))"
    unfolding n by (simp_all add: MAX_FRAME_def)
  with read_frame_exact [of ?c] have "read_frame ?c =
      (Inl (too_large InvalidData (unat (u32_of_be (take 4 (c_in ?c))))),
        ?c\<lparr>c_in := drop 4 (c_in ?c)\<rparr>)" by blast
  then have "read_frame ?c = (Inl (too_large InvalidData 4294967295), ?c\<lparr>c_in := [7]\<rparr>)"
    unfolding n by simp
  then show ?thesis by blast
qed

end
