(* ===== verification/Host.thy ===== *)
theory Host
  imports Frame
begin

text \<open>
  The process a command runs in: environment variables, files, standard input, terminal events
  and standard output, as far as the command-line code under \<^theory_text>\<open>src/\<close> uses them. What the
  operating system answers (the content of a file, an error for a path, the next event) is a
  field of the record \<open>host\<close>; what the program changes is updated there, the processes it starts and kills
  included. Messages on standard
  error are not part of the state. \<open>outcome\<close> is how a command ends: a value, an \<^theory_text>\<open>Err\<close>, a
  call of \<^theory_text>\<open>exit\<close>, or a panic.
\<close>

section \<open>Terminal events\<close>

datatype key_kind = Press | Repeat | Release

text \<open>A character key carries the UTF-8 bytes of its character.\<close>

datatype key_code =
    KChar rstr | KEnter | KBackspace | KTab | KEsc | KLeft | KRight | KUp | KDown
  | KHome | KEnd | KPageUp | KPageDown | KDelete | KOther

record key_event =
  k_code :: key_code
  k_kind :: key_kind
  k_ctrl :: bool
  k_alt :: bool

datatype term_event = KeyEv key_event | Resize u16 u16 | OtherEv

section \<open>The process state\<close>

record host =
  h_env :: "rstr \<Rightarrow> rstr option"
  h_tmp :: rstr
  h_cwd :: "rstr io"
  h_files :: "rstr \<Rightarrow> bytes option"
  h_dirs :: "rstr \<Rightarrow> bool"
  h_read_err :: "rstr \<Rightarrow> io_error option"
  h_write_err :: "rstr \<Rightarrow> io_error option"
  h_append_err :: "rstr \<Rightarrow> io_error option"
  h_tty :: bool
  h_stdin :: bytes
  h_events :: "term_event io list"
  h_events_end :: io_error
  h_raw :: "unit io"
  h_is_raw :: bool
  h_out :: bytes
  h_spawned :: "(rstr list \<times> rstr \<times> rstr \<times> rstr option) list"
  h_killed :: "nat list"

text \<open>\<^theory_text>\<open>event::read\<close>: the next event, or the error that ends the event stream.\<close>

definition next_event :: "host \<Rightarrow> term_event io \<times> host" where
  "next_event h =
     (case h_events h of
        [] \<Rightarrow> (Inl (h_events_end h), h)
      | ev # evs \<Rightarrow> (ev, h\<lparr>h_events := evs\<rparr>))"

lemma next_event_shrinks:
  "next_event h = (Inr ev, h') \<Longrightarrow> length (h_events h') < length (h_events h)"
  by (auto simp: next_event_def split: list.splits)

text \<open>
  \<^theory_text>\<open>RawModeGuard::new\<close> and its \<^theory_text>\<open>drop\<close> (\<^theory_text>\<open>src/auth.rs\<close>); leaving raw mode is taken to succeed.
\<close>

definition raw_mode_new :: "host \<Rightarrow> unit io \<times> host" where
  "raw_mode_new h =
     (case h_raw h of Inl e \<Rightarrow> (Inl e, h) | Inr _ \<Rightarrow> (Inr (), h\<lparr>h_is_raw := True\<rparr>))"

definition raw_mode_drop :: "host \<Rightarrow> host" where
  "raw_mode_drop h = h\<lparr>h_is_raw := False\<rparr>"

text \<open>\<^theory_text>\<open>read_to_string\<close>, \<^theory_text>\<open>fs::write\<close>, \<^theory_text>\<open>remove_file\<close> and \<^theory_text>\<open>Path::exists\<close>.\<close>

definition read_to_string :: "rstr \<Rightarrow> host \<Rightarrow> rstr io" where
  "read_to_string p h =
     (case h_read_err h p of
        Some e \<Rightarrow> Inl e
      | None \<Rightarrow>
          (case h_files h p of
             None \<Rightarrow> Inl (IoError NotFound (lit ''No such file or directory''))
           | Some b \<Rightarrow>
               if utf8_valid b then Inr b
               else Inl (IoError InvalidData (lit ''stream did not contain valid UTF-8''))))"

definition fs_write :: "rstr \<Rightarrow> bytes \<Rightarrow> host \<Rightarrow> unit io \<times> host" where
  "fs_write p b h =
     (case h_write_err h p of
        Some e \<Rightarrow> (Inl e, h)
      | None \<Rightarrow> (Inr (), h\<lparr>h_files := (h_files h)(p := Some b)\<rparr>))"

definition remove_file :: "rstr \<Rightarrow> host \<Rightarrow> host" where
  "remove_file p h = h\<lparr>h_files := (h_files h)(p := None)\<rparr>"

definition path_exists :: "rstr \<Rightarrow> host \<Rightarrow> bool" where
  "path_exists p h \<longleftrightarrow> h_files h p \<noteq> None \<or> h_dirs h p"

text \<open>\<^theory_text>\<open>create_dir_all\<close>, \<^theory_text>\<open>File::create\<close>, and \<^theory_text>\<open>write_all\<close> on an open file.\<close>

definition create_dir_all :: "rstr \<Rightarrow> host \<Rightarrow> unit io \<times> host" where
  "create_dir_all p h =
     (case h_write_err h p of
        Some e \<Rightarrow> (Inl e, h)
      | None \<Rightarrow> (Inr (), h\<lparr>h_dirs := (h_dirs h)(p := True)\<rparr>))"

definition file_create :: "rstr \<Rightarrow> host \<Rightarrow> unit io \<times> host" where
  "file_create p h = fs_write p [] h"

definition file_append :: "rstr \<Rightarrow> bytes \<Rightarrow> host \<Rightarrow> unit io \<times> host" where
  "file_append p d h =
     (case h_append_err h p of
        Some e \<Rightarrow> (Inl e, h)
      | None \<Rightarrow>
          (Inr (), h\<lparr>h_files := (h_files h)
             (p := Some ((case h_files h p of Some b \<Rightarrow> b | None \<Rightarrow> []) @ d))\<rparr>))"

text \<open>\<^theory_text>\<open>read_line\<close>: up to and including the next line feed; it must be UTF-8.\<close>

definition read_line :: "host \<Rightarrow> rstr io \<times> host" where
  "read_line h =
     (let line = takeWhile (\<lambda>b. b \<noteq> 10) (h_stdin h);
          n = length line + 1;
          h' = h\<lparr>h_stdin := drop n (h_stdin h)\<rparr>
      in if utf8_valid line then (Inr (take n (h_stdin h)), h')
         else (Inl (IoError InvalidData (lit ''stream did not contain valid UTF-8'')), h'))"

text \<open>\<^theory_text>\<open>Path::join\<close>: an absolute second part replaces the first.\<close>

definition path_join :: "rstr \<Rightarrow> rstr \<Rightarrow> rstr" where
  "path_join a b =
     (if b \<noteq> [] \<and> hd b = 47 then b
      else if a = [] then b
      else if last a = 47 then a @ b
      else a @ [47] @ b)"

text \<open>Output of \<^theory_text>\<open>print!\<close> and of \<^theory_text>\<open>stdout().write_all\<close>.\<close>

definition put_out :: "bytes \<Rightarrow> host \<Rightarrow> host" where
  "put_out b h = h\<lparr>h_out := h_out h @ b\<rparr>"

definition put_line :: "bytes \<Rightarrow> host \<Rightarrow> host" where
  "put_line b h = put_out (b @ [10]) h"

lemma fs_write_read:
  "fst (fs_write p b h) = Inr () \<Longrightarrow> h_read_err h p = None \<Longrightarrow> utf8_valid b \<Longrightarrow>
     read_to_string p (snd (fs_write p b h)) = Inr b"
  by (auto simp: fs_write_def read_to_string_def split: option.splits)

lemma fs_write_other [simp]:
  "h_env (snd (fs_write p b h)) = h_env h" "h_tmp (snd (fs_write p b h)) = h_tmp h"
  "h_read_err (snd (fs_write p b h)) = h_read_err h"
  by (simp_all add: fs_write_def split: option.splits)

section \<open>How a command ends\<close>

datatype 'a outcome = Done 'a | Fail io_error | Exit int | Panic

definition then_do ::
    "'a outcome \<times> 's \<Rightarrow> ('a \<Rightarrow> 's \<Rightarrow> 'b outcome \<times> 's) \<Rightarrow> 'b outcome \<times> 's" where
  "then_do r k =
     (case r of
        (Done x, s) \<Rightarrow> k x s
      | (Fail e, s) \<Rightarrow> (Fail e, s)
      | (Exit n, s) \<Rightarrow> (Exit n, s)
      | (Panic, s) \<Rightarrow> (Panic, s))"

lemma then_do_simps [simp]:
  "then_do (Done x, s) k = k x s" "then_do (Fail e, s) k = (Fail e, s)"
  "then_do (Exit n, s) k = (Exit n, s)" "then_do (Panic, s) k = (Panic, s)"
  by (simp_all add: then_do_def)

text \<open>An \<^theory_text>\<open>io::Result\<close> under the \<^theory_text>\<open>?\<close> of a command.\<close>

definition of_io :: "'a io \<Rightarrow> 'a outcome" where
  "of_io r = (case r of Inl e \<Rightarrow> Fail e | Inr x \<Rightarrow> Done x)"

lemma of_io_simps [simp]: "of_io (Inl e) = Fail e" "of_io (Inr x) = Done x"
  by (simp_all add: of_io_def)

text \<open>A connection operation inside a command, whose state is the process and the connection.\<close>

definition on_conn :: "(conn \<Rightarrow> 'a io \<times> conn) \<Rightarrow> host \<times> conn \<Rightarrow> 'a outcome \<times> (host \<times> conn)" where
  "on_conn f s = (case f (snd s) of (r, c) \<Rightarrow> (of_io r, (fst s, c)))"

end
