(* ===== verification/Auth.thy ===== *)
theory Auth
  imports Host
begin

text \<open>
  Sessions and the authentication handshake (\<^theory_text>\<open>src/auth.rs\<close>): the cached session file, the
  argument helpers, both sides of the challenge-response protocol and the password prompt.
  \<open>sha\<close> is the SHA-256 of the \<^theory_text>\<open>sha2\<close> crate and \<open>nonce\<close> the random bytes of the \<^theory_text>\<open>rand\<close> crate;
  all the protocol uses of them is that a digest has 32 bytes and a nonce 16.
\<close>

section \<open>Constants\<close>

text \<open>Milliseconds.\<close>

definition READ_TIMEOUT :: nat where "READ_TIMEOUT = 30 * 1000"

definition AUTH_REQUIRED :: u8 where "AUTH_REQUIRED = 0x40"
definition AUTH_NONE :: u8 where "AUTH_NONE = 0x41"
definition AUTH_OK :: u8 where "AUTH_OK = 0x42"
definition AUTH_FAIL :: u8 where "AUTH_FAIL = 0x43"
definition AUTH_PASS :: u8 where "AUTH_PASS = 0x44"
definition AUTH_NONCE_LEN :: nat where "AUTH_NONCE_LEN = 16"
definition AUTH_HASH_LEN :: nat where "AUTH_HASH_LEN = 32"

lemmas auth_defs = AUTH_REQUIRED_def AUTH_NONE_def AUTH_OK_def AUTH_FAIL_def AUTH_PASS_def
  AUTH_NONCE_LEN_def AUTH_HASH_LEN_def

section \<open>The session file\<close>

definition session_file :: "host \<Rightarrow> rstr" where
  "session_file h = path_join (h_tmp h) (lit ''thru_client_session'')"

text \<open>The UTF-8 bytes of U+FEFF.\<close>

definition bom :: rstr where "bom = [0xEF, 0xBB, 0xBF]"

definition load_session :: "host \<Rightarrow> (rstr \<times> rstr option) option" where
  "load_session h =
     (case read_to_string (session_file h) h of
        Inl _ \<Rightarrow> None
      | Inr content \<Rightarrow>
          let content = (case strip_prefix bom content of Some r \<Rightarrow> r | None \<Rightarrow> content)
          in (case lines_of content of
               [] \<Rightarrow> None
             | addr # rest \<Rightarrow>
                 Some (addr, case rest of [] \<Rightarrow> None | pw # _ \<Rightarrow> if pw = [] then None else Some pw)))"

definition save_session :: "rstr \<Rightarrow> rstr option \<Rightarrow> host \<Rightarrow> unit io \<times> host" where
  "save_session addr password h =
     fs_write (session_file h)
       (addr @ [10] @ (case password of Some p \<Rightarrow> p | None \<Rightarrow> []) @ [10]) h"

definition session_password :: "host \<Rightarrow> rstr option" where
  "session_password h = (case load_session h of None \<Rightarrow> None | Some (_, pw) \<Rightarrow> pw)"

section \<open>Arguments\<close>

text \<open>
  The loop both helpers run: a flag followed by a value sets the value (the last one wins), any
  other argument is kept, and so is the flag when nothing follows it.
\<close>

fun take_flag :: "rstr \<Rightarrow> rstr option \<Rightarrow> rstr list \<Rightarrow> rstr option \<times> rstr list" where
  "take_flag flag v [] = (v, [])"
| "take_flag flag v [a] = (v, [a])"
| "take_flag flag v (a # b # args) =
     (if a = flag then take_flag flag (Some b) args
      else (case take_flag flag v (b # args) of (v', rest) \<Rightarrow> (v', a # rest)))"

definition parse_password :: "rstr list \<Rightarrow> rstr option \<times> rstr list" where
  "parse_password args = take_flag (lit ''-p'') None args"

definition resolve_addr :: "rstr list \<Rightarrow> nat \<Rightarrow> host \<Rightarrow> rstr \<times> rstr list" where
  "resolve_addr args default_port h =
     (case take_flag (lit ''--connect'') None args of
        (Some a, rest) \<Rightarrow> (a, rest)
      | (None, rest) \<Rightarrow>
          (case load_session h of
             Some (saddr, _) \<Rightarrow> (saddr, rest)
           | None \<Rightarrow>
               (case h_env h (lit ''THRU_SERVER'') of
                  Some a \<Rightarrow> (a, rest)
                | None \<Rightarrow> (lit ''127.0.0.1:'' @ decimal default_port, rest))))"

section \<open>Hashes\<close>

type_synonym hash = "bytes \<Rightarrow> bytes"

definition compute_auth_hash :: "hash \<Rightarrow> rstr \<Rightarrow> bytes \<Rightarrow> bytes" where
  "compute_auth_hash sha password nonce = sha (password @ nonce)"

definition constant_time_eq :: "bytes \<Rightarrow> bytes \<Rightarrow> bool" where
  "constant_time_eq a b =
     (if length a \<noteq> length b then False
      else foldl (\<lambda>diff (x, y). or diff (xor x y)) 0 (zip a b) = 0)"

section \<open>The password prompt\<close>

text \<open>The typed characters, in order; backspace removes the last one.\<close>

fun password_loop :: "rstr list \<Rightarrow> io_error \<Rightarrow> term_event io list \<Rightarrow> rstr io \<times> term_event io list" where
  "password_loop pw e [] = (Inl e, [])"
| "password_loop pw e (Inl err # evs) = (Inl err, evs)"
| "password_loop pw e (Inr ev # evs) =
     (case ev of
        KeyEv k \<Rightarrow>
          if k_kind k = Press \<or> k_kind k = Repeat
          then (case k_code k of
              KEnter \<Rightarrow> (Inr (concat pw), evs)
            | KBackspace \<Rightarrow> password_loop (butlast pw) e evs
            | KChar ch \<Rightarrow> password_loop (pw @ [ch]) e evs
            | _ \<Rightarrow> password_loop pw e evs)
          else password_loop pw e evs
      | _ \<Rightarrow> password_loop pw e evs)"

definition read_password :: "host \<Rightarrow> rstr io \<times> host" where
  "read_password h =
     (if \<not> h_tty h
      then (Inl (IoError OtherKind (lit ''stdin is not a terminal; use -p <password>'')), h)
      else (case raw_mode_new h of
          (Inl e, h) \<Rightarrow> (Inl e, h)
        | (Inr _, h) \<Rightarrow>
            (case password_loop [] (h_events_end h) (h_events h) of
               (r, evs) \<Rightarrow> (r, raw_mode_drop (h\<lparr>h_events := evs\<rparr>)))))"

section \<open>The handshake\<close>

definition auth_server :: "hash \<Rightarrow> bytes \<Rightarrow> rstr option \<Rightarrow> conn \<Rightarrow> bool io \<times> conn" where
  "auth_server sha nonce password c =
     (case password of
        Some pw \<Rightarrow>
          try_io (write_frame (AUTH_REQUIRED # nonce) c) (\<lambda>_ c.
          try_io (read_frame c) (\<lambda>f c.
            if length f < 1 + AUTH_HASH_LEN \<or> f ! 0 \<noteq> AUTH_PASS
            then try_io (write_frame [AUTH_FAIL] c) (\<lambda>_ c. (Inr False, c))
            else
              (let client_hash = take AUTH_HASH_LEN (drop 1 f);
                   expected_hash = compute_auth_hash sha pw nonce
               in if constant_time_eq client_hash expected_hash
                  then try_io (write_frame [AUTH_OK] c) (\<lambda>_ c.
                       try_io (flush c) (\<lambda>_ c. (Inr True, c)))
                  else try_io (write_frame [AUTH_FAIL] c) (\<lambda>_ c.
                       try_io (flush c) (\<lambda>_ c. (Inr False, c))))))
      | None \<Rightarrow>
          try_io (write_frame [AUTH_NONE] c) (\<lambda>_ c. try_io (flush c) (\<lambda>_ c. (Inr True, c))))"

text \<open>The second half of the client: the password is known.\<close>

definition auth_answer :: "hash \<Rightarrow> rstr \<Rightarrow> bytes \<Rightarrow> conn \<Rightarrow> (bool \<times> rstr option) io \<times> conn" where
  "auth_answer sha pw nonce c =
     try_io (write_frame (AUTH_PASS # compute_auth_hash sha pw nonce) c) (\<lambda>_ c.
     try_io (read_frame c) (\<lambda>resp c.
       ((case resp of
           [] \<Rightarrow> Inl (IoError OtherKind (lit ''invalid auth response''))
         | s # _ \<Rightarrow>
             if s = AUTH_OK then Inr (True, Some pw)
             else if s = AUTH_FAIL then Inr (False, None)
             else Inl (IoError OtherKind (lit ''invalid auth response''))), c)))"

definition auth_client ::
    "hash \<Rightarrow> rstr option \<Rightarrow> bool \<Rightarrow> host \<times> conn \<Rightarrow> (bool \<times> rstr option) io \<times> (host \<times> conn)" where
  "auth_client sha password interactive s =
     (case s of (h, c) \<Rightarrow>
       (case read_frame c of
          (Inl e, c) \<Rightarrow> (Inl e, (h, c))
        | (Inr f, c) \<Rightarrow>
            if f = []
            then (Inl (IoError OtherKind (lit ''connection closed during auth'')), (h, c))
            else if f ! 0 = AUTH_NONE then (Inr (True, None), (h, c))
            else if f ! 0 = AUTH_REQUIRED then
              (if length f < 1 + AUTH_NONCE_LEN
               then (Inl (IoError InvalidData (lit ''truncated auth nonce'')), (h, c))
               else
                 (let nonce = take AUTH_NONCE_LEN (drop 1 f)
                  in (case password of
                       Some pw \<Rightarrow> (case auth_answer sha pw nonce c of (r, c) \<Rightarrow> (r, (h, c)))
                     | None \<Rightarrow>
                         if interactive
                         then (case read_password h of
                             (Inl e, h) \<Rightarrow> (Inr (False, None), (h, c))
                           | (Inr pw, h) \<Rightarrow>
                               (case auth_answer sha pw nonce c of (r, c) \<Rightarrow> (r, (h, c))))
                         else (Inr (False, None), (h, c)))))
            else (Inl (IoError OtherKind (lit ''invalid auth handshake'')), (h, c))))"

definition open_session ::
    "hash \<Rightarrow> transport \<Rightarrow> rstr list \<Rightarrow> nat \<Rightarrow> host \<Rightarrow> (conn \<times> rstr \<times> rstr list) outcome \<times> host" where
  "open_session sha t args default_port h =
     (case resolve_addr args default_port h of (addr, rest) \<Rightarrow>
       let pw = session_password h
       in (case connect t addr of
            Inl e \<Rightarrow> (Fail e, h)
          | Inr c \<Rightarrow>
              (case set_read_timeout (Some READ_TIMEOUT) c of
                 (Inl e, _) \<Rightarrow> (Fail e, h)
               | (Inr _, c) \<Rightarrow>
                   (case auth_client sha pw False (h, c) of
                      (Inl e, (h, _)) \<Rightarrow> (Fail e, h)
                    | (Inr (ok, _), (h, c)) \<Rightarrow>
                        if \<not> ok then (Exit 1, h) else (Done (c, addr, rest), h)))))"

end
