(* ===== verification/Exec.thy ===== *)
theory Exec
  imports Host
begin

text \<open>
  Remote command execution and the remote shell (\<^theory_text>\<open>crates/thru-exec/src/lib.rs\<close>). What a
  spawned command prints and how it ends is the argument \<open>x_run\<close>; a pseudo-terminal with its
  child shell (the \<^theory_text>\<open>portable-pty\<close> crate) is the record of operations \<open>pty_sys\<close> on a session
  state. The shell handler runs two threads: one copies terminal output to the connection, the
  other feeds client frames to the terminal and writes nothing to the connection, so the order
  of the two on the connection's output is the first thread's order alone. The handler waits for
  the first thread before it returns: \<open>None\<close> is a handler that waits for ever.
\<close>

section \<open>Constants and the shell\<close>

definition OP_SHELL_OPEN :: u8 where "OP_SHELL_OPEN = 30"
definition OP_RESIZE :: u8 where "OP_RESIZE = 31"
definition OP_EXEC_SCRIPT :: u8 where "OP_EXEC_SCRIPT = 32"

definition default_shell :: "bool \<Rightarrow> host \<Rightarrow> rstr" where
  "default_shell unix h =
     (let dflt = (if unix
          then (case h_env h (lit ''SHELL'') of Some s \<Rightarrow> s | None \<Rightarrow> lit ''/bin/sh'')
          else (case h_env h (lit ''COMSPEC'') of Some s \<Rightarrow> s | None \<Rightarrow> lit ''cmd.exe''))
      in case h_env h (lit ''THRU_SHELL'') of
           Some s \<Rightarrow> if s \<noteq> [] then s else dflt
         | None \<Rightarrow> dflt)"

section \<open>One-shot scripts\<close>

text \<open>The exit status holds the bits of an \<^theory_text>\<open>i32\<close>, none when a signal ended the command.\<close>

record cmd_output =
  o_stdout :: bytes
  o_stderr :: bytes
  o_code :: "u32 option"

record exec_env =
  x_unix :: bool
  x_pid :: nat
  x_run :: "rstr \<Rightarrow> rstr list \<Rightarrow> host \<Rightarrow> cmd_output io \<times> host"

text \<open>The process with the counter of its temporary batch files.\<close>

record exec_state =
  p_host :: host
  p_bat :: u64

definition bat_script :: "rstr \<Rightarrow> rstr" where
  "bat_script script =
     lit ''@echo off'' @ [13, 10] @
       concat (map (\<lambda>line. line @ [13, 10] @ lit ''if errorlevel 1 exit'' @ [13, 10])
         (filter (\<lambda>line. trim line \<noteq> []) (lines_of script)))"

definition run_script :: "exec_env \<Rightarrow> rstr \<Rightarrow> exec_state \<Rightarrow> cmd_output io \<times> exec_state" where
  "run_script x script st =
     (if x_unix x then
        (case x_run x (default_shell (x_unix x) (p_host st)) [lit ''-e'', lit ''-c'', script] (p_host st) of
           (r, h) \<Rightarrow> (r, st\<lparr>p_host := h\<rparr>))
      else
        (let counter = p_bat st;
             st = st\<lparr>p_bat := counter + 1\<rparr>;
             bat_path = path_join (h_tmp (p_host st))
               (lit ''thru_exec_'' @ decimal (x_pid x) @ lit ''_'' @ decimal (unat counter) @ lit ''.bat'')
         in case fs_write bat_path (bat_script script) (p_host st) of
              (Inl e, h) \<Rightarrow> (Inl e, st\<lparr>p_host := h\<rparr>)
            | (Inr _, h) \<Rightarrow>
                (case x_run x (lit ''cmd.exe'') [lit ''/Q'', lit ''/C'', bat_path] h of
                   (r, h) \<Rightarrow> (r, st\<lparr>p_host := remove_file bat_path h\<rparr>))))"

text \<open>The reply: non-empty standard output, non-empty standard error, the code, the end.\<close>

definition send_output :: "cmd_output \<Rightarrow> conn \<Rightarrow> unit io \<times> conn" where
  "send_output out c =
     try_io (if o_stdout out \<noteq> [] then write_frame (o_stdout out) c else (Inr (), c)) (\<lambda>_ c.
     try_io (if o_stderr out \<noteq> [] then write_frame (o_stderr out) c else (Inr (), c)) (\<lambda>_ c.
       (let code = (case o_code out of Some n \<Rightarrow> n | None \<Rightarrow> 1)
        in try_io (write_frame (u32_to_be code) c) (\<lambda>_ c. write_frame [] c))))"

definition handle_exec_script ::
    "exec_env \<Rightarrow> bytes \<Rightarrow> exec_state \<times> conn \<Rightarrow> unit io \<times> (exec_state \<times> conn)" where
  "handle_exec_script x data s =
     (case s of (st, c) \<Rightarrow>
       if length data < 5 then (case write_frame [ST_ERR] c of (r, c) \<Rightarrow> (r, (st, c)))
       else
         (let script_len = unat (u32_of_be (take 4 (drop 1 data)))
          in if length data < 5 + script_len
             then (case write_frame [ST_ERR] c of (r, c) \<Rightarrow> (r, (st, c)))
             else
               (case run_script x (lossy (take script_len (drop 5 data))) st of
                  (Inl e, st) \<Rightarrow> (Inl e, (st, c))
                | (Inr out, st) \<Rightarrow> (case send_output out c of (r, c) \<Rightarrow> (r, (st, c))))))"

function recv_frames :: "conn \<Rightarrow> bytes list io \<times> conn" where
  "recv_frames c =
     (case read_frame c of
        (Inl e, c') \<Rightarrow> (Inl e, c')
      | (Inr f, c') \<Rightarrow>
          if f = [] then (Inr [], c')
          else try_io (recv_frames c') (\<lambda>fs c. (Inr (f # fs), c)))"
  by pat_completeness auto
termination
  by (relation "measure (length \<circ> c_in)") (auto dest: read_frame_shrinks [OF sym])

declare recv_frames.simps [simp del]

text \<open>The code comes back as the bits of an \<^theory_text>\<open>i32\<close>.\<close>

definition exec_script_on_conn :: "rstr \<Rightarrow> conn \<Rightarrow> (rstr \<times> u32) io \<times> conn" where
  "exec_script_on_conn script c =
     try_io (write_frame (OP_EXEC_SCRIPT # u32_to_be (of_nat (length script)) @ script) c) (\<lambda>_ c.
     try_io (recv_frames c) (\<lambda>frames c.
       (let exit_code =
              (if frames = [] then 1
               else if length (last frames) = 4 then u32_of_be (last frames) else 1);
            output = concat (take (length frames - 1) frames)
        in (Inr (lossy output, exit_code), c))))"

section \<open>The interactive shell\<close>

text \<open>
  What the \<^theory_text>\<open>portable-pty\<close> crate does, on a state \<open>'p\<close> of a terminal with the child that runs in
  it: its errors are given by their messages. A wait that never ends is \<open>None\<close>.
\<close>

record pty_size =
  ps_rows :: u16
  ps_cols :: u16
  ps_pixel_width :: u16
  ps_pixel_height :: u16

record 'p pty_sys =
  y_openpty :: "pty_size \<Rightarrow> rstr + 'p"
  y_spawn :: "rstr \<Rightarrow> rstr option \<Rightarrow> 'p \<Rightarrow> (rstr + unit) \<times> 'p"
  y_clone_reader :: "'p \<Rightarrow> (rstr + unit) \<times> 'p"
  y_take_writer :: "'p \<Rightarrow> (rstr + unit) \<times> 'p"
  y_try_wait :: "'p \<Rightarrow> (rstr + u32 option) \<times> 'p"
  y_wait :: "'p \<Rightarrow> ((rstr + u32) \<times> 'p) option"
  y_resize :: "pty_size \<Rightarrow> 'p \<Rightarrow> (rstr + unit) \<times> 'p"
  y_write :: "bytes \<Rightarrow> 'p \<Rightarrow> unit io \<times> 'p"
  y_flush :: "'p \<Rightarrow> unit io \<times> 'p"
  y_output :: "'p \<Rightarrow> bytes io list"
  y_closed :: "'p \<Rightarrow> bool"

definition pty_size :: "u16 \<Rightarrow> u16 \<Rightarrow> pty_size" where
  "pty_size rows cols =
     \<lparr>ps_rows = rows, ps_cols = cols, ps_pixel_width = 0, ps_pixel_height = 0\<rparr>"

text \<open>The terminal with its child, and the two halves that can be taken out once.\<close>

record 'p pty_session =
  pt_master :: 'p
  pt_reader :: "unit option"
  pt_writer :: "unit option"

text \<open>\<^theory_text>\<open>map_err(|e| io::Error::new(ErrorKind::Other, e))\<close>.\<close>

definition other_err :: "(rstr + 'a) \<times> 'p \<Rightarrow> 'a io \<times> 'p" where
  "other_err r = (map_sum (IoError OtherKind) id (fst r), snd r)"

definition pty_new :: "bool \<Rightarrow> 'p pty_sys \<Rightarrow> u16 \<Rightarrow> u16 \<Rightarrow> host \<Rightarrow> 'p pty_session io" where
  "pty_new unix y cols rows h =
     (case y_openpty y (pty_size rows cols) of
        Inl m \<Rightarrow> Inl (IoError OtherKind m)
      | Inr p \<Rightarrow>
          let cwd = (case h_cwd h of Inl _ \<Rightarrow> None | Inr d \<Rightarrow> Some d)
          in fst (try_io (other_err (y_spawn y (default_shell unix h) cwd p)) (\<lambda>_ p.
             try_io (other_err (y_clone_reader y p)) (\<lambda>reader p.
             try_io (other_err (y_take_writer y p)) (\<lambda>writer p.
               (Inr \<lparr>pt_master = p, pt_reader = Some reader, pt_writer = Some writer\<rparr>, p))))))"

definition take_reader :: "'p pty_session \<Rightarrow> unit option \<times> 'p pty_session" where
  "take_reader s = (pt_reader s, s\<lparr>pt_reader := None\<rparr>)"

definition take_writer :: "'p pty_session \<Rightarrow> unit option \<times> 'p pty_session" where
  "take_writer s = (pt_writer s, s\<lparr>pt_writer := None\<rparr>)"

text \<open>An operation of the terminal inside a session.\<close>

definition on_master :: "('p \<Rightarrow> 'a \<times> 'p) \<Rightarrow> 'p pty_session \<Rightarrow> 'a \<times> 'p pty_session" where
  "on_master f s = (case f (pt_master s) of (r, p) \<Rightarrow> (r, s\<lparr>pt_master := p\<rparr>))"

definition pty_resize ::
    "'p pty_sys \<Rightarrow> u16 \<Rightarrow> u16 \<Rightarrow> 'p pty_session \<Rightarrow> unit io \<times> 'p pty_session" where
  "pty_resize y cols rows = on_master (\<lambda>p. other_err (y_resize y (pty_size rows cols) p))"

definition pty_try_wait :: "'p pty_sys \<Rightarrow> 'p pty_session \<Rightarrow> u32 option io \<times> 'p pty_session" where
  "pty_try_wait y = on_master (\<lambda>p. other_err (y_try_wait y p))"

definition pty_wait :: "'p pty_sys \<Rightarrow> 'p pty_session \<Rightarrow> (u32 io \<times> 'p pty_session) option" where
  "pty_wait y s =
     map_option (\<lambda>r. case other_err r of (q, p) \<Rightarrow> (q, s\<lparr>pt_master := p\<rparr>)) (y_wait y (pt_master s))"

definition parse_size :: "bytes \<Rightarrow> (u16 \<times> u16) io" where
  "parse_size data =
     (if length data < 5 then Inl (IoError InvalidData (lit ''truncated size''))
      else Inr (u16_of_be [data ! 1, data ! 2], u16_of_be [data ! 3, data ! 4]))"

text \<open>
  The output thread: every read of the terminal becomes a frame; it stops at the end of the
  output, at a read error or at a write error. The results of the reads are given.
\<close>

fun pump_output :: "bytes io list \<Rightarrow> conn \<Rightarrow> conn" where
  "pump_output [] c = c"
| "pump_output (Inl e # rs) c = c"
| "pump_output (Inr d # rs) c =
     (if d = [] then c
      else (case write_frame d c of (Inl e, c) \<Rightarrow> c | (Inr _, c) \<Rightarrow> pump_output rs c))"

text \<open>The input loop; a frame is read before the child is looked at again.\<close>

function shell_loop :: "'p pty_sys \<Rightarrow> 'p pty_session \<Rightarrow> conn \<Rightarrow> unit io \<times> ('p pty_session \<times> conn)" where
  "shell_loop y p c =
     (case pty_try_wait y p of
        (Inl e, p) \<Rightarrow> (Inl e, (p, c))
      | (Inr exited, p) \<Rightarrow>
          if exited \<noteq> None then (Inr (), (p, c))
          else (case read_frame c of
              (Inl e, c') \<Rightarrow> (Inr (), (p, c'))
            | (Inr f, c') \<Rightarrow>
                if f = [] then (Inr (), (p, c'))
                else if f ! 0 = OP_RESIZE then
                  (case parse_size f of
                     Inl _ \<Rightarrow> shell_loop y p c'
                   | Inr (cols, rows) \<Rightarrow> shell_loop y (snd (pty_resize y cols rows p)) c')
                else
                  (case on_master (y_write y f) p of
                     (Inl e, p) \<Rightarrow> (Inl e, (p, c'))
                   | (Inr _, p) \<Rightarrow>
                       (case on_master (y_flush y) p of
                          (Inl e, p) \<Rightarrow> (Inl e, (p, c'))
                        | (Inr _, p) \<Rightarrow> shell_loop y p c'))))"
  by pat_completeness auto
termination
  by (relation "measure (\<lambda>(y, p, c). length (c_in c))") (auto dest: read_frame_shrinks [OF sym])

declare shell_loop.simps [simp del]

text \<open>
  On the normal path the handler joins the output thread, which ends only when the terminal is
  closed. An error of the child or of the terminal returns at once; the frames the detached
  thread still sends are counted as sent by then. The writer is taken after the thread has
  started.
\<close>

definition no_pty :: "string \<Rightarrow> io_error" where
  "no_pty half = IoError OtherKind (lit ''no pty '' @ lit half)"

definition handle_shell_open ::
    "bool \<Rightarrow> 'p pty_sys \<Rightarrow> bytes \<Rightarrow> host \<times> conn \<Rightarrow> (unit io \<times> (host \<times> conn)) option" where
  "handle_shell_open unix y data s =
     (case s of (h, c) \<Rightarrow>
       (case parse_size data of
          Inl e \<Rightarrow> Some (Inl e, (h, c))
        | Inr (cols, rows) \<Rightarrow>
            (case pty_new unix y cols rows h of
               Inl e \<Rightarrow> Some (Inl e, (h, c))
             | Inr p \<Rightarrow>
                 (case try_clone c of
                    Inl e \<Rightarrow> Some (Inl e, (h, c))
                  | Inr _ \<Rightarrow>
                      (case take_reader p of
                         (None, p) \<Rightarrow> Some (Inl (no_pty ''reader''), (h, c))
                       | (Some _, p) \<Rightarrow>
                           (case take_writer p of
                              (None, p) \<Rightarrow>
                                Some (Inl (no_pty ''writer''), (h, pump_output (y_output y (pt_master p)) c))
                            | (Some _, p) \<Rightarrow>
                                (case shell_loop y p c of
                                   (Inl e, (p, c)) \<Rightarrow>
                                     Some (Inl e, (h, pump_output (y_output y (pt_master p)) c))
                                 | (Inr _, (p, c)) \<Rightarrow>
                                     if y_closed y (pt_master p)
                                     then Some (Inr (), (h, pump_output (y_output y (pt_master p)) c))
                                     else None)))))))"

end
