(* ===== verification/Fs.thy ===== *)
theory Fs
  imports Frame
begin

text \<open>
  Remote directory listing and file download (\<^theory_text>\<open>crates/thru-fs/src/lib.rs\<close>), server and client.
  The file system is an argument: what \<^theory_text>\<open>read_dir\<close> and \<^theory_text>\<open>File::open\<close> answer, and for an open
  file its \<^theory_text>\<open>metadata\<close> length and the results of successive reads (short reads and errors
  included). A GET is a header frame, data frames of at most 1 MiB, and an empty frame.
\<close>

section \<open>Constants and wire format\<close>

definition OP_LS :: u8 where "OP_LS = 20"
definition OP_GET_fs :: u8 where "OP_GET_fs = 21"

definition ET_FILE :: u8 where "ET_FILE = 0"
definition ET_DIR :: u8 where "ET_DIR = 1"

definition CHUNK :: nat where "CHUNK = 1024 * 1024"

record fs_entry =
  fe_name :: rstr
  fe_is_dir :: bool

definition req_fs :: "u8 \<Rightarrow> bytes \<Rightarrow> bytes" where
  "req_fs op path = push_u16 [op] (of_nat (length path)) @ path"

definition parse_path :: "bytes \<Rightarrow> rstr io" where
  "parse_path data =
     (if length data < 3 then Inl (IoError InvalidData (lit ''truncated request''))
      else
        let klen = unat (u16_of_be [data ! 1, data ! 2])
        in if length data < 3 + klen then Inl (IoError InvalidData (lit ''truncated path''))
           else (case from_utf8 (take klen (drop 3 data)) of
               None \<Rightarrow> Inl (IoError InvalidData (lit ''invalid path encoding''))
             | Some s \<Rightarrow> Inr s))"

definition resp_err :: "rstr \<Rightarrow> bytes" where
  "resp_err msg = ST_ERR # msg"

section \<open>The file system the server sees\<close>

record dirent =
  de_name :: bytes
  de_is_dir :: "bool io"

record open_file =
  f_len :: "u64 io"
  f_reads :: "bytes io list"

record fsys =
  fs_read_dir :: "rstr \<Rightarrow> (dirent io list) io"
  fs_open :: "rstr \<Rightarrow> open_file io"

text \<open>
  \<^theory_text>\<open>Read::read\<close> into a buffer of \<open>n\<close> bytes: the next result, cut to the buffer; after the last
  one, end of file (zero bytes).
\<close>

definition file_read :: "nat \<Rightarrow> open_file \<Rightarrow> bytes io \<times> open_file" where
  "file_read n f =
     (case f_reads f of
        [] \<Rightarrow> (Inr [], f)
      | Inl e # rs \<Rightarrow> (Inl e, f\<lparr>f_reads := rs\<rparr>)
      | Inr d # rs \<Rightarrow>
          if length d \<le> n then (Inr d, f\<lparr>f_reads := rs\<rparr>)
          else (Inr (take n d), f\<lparr>f_reads := Inr (drop n d) # rs\<rparr>))"

definition reads_left :: "open_file \<Rightarrow> nat" where
  "reads_left f = (\<Sum>r \<leftarrow> f_reads f. case r of Inl _ \<Rightarrow> 1 | Inr d \<Rightarrow> Suc (length d))"

lemma file_read_progress:
  "file_read n f = (Inr d, f') \<Longrightarrow> d \<noteq> [] \<Longrightarrow> reads_left f' < reads_left f"
  by (auto simp: file_read_def reads_left_def split: list.splits sum.splits if_splits)

lemma file_read_bound: "file_read n f = (Inr d, f') \<Longrightarrow> length d \<le> n"
  by (auto simp: file_read_def split: list.splits sum.splits if_splits)

section \<open>Server handlers\<close>

definition ls_entry :: "dirent \<Rightarrow> bytes" where
  "ls_entry e =
     push_str [if (case de_is_dir e of Inl _ \<Rightarrow> False | Inr b \<Rightarrow> b) then ET_DIR else ET_FILE]
       (lossy (de_name e))"

text \<open>\<^theory_text>\<open>flatten\<close> drops the entries that could not be read.\<close>

definition flatten_ok :: "'a io list \<Rightarrow> 'a list" where
  "flatten_ok rs = concat (map (\<lambda>r. case r of Inl _ \<Rightarrow> [] | Inr x \<Rightarrow> [x]) rs)"

definition handle_ls :: "fsys \<Rightarrow> rstr \<Rightarrow> conn \<Rightarrow> unit io \<times> conn" where
  "handle_ls fs path c =
     (let p = (if path = [] then lit ''.'' else path)
      in case fs_read_dir fs p of
           Inl e \<Rightarrow>
             if err_kind e = NotFound then write_frame [ST_NOT_FOUND] c
             else write_frame (resp_err (err_msg e)) c
         | Inr entries \<Rightarrow>
             write_frame (ST_OK # concat (map ls_entry (flatten_ok entries))) c)"

function get_loop :: "open_file \<Rightarrow> conn \<Rightarrow> unit io \<times> conn" where
  "get_loop f c =
     (case file_read CHUNK f of
        (Inl e, f') \<Rightarrow> (Inl e, c)
      | (Inr d, f') \<Rightarrow>
          if d = [] then (Inr (), c)
          else (case write_frame d c of
              (Inl e, c') \<Rightarrow> (Inl e, c')
            | (Inr _, c') \<Rightarrow> get_loop f' c'))"
  by pat_completeness auto
termination
  by (relation "measure (reads_left \<circ> fst)") (auto dest: file_read_progress [OF sym])

declare get_loop.simps [simp del]

definition handle_get :: "fsys \<Rightarrow> rstr \<Rightarrow> conn \<Rightarrow> unit io \<times> conn" where
  "handle_get fs path c =
     (case fs_open fs path of
        Inl e \<Rightarrow>
          if err_kind e = NotFound then write_frame [ST_NOT_FOUND] c
          else write_frame (resp_err (err_msg e)) c
      | Inr f \<Rightarrow>
          (case f_len f of
             Inl e \<Rightarrow> (Inl e, c)
           | Inr sz \<Rightarrow>
               try_io (write_frame (push_u64 [ST_OK] sz) c) (\<lambda>_ c.
                 try_io (get_loop f c) (\<lambda>_ c. write_frame [] c))))"

definition fs_handle :: "fsys \<Rightarrow> bytes \<Rightarrow> conn \<Rightarrow> unit io \<times> conn" where
  "fs_handle fs data c =
     (if data = [] then write_frame (resp_err (lit ''empty request'')) c
      else (case parse_path data of
          Inl e \<Rightarrow> (Inl e, c)
        | Inr path \<Rightarrow>
            if data ! 0 = OP_LS then handle_ls fs path c
            else if data ! 0 = OP_GET_fs then handle_get fs path c
            else write_frame (resp_err (lit ''unknown fs operation'')) c))"

section \<open>Client helpers\<close>

definition call_on_conn_fs :: "bytes \<Rightarrow> conn \<Rightarrow> bytes io \<times> conn" where
  "call_on_conn_fs request c = try_io (write_frame request c) (\<lambda>_ c. read_frame c)"

definition call_fs :: "transport \<Rightarrow> rstr \<Rightarrow> bytes \<Rightarrow> (conn \<times> bytes) io" where
  "call_fs t addr request =
     (case connect t addr of
        Inl e \<Rightarrow> Inl e
      | Inr c \<Rightarrow>
          (case call_on_conn_fs request c of
             (Inl e, _) \<Rightarrow> Inl e
           | (Inr first, c') \<Rightarrow> Inr (c', first)))"

definition check_status :: "bytes \<Rightarrow> unit io" where
  "check_status first =
     (case first of
        [] \<Rightarrow> Inl (IoError InvalidData (lit ''empty response''))
      | s # msg \<Rightarrow>
          if s = ST_OK then Inr ()
          else if s = ST_NOT_FOUND then Inl (IoError NotFound (lit ''remote path not found''))
          else Inl (IoError OtherKind (lossy msg)))"

definition parse_size_header :: "bytes \<Rightarrow> u64 io" where
  "parse_size_header fr =
     (if length fr < 9 then Inl (IoError InvalidData (lit ''truncated size header''))
      else Inr (u64_of_be (take 8 (drop 1 fr))))"

text \<open>One round of the listing loop; \<open>None\<close> leaves it.\<close>

definition dec_ls_entry :: "bytes \<Rightarrow> (fs_entry \<times> bytes) option" where
  "dec_ls_entry p =
     (if length p < 3 then None
      else (let et = p ! 0; nlen = unat (u16_of_be [p ! 1, p ! 2]); p = drop 3 p
            in if length p < nlen then None
               else Some (\<lparr>fe_name = lossy (take nlen p), fe_is_dir = (et = ET_DIR)\<rparr>, drop nlen p)))"

lemma dec_ls_entry_shorter: "dec_ls_entry p = Some (x, rest) \<Longrightarrow> length rest < length p"
  by (auto simp: dec_ls_entry_def Let_def split: if_splits)

function parse_ls :: "bytes \<Rightarrow> fs_entry list" where
  "parse_ls p = (case dec_ls_entry p of None \<Rightarrow> [] | Some (x, rest) \<Rightarrow> x # parse_ls rest)"
  by pat_completeness auto
termination
  by (relation "measure length") (auto dest: dec_ls_entry_shorter)

declare parse_ls.simps [simp del]

definition ls_on_conn :: "rstr \<Rightarrow> conn \<Rightarrow> (fs_entry list) io \<times> conn" where
  "ls_on_conn path c =
     try_io (call_on_conn_fs (req_fs OP_LS path) c) (\<lambda>first c.
       try_io (check_status first, c) (\<lambda>_ c. (Inr (parse_ls (drop 1 first)), c)))"

text \<open>
  The download loop: \<open>wr\<close> is the caller's \<^theory_text>\<open>Write::write_all\<close>. Every frame read shortens the
  input, so the loop ends.
\<close>

function recv_loop ::
    "(bytes \<Rightarrow> 'w \<Rightarrow> unit io \<times> 'w) \<Rightarrow> conn \<Rightarrow> 'w \<Rightarrow> unit io \<times> (conn \<times> 'w)" where
  "recv_loop wr c w =
     (case read_frame c of
        (Inl e, c') \<Rightarrow> (Inl e, (c', w))
      | (Inr chunk, c') \<Rightarrow>
          if chunk = [] then (Inr (), (c', w))
          else (case wr chunk w of
              (Inl e, w') \<Rightarrow> (Inl e, (c', w'))
            | (Inr _, w') \<Rightarrow> recv_loop wr c' w'))"
  by pat_completeness auto
termination
  by (relation "measure (\<lambda>(wr, c, w). length (c_in c))") (auto dest: read_frame_shrinks [OF sym])

declare recv_loop.simps [simp del]

definition get_on_conn_fs ::
    "(bytes \<Rightarrow> 'w \<Rightarrow> unit io \<times> 'w) \<Rightarrow> rstr \<Rightarrow> conn \<Rightarrow> 'w \<Rightarrow> u64 io \<times> (conn \<times> 'w)" where
  "get_on_conn_fs wr remote c w =
     (case call_on_conn_fs (req_fs OP_GET_fs remote) c of
        (Inl e, c) \<Rightarrow> (Inl e, (c, w))
      | (Inr first, c) \<Rightarrow>
          (case check_status first of
             Inl e \<Rightarrow> (Inl e, (c, w))
           | Inr _ \<Rightarrow>
               (case parse_size_header first of
                  Inl e \<Rightarrow> (Inl e, (c, w))
                | Inr sz \<Rightarrow>
                    try_io (recv_loop wr c w) (\<lambda>_ s. (Inr sz, s)))))"

definition client_ls :: "transport \<Rightarrow> rstr \<Rightarrow> rstr \<Rightarrow> (fs_entry list) io" where
  "client_ls t addr path =
     (case connect t addr of Inl e \<Rightarrow> Inl e | Inr c \<Rightarrow> fst (ls_on_conn path c))"

text \<open>The loop of \<^theory_text>\<open>client_get_progress\<close>; \<open>on_chunk\<close> is the callback, \<open>cb\<close> its state.\<close>

function progress_loop ::
    "(bytes \<Rightarrow> 'w \<Rightarrow> unit io \<times> 'w) \<Rightarrow> (u64 \<Rightarrow> u64 \<Rightarrow> 'f \<Rightarrow> 'f) \<Rightarrow> u64 \<Rightarrow> u64 \<Rightarrow> conn \<Rightarrow> 'w \<Rightarrow> 'f \<Rightarrow>
       unit io \<times> (conn \<times> 'w \<times> 'f)" where
  "progress_loop wr on_chunk sz received c w cb =
     (case read_frame c of
        (Inl e, c') \<Rightarrow> (Inl e, (c', w, cb))
      | (Inr chunk, c') \<Rightarrow>
          if chunk = [] then (Inr (), (c', w, cb))
          else (case wr chunk w of
              (Inl e, w') \<Rightarrow> (Inl e, (c', w', cb))
            | (Inr _, w') \<Rightarrow>
                (let received = received + of_nat (length chunk)
                 in progress_loop wr on_chunk sz received c' w' (on_chunk received sz cb))))"
  by pat_completeness auto
termination
  by (relation "measure (\<lambda>(wr, oc, s, r, c, w, cb). length (c_in c))")
    (auto dest: read_frame_shrinks [OF sym])

declare progress_loop.simps [simp del]

definition client_get_progress ::
    "transport \<Rightarrow> rstr \<Rightarrow> rstr \<Rightarrow> (bytes \<Rightarrow> 'w \<Rightarrow> unit io \<times> 'w) \<Rightarrow> (u64 \<Rightarrow> u64 \<Rightarrow> 'f \<Rightarrow> 'f) \<Rightarrow> 'w \<Rightarrow> 'f \<Rightarrow>
       u64 io \<times> 'w \<times> 'f" where
  "client_get_progress t addr remote wr on_chunk w cb =
     (case call_fs t addr (req_fs OP_GET_fs remote) of
        Inl e \<Rightarrow> (Inl e, w, cb)
      | Inr (c, first) \<Rightarrow>
          (case check_status first of
             Inl e \<Rightarrow> (Inl e, w, cb)
           | Inr _ \<Rightarrow>
               (case parse_size_header first of
                  Inl e \<Rightarrow> (Inl e, w, cb)
                | Inr sz \<Rightarrow>
                    (case progress_loop wr on_chunk sz 0 c w cb of
                       (Inl e, (_, w', cb')) \<Rightarrow> (Inl e, w', cb')
                     | (Inr _, (_, w', cb')) \<Rightarrow> (Inr sz, w', cb')))))"

definition client_get_fs ::
    "transport \<Rightarrow> rstr \<Rightarrow> rstr \<Rightarrow> (bytes \<Rightarrow> 'w \<Rightarrow> unit io \<times> 'w) \<Rightarrow> 'w \<Rightarrow> u64 io \<times> 'w" where
  "client_get_fs t addr remote wr w =
     (case client_get_progress t addr remote wr (\<lambda>_ _ u. u) w () of (r, w', _) \<Rightarrow> (r, w'))"

end
