(* ===== verification/Tcp.thy ===== *)
theory Tcp
  imports Frame
begin

text \<open>
  The TCP implementation of the transport traits (\<^theory_text>\<open>crates/thru-proto-tcp/src/lib.rs\<close>) below the
  endpoints of \<open>Conn\<close>. A socket delivers what the peer sends in segments of any size and takes
  any number of the bytes of a write; \<^theory_text>\<open>read_exact\<close> and \<^theory_text>\<open>write_all\<close> are the standard library's
  loops over single reads and writes. \<open>sock_conn\<close> forgets the segmentation, and every operation
  of the socket refines the one of the endpoint: what is proved above over \<open>conn\<close> holds however
  the network cuts the stream. \<open>net\<close> is what the operating system answers. A system call
  interrupted by a signal, which the library's loops repeat, is not an event of the model.
\<close>

section \<open>Sockets\<close>

text \<open>
  \<open>s_segs\<close>: the segments that will arrive, none empty; \<open>s_fin\<close>: the error after them, or an
  orderly end; \<open>s_takes\<close>: how many bytes beyond the first the kernel takes at each write.
\<close>

record sock =
  s_segs :: "(u8 \<times> bytes) list"
  s_fin :: "io_error option"
  s_out :: bytes
  s_takes :: "nat list"
  s_cap :: "nat option"
  s_werr :: io_error
  s_timeout :: "nat option"
  s_dup :: "io_error option"
  s_peer :: "rstr io"

definition s_input :: "sock \<Rightarrow> bytes" where
  "s_input s = concat (map (\<lambda>(b, bs). b # bs) (s_segs s))"

definition push_seg :: "bytes \<Rightarrow> (u8 \<times> bytes) list \<Rightarrow> (u8 \<times> bytes) list" where
  "push_seg d segs = (case d of [] \<Rightarrow> segs | b # bs \<Rightarrow> (b, bs) # segs)"

text \<open>One \<^theory_text>\<open>read\<close>: at most one segment, and no bytes at the end of the stream.\<close>

definition tcp_read :: "nat \<Rightarrow> sock \<Rightarrow> bytes io \<times> sock" where
  "tcp_read n s =
     (if n = 0 then (Inr [], s)
      else (case s_segs s of
          [] \<Rightarrow> (case s_fin s of None \<Rightarrow> (Inr [], s) | Some e \<Rightarrow> (Inl e, s))
        | (b, bs) # segs \<Rightarrow>
            (Inr (take n (b # bs)), s\<lparr>s_segs := push_seg (drop n (b # bs)) segs\<rparr>)))"

text \<open>One \<^theory_text>\<open>write\<close>: how many bytes were taken, never none of a non-empty buffer.\<close>

definition tcp_write :: "bytes \<Rightarrow> sock \<Rightarrow> nat io \<times> sock" where
  "tcp_write d s =
     (let n = (case s_takes s of [] \<Rightarrow> length d | k # _ \<Rightarrow> min (Suc k) (length d));
          m = (case s_cap s of None \<Rightarrow> n | Some c \<Rightarrow> min n c)
      in if m = 0 \<and> d \<noteq> [] then (Inl (s_werr s), s)
         else (Inr m, s\<lparr>s_out := s_out s @ take m d, s_takes := tl (s_takes s),
                        s_cap := map_option (\<lambda>c. c - m) (s_cap s)\<rparr>))"

definition tcp_flush :: "sock \<Rightarrow> unit io \<times> sock" where
  "tcp_flush s = (Inr (), s)"

definition tcp_try_clone :: "sock \<Rightarrow> sock io" where
  "tcp_try_clone s = (case s_dup s of Some e \<Rightarrow> Inl e | None \<Rightarrow> Inr s)"

definition tcp_shutdown_write :: "sock \<Rightarrow> unit io \<times> sock" where
  "tcp_shutdown_write s = (Inr (), s\<lparr>s_cap := Some 0\<rparr>)"

definition tcp_set_read_timeout :: "nat option \<Rightarrow> sock \<Rightarrow> unit io \<times> sock" where
  "tcp_set_read_timeout t s =
     (if t = Some 0 then
        (Inl (IoError InvalidInput (lit ''cannot set a 0 duration timeout'')), s)
      else (Inr (), s\<lparr>s_timeout := t\<rparr>))"

definition tcp_peer_addr :: "sock \<Rightarrow> rstr io" where
  "tcp_peer_addr s = s_peer s"

section \<open>The standard library's loops\<close>

definition fill_error :: io_error where
  "fill_error = IoError UnexpectedEof (lit ''failed to fill whole buffer'')"

definition write_zero :: io_error where
  "write_zero = IoError WriteZero (lit ''failed to write whole buffer'')"

function tcp_read_exact :: "nat \<Rightarrow> sock \<Rightarrow> bytes io \<times> sock" where
  "tcp_read_exact n s =
     (if n = 0 then (Inr [], s)
      else (case tcp_read n s of
          (Inl e, s) \<Rightarrow> (Inl e, s)
        | (Inr d, s) \<Rightarrow>
            if d = [] then (Inl fill_error, s)
            else try_io (tcp_read_exact (n - length d) s) (\<lambda>d' s. (Inr (d @ d'), s))))"
  by pat_completeness auto
termination
  by (relation "measure fst") auto

function tcp_write_all :: "bytes \<Rightarrow> sock \<Rightarrow> unit io \<times> sock" where
  "tcp_write_all d s =
     (if d = [] then (Inr (), s)
      else (case tcp_write d s of
          (Inl e, s) \<Rightarrow> (Inl e, s)
        | (Inr m, s) \<Rightarrow> if m = 0 then (Inl write_zero, s) else tcp_write_all (drop m d) s))"
  by pat_completeness auto
termination
  by (relation "measure (length \<circ> fst)") auto

declare tcp_read_exact.simps [simp del] tcp_write_all.simps [simp del]

section \<open>Listening and dialling\<close>

record net =
  n_bind :: "rstr \<Rightarrow> (sock \<times> rstr) io list io"
  n_connect :: "rstr \<Rightarrow> sock io"

text \<open>The listener; an accepted socket comes with an address that is dropped.\<close>

record tcp_listener =
  tl_queue :: "(sock \<times> rstr) io list"

definition tcp_accept :: "tcp_listener \<Rightarrow> (sock io \<times> tcp_listener) option" where
  "tcp_accept l =
     (case tl_queue l of
        [] \<Rightarrow> None
      | Inl e # rs \<Rightarrow> Some (Inl e, l\<lparr>tl_queue := rs\<rparr>)
      | Inr (s, _) # rs \<Rightarrow> Some (Inr s, l\<lparr>tl_queue := rs\<rparr>))"

definition tcp_bind :: "net \<Rightarrow> rstr \<Rightarrow> tcp_listener io" where
  "tcp_bind net addr = (case n_bind net addr of Inl e \<Rightarrow> Inl e | Inr q \<Rightarrow> Inr \<lparr>tl_queue = q\<rparr>)"

definition tcp_connect :: "net \<Rightarrow> rstr \<Rightarrow> sock io" where
  "tcp_connect net addr = n_connect net addr"

section \<open>Sockets as endpoints\<close>

definition sock_conn :: "sock \<Rightarrow> conn" where
  "sock_conn s =
     \<lparr>c_in = s_input s, c_end = (case s_fin s of None \<Rightarrow> fill_error | Some e \<Rightarrow> e),
      c_out = s_out s, c_cap = s_cap s, c_werr = s_werr s, c_timeout = s_timeout s,
      c_clone = s_dup s, c_peer = s_peer s\<rparr>"

text \<open>What the listener will deliver, call by call.\<close>

function accepts_of :: "tcp_listener \<Rightarrow> conn io list" where
  "accepts_of l =
     (case tcp_accept l of None \<Rightarrow> [] | Some (r, l) \<Rightarrow> map_sum id sock_conn r # accepts_of l)"
  by pat_completeness auto
termination
  by (relation "measure (length \<circ> tl_queue)")
    (auto simp: tcp_accept_def split: list.splits sum.splits prod.splits)

declare accepts_of.simps [simp del]

text \<open>\<^theory_text>\<open>Tcp\<close> as a \<^theory_text>\<open>Transport\<close>.\<close>

definition tcp_transport :: "net \<Rightarrow> transport" where
  "tcp_transport net =
     \<lparr>t_connect = (\<lambda>addr. map_sum id sock_conn (tcp_connect net addr)),
      t_bind = (\<lambda>addr. map_sum id accepts_of (tcp_bind net addr))\<rparr>"

lemma tcp_read_input:
  "tcp_read n s = (r, s') \<Longrightarrow>
     (case r of
        Inl e \<Rightarrow> n \<noteq> 0 \<and> s_input s = [] \<and> s' = s \<and> s_fin s = Some e
      | Inr d \<Rightarrow> s_input s = d @ s_input s' \<and> length d \<le> n \<and> (d = [] \<longrightarrow> n = 0 \<or> s_input s = [] \<and> s_fin s = None) \<and>
          sock_conn s' = (sock_conn s)\<lparr>c_in := s_input s'\<rparr>)"
proof -
  assume "tcp_read n s = (r, s')"
  moreover have "(b # bs) @ x = take n (b # bs) @ concat (map (\<lambda>(b, bs). b # bs) (push_seg (drop n (b # bs)) segs))"
    if "x = concat (map (\<lambda>(b, bs). b # bs) segs)" for b :: u8 and bs x segs
  proof -
    have "concat (map (\<lambda>(b, bs). b # bs) (push_seg d segs)) = d @ x" for d
      using that by (simp add: push_seg_def split: list.split)
    then show ?thesis by (simp only: append_assoc [symmetric] append_take_drop_id)
  qed
  ultimately show ?thesis
    by (auto simp: tcp_read_def s_input_def sock_conn_def split: if_splits list.splits option.splits)
qed

end
