(* ===== verification/Process.thy ===== *)
theory Process
  imports Auth Exec Fs Tcp
begin

text \<open>
  What the commands share (\<^theory_text>\<open>src/server.rs\<close>, top part): the default port, the pid files, starting
  the background process and killing it. \<open>system\<close> collects what the program gets from outside:
  the digest, the transport, the file system, command execution, terminals, and whether a
  process can be started or the kill command run.
\<close>

definition PORT :: nat where "PORT = 61696"

record 'p system =
  sy_sha :: hash
  sy_net :: net
  sy_fs :: fsys
  sy_exec :: exec_env
  sy_pty :: "'p pty_sys"
  sy_spawn :: "host \<Rightarrow> nat io"
  sy_kill :: "nat \<Rightarrow> bool"

text \<open>
  \<^theory_text>\<open>Tcp\<close> of this machine, and the server's choice of a transport by name; \<open>None\<close> is its panic for
  a name it does not know.
\<close>

definition sy_transport :: "'p system \<Rightarrow> transport" where
  "sy_transport sys = tcp_transport (sy_net sys)"

definition transport_named :: "'p system \<Rightarrow> rstr \<Rightarrow> transport option" where
  "transport_named sys p = (if p = lit ''tcp'' then Some (sy_transport sys) else None)"

definition pid_file :: "host \<Rightarrow> rstr" where
  "pid_file h = path_join (h_tmp h) (lit ''thru_server.pid'')"

definition reverse_pid_file :: "host \<Rightarrow> rstr" where
  "reverse_pid_file h = path_join (h_tmp h) (lit ''thru_reverse.pid'')"

text \<open>
  The log file is created or opened for appending before the process is started; the start is
  recorded with the arguments, the environment variable and the log file.
\<close>

definition open_append :: "rstr \<Rightarrow> host \<Rightarrow> unit io \<times> host" where
  "open_append p h =
     (case h_write_err h p of
        Some e \<Rightarrow> (Inl e, h)
      | None \<Rightarrow>
          (Inr (), h\<lparr>h_files := (h_files h)(p := Some (case h_files h p of Some b \<Rightarrow> b | None \<Rightarrow> []))\<rparr>))"

definition spawn_daemon ::
    "'p system \<Rightarrow> rstr list \<Rightarrow> rstr \<Rightarrow> rstr \<Rightarrow> rstr option \<Rightarrow> host \<Rightarrow> nat io \<times> host" where
  "spawn_daemon sys args env_key env_val log_file h =
     try_io (case log_file of Some p \<Rightarrow> open_append p h | None \<Rightarrow> (Inr (), h)) (\<lambda>_ h.
       (case sy_spawn sys h of
          Inl e \<Rightarrow> (Inl e, h)
        | Inr pid \<Rightarrow> (Inr pid, h\<lparr>h_spawned := h_spawned h @ [(args, env_key, env_val, log_file)]\<rparr>)))"

text \<open>
  The result says whether the kill command could be run at all; its exit status is not looked at.
\<close>

definition force_kill :: "'p system \<Rightarrow> nat \<Rightarrow> host \<Rightarrow> bool \<times> host" where
  "force_kill sys pid h =
     (if sy_kill sys pid then (True, h\<lparr>h_killed := h_killed h @ [pid]\<rparr>) else (False, h))"

text \<open>The pid in a file, if it can be read and is a number.\<close>

definition read_pid :: "rstr \<Rightarrow> host \<Rightarrow> nat option" where
  "read_pid p h = (case read_to_string p h of Inl _ \<Rightarrow> None | Inr s \<Rightarrow> parse_u32 (trim s))"

end
