(* ===== verification/Fs_Spec.thy ===== *)
theory Fs_Spec
  imports Fs
begin

text \<open>
  Correctness of listing and download: what the client gets when its input is what the server
  wrote for its request. \<open>read_data\<close> is the content of an open file, independent of how the
  operating system cuts it into reads; \<open>file_chunks\<close> are the data frames the server makes of it.
\<close>

section \<open>What an open file delivers\<close>

fun read_data :: "bytes io list \<Rightarrow> bytes \<times> io_error option" where
  "read_data [] = ([], None)"
| "read_data (Inl e # rs) = ([], Some e)"
| "read_data (Inr d # rs) =
     (if d = [] then ([], None)
      else (d @ fst (read_data rs), snd (read_data rs)))"

function file_chunks :: "open_file \<Rightarrow> bytes list \<times> io_error option" where
  "file_chunks f =
     (case file_read CHUNK f of
        (Inl e, f') \<Rightarrow> ([], Some e)
      | (Inr d, f') \<Rightarrow>
          if d = [] then ([], None)
          else (d # fst (file_chunks f'), snd (file_chunks f')))"
  by pat_completeness auto
termination
  by (relation "measure reads_left") (auto dest: file_read_progress [OF sym])

declare file_chunks.simps [simp del]

lemma file_read_data:
  "file_read CHUNK f = (Inr d, f') \<Longrightarrow> d \<noteq> [] \<Longrightarrow>
     read_data (f_reads f) = (d @ fst (read_data (f_reads f')), snd (read_data (f_reads f')))"
  by (auto simp: file_read_def CHUNK_def split: list.splits sum.splits if_splits)

lemma file_read_stop:
  "file_read CHUNK f = (Inr [], f') \<Longrightarrow> read_data (f_reads f) = ([], None)"
  by (auto simp: file_read_def CHUNK_def split: list.splits sum.splits if_splits)

lemma file_read_error:
  "file_read CHUNK f = (Inl e, f') \<Longrightarrow> read_data (f_reads f) = ([], Some e)"
  by (auto simp: file_read_def split: list.splits sum.splits if_splits)

text \<open>The frames carry exactly the content, in non-empty pieces of at most 1 MiB.\<close>

lemma file_chunks_data:
  "concat (fst (file_chunks f)) = fst (read_data (f_reads f)) \<and>
   snd (file_chunks f) = snd (read_data (f_reads f)) \<and>
   (\<forall>d \<in> set (fst (file_chunks f)). d \<noteq> [] \<and> length d \<le> CHUNK)"
proof (induction f rule: file_chunks.induct)
  case (1 f)
  obtain r f' where r: "file_read CHUNK f = (r, f')" by (cases "file_read CHUNK f")
  show ?case
  proof (cases r)
    case (Inl e)
    with r show ?thesis by (simp add: file_chunks.simps [of f] file_read_error)
  next
    case (Inr d)
    show ?thesis
    proof (cases "d = []")
      case True
      with r Inr show ?thesis by (simp add: file_chunks.simps [of f] file_read_stop)
    next
      case False
      with r Inr have rf: "file_read CHUNK f = (Inr d, f')" by simp
      have "length d \<le> CHUNK" using rf by (rule file_read_bound)
      with 1 [OF r [symmetric] Inr False] False rf show ?thesis
        by (simp add: file_chunks.simps [of f] file_read_data [OF rf False])
    qed
  qed
qed

lemma chunk_frame_ok: "length d \<le> CHUNK \<Longrightarrow> frame_ok d"
  by (simp add: frame_ok_def MAX_FRAME_def CHUNK_def)

lemma conn_put_put [simp]: "conn_put b (conn_put a c) = conn_put (a @ b) c"
  by (rule tcp.put_put)

lemma get_loop_chunks:
  "c_cap c = None \<Longrightarrow>
     get_loop f c =
       ((case snd (file_chunks f) of None \<Rightarrow> Inr () | Some e \<Rightarrow> Inl e),
        conn_put (concat (map frame (fst (file_chunks f)))) c)"
proof (induction f c rule: get_loop.induct)
  case (1 f c)
  obtain r f' where r: "file_read CHUNK f = (r, f')" by (cases "file_read CHUNK f")
  show ?case
  proof (cases r)
    case (Inl e)
    with r show ?thesis by (simp add: get_loop.simps [of f] file_chunks.simps [of f])
  next
    case (Inr d)
    show ?thesis
    proof (cases "d = []")
      case True
      with r Inr show ?thesis by (simp add: get_loop.simps [of f] file_chunks.simps [of f])
    next
      case False
      have "frame_ok d" using file_read_bound [of CHUNK f d f'] r Inr by (simp add: chunk_frame_ok)
      then have w: "write_frame d c = (Inr (), conn_put (frame d) c)"
        using 1(2) by (simp add: write_frame_unlimited)
      from 1(1) [OF r [symmetric] Inr False w [symmetric]] 1(2) r Inr False w show ?thesis
        by (simp add: get_loop.simps [of f c] file_chunks.simps [of f])
    qed
  qed
qed

section \<open>The client's loops\<close>

text \<open>\<^theory_text>\<open>Write for Vec<u8>\<close>: appends and never fails.\<close>

definition vec_write :: "bytes \<Rightarrow> bytes \<Rightarrow> unit io \<times> bytes" where
  "vec_write d w = (Inr (), w @ d)"

lemma recv_loop_step:
  "d \<noteq> [] \<Longrightarrow> frame_ok d \<Longrightarrow>
     recv_loop vec_write (c\<lparr>c_in := frame d @ tail\<rparr>) w = recv_loop vec_write (c\<lparr>c_in := tail\<rparr>) (w @ d)"
  using read_frame_conn [of d tail c] by (subst recv_loop.simps) (simp add: vec_write_def)

lemma recv_loop_chunks:
  "\<forall>d \<in> set ds. d \<noteq> [] \<and> frame_ok d \<Longrightarrow>
     recv_loop vec_write (c\<lparr>c_in := concat (map frame ds) @ tail\<rparr>) w =
       recv_loop vec_write (c\<lparr>c_in := tail\<rparr>) (w @ concat ds)"
  by (induction ds arbitrary: w) (simp_all add: recv_loop_step)

lemma recv_loop_end:
  "recv_loop wr (c\<lparr>c_in := frame [] @ tail\<rparr>) w = (Inr (), (c\<lparr>c_in := tail\<rparr>, w))"
  using read_frame_conn [of "[]" tail c] by (subst recv_loop.simps) simp

section \<open>Requests and headers\<close>

lemma parse_path_req:
  assumes "str_ok path"
  shows "parse_path (req_fs op path) = Inr path" and "req_fs op path ! 0 = op"
    and "req_fs op path \<noteq> []"
proof -
  let ?n = "of_nat (length path) :: u16" and ?data = "req_fs op path"
  have data: "?data = op # u16_to_be ?n @ path" by (simp add: req_fs_def push_append)
  have "unat (u16_of_be [?data ! 1, ?data ! 2]) = length path"
    unfolding data tag16_field using assms by (simp add: unat_u16 str_ok_def)
  moreover have "drop 3 ?data = path" unfolding data by (rule tag16_rest)
  ultimately show "parse_path ?data = Inr path"
    using assms by (simp add: parse_path_def Let_def str_ok_def from_utf8_def data)
  show "?data ! 0 = op" and "?data \<noteq> []" by (simp_all add: data)
qed

lemma frame_ok_req_fs: "length path < 65536 \<Longrightarrow> frame_ok (req_fs op path)"
  by (simp add: frame_ok_def MAX_FRAME_def req_fs_def push_append)

lemma header_parse: "parse_size_header (push_u64 [ST_OK] sz) = Inr sz"
  by (simp add: parse_size_header_def push_append)

lemma header_status: "check_status (push_u64 [ST_OK] sz) = Inr ()"
  by (simp add: check_status_def push_append)

lemma header_frame_ok: "frame_ok (push_u64 [ST_OK] sz)"
  by (simp add: frame_ok_def MAX_FRAME_def push_append)

lemma call_on_conn_fs_reply:
  "frame_ok request \<Longrightarrow> frame_ok reply \<Longrightarrow> c_cap c = None \<Longrightarrow>
     call_on_conn_fs request (c\<lparr>c_in := frame reply @ rest\<rparr>) =
       (Inr reply, conn_put (frame request) (c\<lparr>c_in := rest\<rparr>))"
  using read_frame_conn [of reply rest "conn_put (frame request) c"]
  by (simp add: call_on_conn_fs_def write_frame_unlimited)

text \<open>The server's output for a GET of an open file.\<close>

lemma fs_handle_get_open:
  assumes "str_ok path" and "fs_open fs path = Inr f" and "f_len f = Inr sz" and "c_cap c = None"
  shows "fs_handle fs (req_fs OP_GET_fs path) c =
    (case snd (file_chunks f) of
       None \<Rightarrow> (Inr (), conn_put (frame (push_u64 [ST_OK] sz) @
                concat (map frame (fst (file_chunks f))) @ frame []) c)
     | Some e \<Rightarrow> (Inl e, conn_put (frame (push_u64 [ST_OK] sz) @
                concat (map frame (fst (file_chunks f)))) c))"
  using assms
  by (simp add: fs_handle_def parse_path_req handle_get_def OP_LS_def OP_GET_fs_def
      write_frame_unlimited header_frame_ok get_loop_chunks split: option.split)

text \<open>The client's side of it, up to the terminator.\<close>

lemma get_on_conn_chunks:
  assumes "length path < 65536" and "c_cap c = None" and "\<forall>d \<in> set ds. d \<noteq> [] \<and> frame_ok d"
  shows "get_on_conn_fs vec_write path
      (c\<lparr>c_in := frame (push_u64 [ST_OK] sz) @ concat (map frame ds) @ frame [] @ rest\<rparr>) w =
    (Inr sz, (conn_put (frame (req_fs OP_GET_fs path)) (c\<lparr>c_in := rest\<rparr>), w @ concat ds))"
proof -
  let ?q = "frame (req_fs OP_GET_fs path)" and ?in = "concat (map frame ds) @ frame [] @ rest"
  have "recv_loop vec_write (conn_put ?q c\<lparr>c_in := ?in\<rparr>) w =
      (Inr (), (conn_put ?q c\<lparr>c_in := rest\<rparr>, w @ concat ds))"
    using recv_loop_chunks [OF assms(3), where c = "conn_put ?q c"]
      recv_loop_end [where c = "conn_put ?q c"] by simp
  then show ?thesis
    using call_on_conn_fs_reply [OF frame_ok_req_fs [OF assms(1)] header_frame_ok assms(2)]
    by (simp add: get_on_conn_fs_def header_status header_parse)
qed

section \<open>Listings\<close>

definition ls_item :: "dirent \<Rightarrow> fs_entry" where
  "ls_item e = \<lparr>fe_name = lossy (de_name e),
     fe_is_dir = (case de_is_dir e of Inl _ \<Rightarrow> False | Inr b \<Rightarrow> b)\<rparr>"

definition item_bytes :: "fs_entry \<Rightarrow> bytes" where
  "item_bytes i = push_str [if fe_is_dir i then ET_DIR else ET_FILE] (fe_name i)"

lemma ls_entry_item: "ls_entry e = item_bytes (ls_item e)"
  by (simp add: ls_entry_def item_bytes_def ls_item_def)

lemma ls_entry_fun: "ls_entry = item_bytes \<circ> ls_item"
  by (rule ext) (simp add: ls_entry_item)

lemma dec_ls_entry_enc:
  "str_ok (fe_name i) \<Longrightarrow> dec_ls_entry (item_bytes i @ rest) = Some (i, rest)"
proof -
  assume ok: "str_ok (fe_name i)"
  let ?t = "if fe_is_dir i then ET_DIR else ET_FILE" and ?n = "fe_name i"
  let ?p = "item_bytes i @ rest"
  have p: "?p = ?t # u16_to_be (of_nat (length ?n)) @ ?n @ rest"
    by (simp add: item_bytes_def push_append str_field_def)
  have "unat (u16_of_be [?p ! 1, ?p ! 2]) = length ?n"
    unfolding p tag16_field using ok by (simp add: unat_u16 str_ok_def)
  moreover have "drop 3 ?p = ?n @ rest" unfolding p by (rule tag16_rest)
  moreover have "3 \<le> length ?p" by (simp add: p)
  ultimately have "dec_ls_entry ?p = Some (\<lparr>fe_name = lossy ?n, fe_is_dir = (?p ! 0 = ET_DIR)\<rparr>, rest)"
    by (simp add: dec_ls_entry_def Let_def)
  also have "\<dots> = Some (i, rest)"
    using ok by (simp add: p str_ok_def lossy_valid ET_DIR_def ET_FILE_def)
  finally show ?thesis .
qed

interpretation ls_code: codec_loop item_bytes dec_ls_entry "\<lambda>i. str_ok (fe_name i)" parse_ls
  by unfold_locales (auto simp: dec_ls_entry_enc parse_ls.simps dest: dec_ls_entry_shorter)

section \<open>Progress callbacks\<close>

text \<open>The running totals a download reports, one per data frame, starting after \<open>n\<close> bytes.\<close>

fun progress_log :: "u64 \<Rightarrow> u64 \<Rightarrow> bytes list \<Rightarrow> (u64 \<times> u64) list" where
  "progress_log sz n [] = []"
| "progress_log sz n (d # ds) =
     (n + of_nat (length d), sz) # progress_log sz (n + of_nat (length d)) ds"

definition log_chunk :: "u64 \<Rightarrow> u64 \<Rightarrow> (u64 \<times> u64) list \<Rightarrow> (u64 \<times> u64) list" where
  "log_chunk n sz l = l @ [(n, sz)]"

lemma progress_loop_step:
  "d \<noteq> [] \<Longrightarrow> frame_ok d \<Longrightarrow>
     progress_loop vec_write log_chunk sz n (c\<lparr>c_in := frame d @ tail\<rparr>) w l =
       progress_loop vec_write log_chunk sz (n + of_nat (length d)) (c\<lparr>c_in := tail\<rparr>) (w @ d)
         (l @ [(n + of_nat (length d), sz)])"
  using read_frame_conn [of d tail c]
  by (subst progress_loop.simps) (simp add: vec_write_def log_chunk_def Let_def)

lemma progress_loop_end:
  "progress_loop wr oc sz n (c\<lparr>c_in := frame [] @ tail\<rparr>) w l = (Inr (), (c\<lparr>c_in := tail\<rparr>, w, l))"
  using read_frame_conn [of "[]" tail c] by (subst progress_loop.simps) simp

lemma progress_loop_chunks:
  "\<forall>d \<in> set ds. d \<noteq> [] \<and> frame_ok d \<Longrightarrow>
     progress_loop vec_write log_chunk sz n (c\<lparr>c_in := concat (map frame ds) @ frame [] @ tail\<rparr>) w l =
       (Inr (), (c\<lparr>c_in := tail\<rparr>, w @ concat ds, l @ progress_log sz n ds))"
  by (induction ds arbitrary: w n l) (simp_all add: progress_loop_step progress_loop_end)

lemma length_progress_log [simp]: "length (progress_log sz n ds) = length ds"
  by (induction ds arbitrary: n) simp_all

lemma progress_log_Nil_iff [simp]: "progress_log sz n ds = [] \<longleftrightarrow> ds = []"
  by (cases ds) simp_all

lemma progress_log_last:
  "ds \<noteq> [] \<Longrightarrow> last (progress_log sz n ds) = (n + of_nat (length (concat ds)), sz)"
proof (induction ds arbitrary: n)
  case (Cons d ds)
  then show ?case using Cons.IH [of "n + of_nat (length d)"] by (cases "ds = []") (simp_all add: add.assoc)
qed simp

section \<open>Example file system for the witnesses\<close>

definition demo_err :: io_error where
  "demo_err = IoError OtherKind [100]"

text \<open>\<open>a\<close> reads in two pieces; \<open>d\<close> opens, then fails after one byte; \<open>n\<close> is not there.\<close>

definition demo_fs :: fsys where
  "demo_fs =
     \<lparr>fs_read_dir = \<lambda>p. Inr [Inr \<lparr>de_name = [97], de_is_dir = Inr False\<rparr>, Inl demo_err,
                            Inr \<lparr>de_name = [100, 255], de_is_dir = Inr True\<rparr>],
      fs_open = \<lambda>p. if p = [97] then Inr \<lparr>f_len = Inr 3, f_reads = [Inr [1, 2], Inr [3]]\<rparr>
                    else if p = [100] then Inr \<lparr>f_len = Inr 9, f_reads = [Inr [4], Inl demo_err]\<rparr>
                    else Inl (IoError NotFound [])\<rparr>"

definition demo_conn :: "bytes \<Rightarrow> conn" where
  "demo_conn i =
     \<lparr>c_in = i, c_end = IoError UnexpectedEof [], c_out = [], c_cap = None,
      c_werr = IoError BrokenPipe [], c_timeout = None, c_clone = None, c_peer = Inr []\<rparr>"

lemma demo_conn_simps [simp]:
  "c_cap (demo_conn i) = None" "c_out (demo_conn i) = []" "c_in (demo_conn i) = i"
  "(demo_conn i)\<lparr>c_in := j\<rparr> = demo_conn j"
  by (simp_all add: demo_conn_def)

lemma str_ok_byte: "b < 0x80 \<Longrightarrow> str_ok [b]"
  by (simp add: str_ok_def utf8_valid_ascii)

section \<open>Properties\<close>

text \<open>A download read from what the handler wrote.\<close>

lemma get_on_conn_run:
  assumes "str_ok path" and "fs_open fs path = Inr f" and "f_len f = Inr sz"
    and "read_data (f_reads f) = (content, None)"
    and "c_cap srv = None" and "c_out srv = []" and "c_cap c = None"
  shows "get_on_conn_fs vec_write path
      (c\<lparr>c_in := c_out (snd (fs_handle fs (req_fs OP_GET_fs path) srv)) @ rest\<rparr>) w =
    (Inr sz, (conn_put (frame (req_fs OP_GET_fs path)) (c\<lparr>c_in := rest\<rparr>), w @ content))"
proof -
  let ?ds = "fst (file_chunks f)"
  have ds: "\<forall>d \<in> set ?ds. d \<noteq> [] \<and> frame_ok d" and "concat ?ds = content"
    and "snd (file_chunks f) = None"
    using file_chunks_data [of f] assms(4) by (auto intro: chunk_frame_ok)
  then show ?thesis
    using get_on_conn_chunks [OF _ assms(7) ds, of path sz rest w] assms(1,6)
    by (simp add: fs_handle_get_open [OF assms(1,2,3,5)] str_ok_def)
qed

text \<open>C12: a download delivers the file: when the server opens the path and reads it without an
  error, a client reading the server's output writes exactly the file's bytes to its writer,
  whatever the sizes of the operating system's reads, returns the announced size, and leaves the
  connection right after the terminator.\<close>

theorem download_end_to_end:
  assumes "str_ok path" and "fs_open fs path = Inr f" and "f_len f = Inr sz"
    and "read_data (f_reads f) = (content, None)"
    and "c_cap srv = None" and "c_out srv = []" and "c_cap c = None"
  shows "get_on_conn_fs vec_write path
      (c\<lparr>c_in := c_out (snd (fs_handle fs (req_fs OP_GET_fs path) srv)) @ rest\<rparr>) w =
    (Inr sz, (conn_put (frame (req_fs OP_GET_fs path)) (c\<lparr>c_in := rest\<rparr>), w @ content))"
  by (rule get_on_conn_run [OF assms])

theorem download_end_to_end_witness:
  "fst (get_on_conn_fs vec_write [97]
      (demo_conn (c_out (snd (fs_handle demo_fs (req_fs OP_GET_fs [97]) (demo_conn []))))) [9]) = Inr 3 \<and>
    snd (snd (get_on_conn_fs vec_write [97]
      (demo_conn (c_out (snd (fs_handle demo_fs (req_fs OP_GET_fs [97]) (demo_conn []))))) [9])) = [9, 1, 2, 3]"
proof -
  let ?f = "\<lparr>f_len = Inr 3, f_reads = [Inr [1, 2], Inr [3]]\<rparr>"
  have "str_ok [97]" and "fs_open demo_fs [97] = Inr ?f" and "f_len ?f = Inr 3"
    and "read_data (f_reads ?f) = ([1, 2, 3], None)"
    by (simp_all add: str_ok_byte demo_fs_def)
  note d = download_end_to_end [OF this, of "demo_conn []" "demo_conn []" "[]" "[9]"]
  show ?thesis using d by simp
qed

text \<open>When a read fails after the file was opened (a directory on Unix, a disk error), the
  server stops without a terminator, and the client takes the next response frame on the
  connection for file data: the download reports success with foreign bytes at its end.\<close>

theorem read_error_swallows_next_reply:
  assumes "str_ok path" and "fs_open fs path = Inr f" and "f_len f = Inr sz"
    and "read_data (f_reads f) = (content, Some e)"
    and "c_cap srv = None" and "c_out srv = []" and "c_cap c = None"
    and "reply \<noteq> []" and "frame_ok reply"
  shows "fst (fs_handle fs (req_fs OP_GET_fs path) srv) = Inl e \<and>
    get_on_conn_fs vec_write path
      (c\<lparr>c_in := c_out (snd (fs_handle fs (req_fs OP_GET_fs path) srv)) @ frame reply @ frame [] @ rest\<rparr>) w =
    (Inr sz, (conn_put (frame (req_fs OP_GET_fs path)) (c\<lparr>c_in := rest\<rparr>), w @ content @ reply))"
proof -
  let ?ds = "fst (file_chunks f)"
  have ds: "\<forall>d \<in> set (?ds @ [reply]). d \<noteq> [] \<and> frame_ok d" and "concat ?ds = content"
    and "snd (file_chunks f) = Some e"
    using file_chunks_data [of f] assms(4,8,9) by (auto intro: chunk_frame_ok)
  then show ?thesis
    using get_on_conn_chunks [OF _ assms(7) ds, of path sz rest w] assms(1,6)
    by (simp add: fs_handle_get_open [OF assms(1,2,3,5)] str_ok_def)
qed

theorem read_error_swallows_next_reply_witness:
  "\<exists>c. get_on_conn_fs vec_write [100]
      (demo_conn (c_out (snd (fs_handle demo_fs (req_fs OP_GET_fs [100]) (demo_conn []))) @
        frame [0, 7] @ frame [])) [] = (Inr 9, (c, [4, 0, 7]))"
proof -
  let ?f = "\<lparr>f_len = Inr 9, f_reads = [Inr [4], Inl demo_err]\<rparr>"
  have "str_ok [100]" and "fs_open demo_fs [100] = Inr ?f" and "f_len ?f = Inr 9"
    and "read_data (f_reads ?f) = ([4], Some demo_err)"
    by (simp_all add: str_ok_byte demo_fs_def)
  note d = read_error_swallows_next_reply [OF this, of "demo_conn []" "demo_conn []" "[0, 7]" "[]" "[]"]
  have "frame_ok [0, 7]" by (simp add: frame_ok_small)
  with d show ?thesis by simp
qed

text \<open>A listing read from what the handler wrote.\<close>

lemma ls_on_conn_run:
  assumes "str_ok path"
    and "fs_read_dir fs (if path = [] then lit ''.'' else path) = Inr entries"
    and "\<forall>e \<in> set (flatten_ok entries). length (lossy (de_name e)) < 65536"
    and "frame_ok (ST_OK # concat (map ls_entry (flatten_ok entries)))"
    and "c_cap srv = None" and "c_out srv = []" and "c_cap c = None"
  shows "ls_on_conn path
      (c\<lparr>c_in := c_out (snd (fs_handle fs (req_fs OP_LS path) srv)) @ rest\<rparr>) =
    (Inr (map ls_item (flatten_ok entries)), conn_put (frame (req_fs OP_LS path)) (c\<lparr>c_in := rest\<rparr>))"
proof -
  let ?is = "map ls_item (flatten_ok entries)"
  have enc: "concat (map ls_entry (flatten_ok entries)) = concat (map item_bytes ?is)"
    by (simp add: ls_entry_fun)
  have out: "c_out (snd (fs_handle fs (req_fs OP_LS path) srv)) =
      frame (ST_OK # concat (map item_bytes ?is))"
    using assms by (simp add: fs_handle_def parse_path_req handle_ls_def write_frame_unlimited enc)
  have "\<forall>i \<in> set ?is. str_ok (fe_name i)"
    using assms(3) by (simp add: ls_item_def str_ok_def utf8_valid_lossy)
  then have "parse_ls (concat (map item_bytes ?is)) = ?is"
    using ls_code.parse_stream_stop [of ?is "[]"] by (simp add: dec_ls_entry_def)
  moreover have "frame_ok (req_fs OP_LS path)"
    using assms(1) by (intro frame_ok_req_fs) (simp add: str_ok_def)
  ultimately show ?thesis
    using assms(4,7) call_on_conn_fs_reply [of "req_fs OP_LS path" "ST_OK # concat (map item_bytes ?is)" c rest]
    by (simp add: ls_on_conn_def out check_status_def enc del: map_map)
qed

text \<open>C13: a listing is transported unchanged: if it fits in a frame and no name has more than
  65535 bytes, the client gets the readable entries in order, each with its lossily decoded name
  and its directory flag.\<close>

theorem listing_end_to_end:
  assumes "str_ok path"
    and "fs_read_dir fs (if path = [] then lit ''.'' else path) = Inr entries"
    and "\<forall>e \<in> set (flatten_ok entries). length (lossy (de_name e)) < 65536"
    and "frame_ok (ST_OK # concat (map ls_entry (flatten_ok entries)))"
    and "c_cap srv = None" and "c_out srv = []" and "c_cap c = None"
  shows "ls_on_conn path
      (c\<lparr>c_in := c_out (snd (fs_handle fs (req_fs OP_LS path) srv)) @ rest\<rparr>) =
    (Inr (map ls_item (flatten_ok entries)), conn_put (frame (req_fs OP_LS path)) (c\<lparr>c_in := rest\<rparr>))"
  by (rule ls_on_conn_run [OF assms])

theorem listing_end_to_end_witness:
  "fst (ls_on_conn [] (demo_conn (c_out (snd (fs_handle demo_fs (req_fs OP_LS []) (demo_conn [])))))) =
     Inr [\<lparr>fe_name = [97], fe_is_dir = False\<rparr>, \<lparr>fe_name = [100, 0xEF, 0xBF, 0xBD], fe_is_dir = True\<rparr>]"
proof -
  let ?es = "[Inr \<lparr>de_name = [97], de_is_dir = Inr False\<rparr>, Inl demo_err,
    Inr \<lparr>de_name = [100, 255], de_is_dir = Inr True\<rparr>]"
  have l: "lossy [97] = [97]" "lossy [100, 255] = [100, 0xEF, 0xBF, 0xBD]"
    by (simp_all add: lossy.simps utf8_step.simps utf8_width_def replacement_def)
  have f: "flatten_ok ?es =
      [\<lparr>de_name = [97], de_is_dir = Inr False\<rparr>, \<lparr>de_name = [100, 255], de_is_dir = Inr True\<rparr>]"
    by (simp add: flatten_ok_def)
  have "str_ok []" by (simp add: str_ok_def)
  moreover have "fs_read_dir demo_fs (if [] = [] then lit ''.'' else []) = Inr ?es"
    by (simp add: demo_fs_def)
  moreover have "\<forall>e \<in> set (flatten_ok ?es). length (lossy (de_name e)) < 65536"
    by (simp add: f l)
  moreover have "frame_ok (ST_OK # concat (map ls_entry (flatten_ok ?es)))"
    by (simp add: f l ls_entry_def push_append frame_ok_small)
  ultimately have "ls_on_conn [] (demo_conn (c_out (snd (fs_handle demo_fs (req_fs OP_LS []) (demo_conn [])))))
      = (Inr (map ls_item (flatten_ok ?es)), conn_put (frame (req_fs OP_LS [])) (demo_conn []))"
    using listing_end_to_end [of "[]" demo_fs ?es "demo_conn []" "demo_conn []" "[]"] by simp
  then show ?thesis by (simp add: f l ls_item_def)
qed

text \<open>C14: a path the server cannot open or list is reported: the client gets a not-found error
  for a missing path and the server's message otherwise, its writer is untouched, and the
  connection is ready for the next request.\<close>

theorem fs_errors_reported:
  assumes "str_ok path" and "c_cap srv = None" and "c_out srv = []" and "c_cap c = None"
    and "length (err_msg e) < MAX_FRAME"
  defines "report \<equiv> (if err_kind e = NotFound then IoError NotFound (lit ''remote path not found'')
                     else IoError OtherKind (lossy (err_msg e)))"
  shows "(fs_open fs path = Inl e \<longrightarrow>
      get_on_conn_fs wr path
        (c\<lparr>c_in := c_out (snd (fs_handle fs (req_fs OP_GET_fs path) srv)) @ rest\<rparr>) w =
      (Inl report, (conn_put (frame (req_fs OP_GET_fs path)) (c\<lparr>c_in := rest\<rparr>), w))) \<and>
    (fs_read_dir fs (if path = [] then lit ''.'' else path) = Inl e \<longrightarrow>
      ls_on_conn path
        (c\<lparr>c_in := c_out (snd (fs_handle fs (req_fs OP_LS path) srv)) @ rest\<rparr>) =
      (Inl report, conn_put (frame (req_fs OP_LS path)) (c\<lparr>c_in := rest\<rparr>)))"
proof -
  let ?r = "if err_kind e = NotFound then [ST_NOT_FOUND] else resp_err (err_msg e)"
  have ok: "frame_ok ?r" using assms(5) by (simp add: frame_ok_def resp_err_def MAX_FRAME_def)
  have rq: "frame_ok (req_fs op path)" for op
    using assms(1) by (intro frame_ok_req_fs) (simp add: str_ok_def)
  have st: "check_status ?r = Inl report"
    by (simp add: report_def check_status_def resp_err_def status_defs)
  have "c_out (snd (fs_handle fs (req_fs OP_GET_fs path) srv)) = frame ?r" if "fs_open fs path = Inl e"
    using that assms(1-3) ok
    by (auto simp: fs_handle_def parse_path_req handle_get_def OP_LS_def OP_GET_fs_def write_frame_unlimited)
  moreover have "c_out (snd (fs_handle fs (req_fs OP_LS path) srv)) = frame ?r"
    if "fs_read_dir fs (if path = [] then lit ''.'' else path) = Inl e"
    using that assms(1-3) ok
    by (auto simp: fs_handle_def parse_path_req handle_ls_def Let_def write_frame_unlimited)
  ultimately show ?thesis
    using call_on_conn_fs_reply [OF rq ok assms(4), of _ rest] st
    by (auto simp: get_on_conn_fs_def ls_on_conn_def)
qed

theorem fs_errors_reported_witness:
  "fst (get_on_conn_fs vec_write [110]
      (demo_conn (c_out (snd (fs_handle demo_fs (req_fs OP_GET_fs [110]) (demo_conn []))))) [])
   = Inl (IoError NotFound (lit ''remote path not found''))"
proof -
  have "str_ok [110]" by (simp add: str_ok_byte)
  moreover have "length (err_msg (IoError NotFound [])) < MAX_FRAME" by (simp add: MAX_FRAME_def)
  moreover have "fs_open demo_fs [110] = Inl (IoError NotFound [])" by (simp add: demo_fs_def)
  ultimately show ?thesis
    using fs_errors_reported [of "[110]" "demo_conn []" "demo_conn []" "IoError NotFound []" demo_fs
        vec_write "[]" "[]"] by simp
qed

text \<open>The progress callback of a dialled download is called once per data frame with the
  running total and the announced size; after the last frame it has reported the file's length
  (modulo \<open>2^64\<close>), and the writer holds the file.\<close>

theorem download_progress:
  assumes "str_ok path" and "fs_open fs path = Inr f" and "f_len f = Inr sz"
    and "read_data (f_reads f) = (content, None)" and "content \<noteq> []"
    and "c_cap srv = None" and "c_out srv = []" and "c_cap c = None" and "t_connect t addr = Inr c"
    and "c_in c = c_out (snd (fs_handle fs (req_fs OP_GET_fs path) srv))"
  shows "\<exists>l. client_get_progress t addr path vec_write log_chunk w [] = (Inr sz, w @ content, l) \<and>
    length l = length (fst (file_chunks f)) \<and> last l = (of_nat (length content), sz)"
proof -
  let ?ds = "fst (file_chunks f)" and ?h = "push_u64 [ST_OK] sz" and ?q = "req_fs OP_GET_fs path"
  have ds: "\<forall>d \<in> set ?ds. d \<noteq> [] \<and> frame_ok d" and cc: "concat ?ds = content"
    and n: "snd (file_chunks f) = None"
    using file_chunks_data [of f] assms(4) by (auto intro: chunk_frame_ok)
  have cin: "c_in c = frame ?h @ concat (map frame ?ds) @ frame []"
    using assms(7,10) n by (simp add: fs_handle_get_open [OF assms(1,2,3,6)])
  then have c: "c = c\<lparr>c_in := frame ?h @ concat (map frame ?ds) @ frame []\<rparr>"
    by (metis conn.surjective conn.update_convs(1))
  have rq: "frame_ok ?q" using assms(1) by (intro frame_ok_req_fs) (simp add: str_ok_def)
  have call: "call_fs t addr ?q =
      Inr (conn_put (frame ?q) c\<lparr>c_in := concat (map frame ?ds) @ frame [] @ []\<rparr>, ?h)"
    using call_on_conn_fs_reply [OF rq header_frame_ok assms(8), of sz "concat (map frame ?ds) @ frame []"] c
    by (simp add: call_fs_def connect_def assms(9))
  have "client_get_progress t addr path vec_write log_chunk w [] =
      (Inr sz, w @ content, progress_log sz 0 ?ds)"
    using progress_loop_chunks [OF ds, where sz = sz and n = 0 and c = "conn_put (frame ?q) c"
        and tail = "[]" and w = w and l = "[]"] cc
    by (simp only: client_get_progress_def call header_status header_parse sum.case prod.case append_Nil)
  moreover have "?ds \<noteq> []" using cc assms(5) by auto
  then have "last (progress_log sz 0 ?ds) = (of_nat (length content), sz)"
    using progress_log_last [of ?ds sz 0] cc by simp
  ultimately show ?thesis by simp
qed

theorem download_progress_witness:
  "\<exists>t l. client_get_progress t [] [97] vec_write log_chunk [] [] = (Inr 3, [1, 2, 3], l) \<and> last l = (3, 3)"
proof -
  let ?f = "\<lparr>f_len = Inr 3, f_reads = [Inr [1, 2], Inr [3]]\<rparr>"
  let ?c = "demo_conn (c_out (snd (fs_handle demo_fs (req_fs OP_GET_fs [97]) (demo_conn []))))"
  let ?t = "\<lparr>t_connect = \<lambda>_. Inr ?c, t_bind = \<lambda>_. Inr []\<rparr>"
  have "str_ok [97]" and "fs_open demo_fs [97] = Inr ?f" and "f_len ?f = Inr 3"
    and "read_data (f_reads ?f) = ([1, 2, 3], None)" and "[1, 2, 3 :: u8] \<noteq> []"
    by (simp_all add: str_ok_byte demo_fs_def)
  from download_progress [OF this, of "demo_conn []" ?c ?t "[]" "[]"] show ?thesis by auto
qed

end
