(* ===== verification/Reverse.thy ===== *)
theory Reverse
  imports Fs_Spec
begin

text \<open>
  The reverse tunnel, server side (\<^theory_text>\<open>src/reverse.rs\<close>): the ordered list of device records, the
  handlers that list, select and proxy to devices, and the heartbeat. A registered connection is
  shared (\<^theory_text>\<open>Arc<Mutex<Box<dyn Connection>>>\<close>) by its record, the heartbeat and the proxies: it
  lives in a store, and \<^theory_text>\<open>Arc::ptr_eq\<close> is equality of its address. Times are whole seconds since
  the epoch. A handler takes the list's lock several times; \<open>others\<close> is what other threads do to
  the shared state in between, at the two points where it can matter.
\<close>

section \<open>Constants and state\<close>

definition OP_REVERSE_REGISTER :: u8 where "OP_REVERSE_REGISTER = 60"
definition OP_REVERSE_LIST :: u8 where "OP_REVERSE_LIST = 61"
definition OP_REVERSE_PROXY_LS :: u8 where "OP_REVERSE_PROXY_LS = 62"
definition OP_REVERSE_PROXY_GET :: u8 where "OP_REVERSE_PROXY_GET = 63"
definition OP_DEVICE_LIST :: u8 where "OP_DEVICE_LIST = 64"
definition OP_SET_TARGET :: u8 where "OP_SET_TARGET = 65"
definition OP_PING :: u8 where "OP_PING = 70"

record device =
  dv_name :: rstr
  dv_user :: rstr
  dv_addr :: rstr
  dv_connected_at :: int
  dv_last_seen :: int
  dv_active :: bool
  dv_conn :: "nat option"

text \<open>
  The shared state: the records, the store with its next free address, and the heartbeat
  monitors that run (connection, name, user).
\<close>

record rworld =
  rw_devices :: "device list"
  rw_conns :: "nat \<Rightarrow> conn"
  rw_next :: nat
  rw_monitors :: "(nat \<times> rstr \<times> rstr) list"

datatype point = After_Target | After_Check | Between_Lookups | Before_Offline

type_synonym others = "point \<Rightarrow> rworld \<Rightarrow> rworld"

definition obeys :: "(rworld \<Rightarrow> bool) \<Rightarrow> others \<Rightarrow> bool" where
  "obeys ok oth \<longleftrightarrow> (\<forall>p w. ok w \<longrightarrow> ok (oth p w))"

lemma obeysD: "obeys ok oth \<Longrightarrow> ok w \<Longrightarrow> ok (oth p w)"
  by (simp add: obeys_def)

section \<open>Wire format\<close>

definition parse_two_strings :: "bytes \<Rightarrow> (rstr \<times> rstr) option" where
  "parse_two_strings data =
     (if length data < 3 then None
      else
        let nlen = unat (u16_of_be [data ! 1, data ! 2])
        in if length data < 3 + nlen + 2 then None
           else
             let first = lossy (take nlen (drop 3 data));
                 p = drop (3 + nlen) data;
                 slen = unat (u16_of_be [p ! 0, p ! 1])
             in if length p < 2 + slen then None
                else Some (first, lossy (take slen (drop 2 p))))"

definition parse_reverse_registration :: "bytes \<Rightarrow> (rstr \<times> rstr) option" where
  "parse_reverse_registration data = parse_two_strings data"

definition parse_reverse_proxy_req :: "bytes \<Rightarrow> (rstr \<times> rstr) option" where
  "parse_reverse_proxy_req data = parse_two_strings data"

definition reverse_err :: "rstr \<Rightarrow> bytes" where
  "reverse_err msg = ST_ERR # msg"

definition make_proxy_frame :: "u8 \<Rightarrow> rstr \<Rightarrow> rstr \<Rightarrow> bytes" where
  "make_proxy_frame op name path = push_str (push_str [op] name) path"

text \<open>A reply whose write error is ignored.\<close>

definition reply :: "bytes \<Rightarrow> conn \<Rightarrow> conn" where
  "reply f c = snd (write_frame f c)"

section \<open>The device list\<close>

fun update_first :: "('a \<Rightarrow> bool) \<Rightarrow> ('a \<Rightarrow> 'a) \<Rightarrow> 'a list \<Rightarrow> 'a list" where
  "update_first P g [] = []"
| "update_first P g (x # xs) = (if P x then g x # xs else x # update_first P g xs)"

definition is_device :: "rstr \<Rightarrow> rstr \<Rightarrow> device \<Rightarrow> bool" where
  "is_device name user d \<longleftrightarrow> dv_name d = name \<and> dv_user d = user"

definition server_name :: rstr where "server_name = lit ''server''"

definition default_target :: "device list \<Rightarrow> rstr \<times> rstr" where
  "default_target devs =
     (case find dv_active devs of
        Some d \<Rightarrow> (dv_name d, dv_user d)
      | None \<Rightarrow> (server_name, []))"

text \<open>\<^theory_text>\<open>duration_since(UNIX_EPOCH).unwrap_or_default().as_secs()\<close>.\<close>

definition unix_secs :: "int \<Rightarrow> u64" where
  "unix_secs t = (if t < 0 then 0 else of_int t)"

definition device_entry :: "device \<Rightarrow> bytes" where
  "device_entry d =
     push_u64 (push_str (push_str (push_str [1] (dv_name d)) (dv_user d)) (dv_addr d))
       (unix_secs (dv_connected_at d)) @ [if dv_active d then 1 else 0]"

definition server_entry :: "rstr \<Rightarrow> rstr \<Rightarrow> u64 \<Rightarrow> bytes" where
  "server_entry server_user server_addr server_started =
     push_u64 (push_str (push_str (push_str [0] server_name) server_user) server_addr)
       server_started @ [1]"

definition handle_device_list :: "device list \<Rightarrow> rstr \<Rightarrow> rstr \<Rightarrow> u64 \<Rightarrow> conn \<Rightarrow> conn" where
  "handle_device_list devs server_user server_addr server_started c =
     reply (ST_OK # server_entry server_user server_addr server_started @
       concat (map device_entry devs)) c"

definition not_found_msg :: "rstr \<Rightarrow> rstr \<Rightarrow> rstr" where
  "not_found_msg name user =
     lit ''device '' @ [39] @ name @ [39] @ lit '' ('' @ user @ lit '') not found''"

definition handle_set_target ::
    "bytes \<Rightarrow> device list \<Rightarrow> conn \<times> (rstr \<times> rstr) option \<Rightarrow> conn \<times> (rstr \<times> rstr) option" where
  "handle_set_target data devs s =
     (case s of (c, target) \<Rightarrow>
       (case parse_two_strings data of
          None \<Rightarrow> (reply (reverse_err (lit ''invalid target request'')) c, target)
        | Some (name, user) \<Rightarrow>
            let valid = (name = server_name \<and> user = []) \<or> list_ex (is_device name user) devs
            in if valid then (reply [ST_OK] c, Some (name, user))
               else (reply (reverse_err (not_found_msg name user)) c, target)))"

definition handle_reverse_list :: "device list \<Rightarrow> conn \<Rightarrow> conn" where
  "handle_reverse_list devs c =
     reply (ST_OK # concat (map (\<lambda>d. push_str [] (dv_name d)) (filter dv_active devs))) c"

definition find_device_conn :: "device list \<Rightarrow> rstr \<Rightarrow> rstr \<Rightarrow> nat option" where
  "find_device_conn devs name user =
     (case find (\<lambda>d. is_device name user d \<and> dv_active d) devs of
        Some d \<Rightarrow> dv_conn d
      | None \<Rightarrow> None)"

definition mark_device_offline :: "int \<Rightarrow> rstr \<Rightarrow> rstr \<Rightarrow> rworld \<Rightarrow> rworld" where
  "mark_device_offline now name user w =
     w\<lparr>rw_devices := update_first (is_device name user)
          (\<lambda>d. d\<lparr>dv_active := False, dv_conn := None, dv_last_seen := now\<rparr>) (rw_devices w)\<rparr>"

section \<open>Heartbeat\<close>

text \<open>One round of the monitor of connection \<open>a\<close>; the flag says whether it goes on.\<close>

definition heartbeat :: "int \<Rightarrow> nat \<Rightarrow> rstr \<Rightarrow> rstr \<Rightarrow> rworld \<Rightarrow> bool \<times> rworld" where
  "heartbeat now a name user w =
     (case write_frame [OP_PING] (rw_conns w a) of
        (Inr _, c) \<Rightarrow> (True, w\<lparr>rw_conns := (rw_conns w)(a := c)\<rparr>)
      | (Inl _, c) \<Rightarrow>
          let w = w\<lparr>rw_conns := (rw_conns w)(a := c)\<rparr>;
              still_current =
                (case find (is_device name user) (rw_devices w) of
                   Some d \<Rightarrow> dv_conn d = Some a
                 | None \<Rightarrow> False)
          in (False, if still_current then mark_device_offline now name user w else w))"

section \<open>Proxying to a device\<close>

definition no_client_msg :: "rstr \<Rightarrow> rstr" where
  "no_client_msg name = lit ''reverse client '' @ [39] @ name @ [39] @ lit '' not found''"

definition gone_msg :: rstr where "gone_msg = lit ''reverse client disconnected''"

definition resolve_proxy_target ::
    "others \<Rightarrow> bytes \<Rightarrow> conn \<times> rworld \<Rightarrow> (nat \<times> rstr \<times> rstr \<times> rstr) option \<times> (conn \<times> rworld)" where
  "resolve_proxy_target oth data s =
     (case s of (c, w) \<Rightarrow>
       (case parse_reverse_proxy_req data of
          None \<Rightarrow> (None, (c, w))
        | Some (name, path) \<Rightarrow>
            (case find (\<lambda>d. dv_name d = name \<and> dv_active d) (rw_devices w) of
               None \<Rightarrow> (None, (reply (reverse_err (no_client_msg name)) c, w))
             | Some d \<Rightarrow>
                 let w = oth Between_Lookups w
                 in (case find_device_conn (rw_devices w) (dv_name d) (dv_user d) of
                      None \<Rightarrow> (None, (c, w))
                    | Some a \<Rightarrow> (Some (a, dv_name d, dv_user d, path), (c, w))))))"

text \<open>What a proxy does when its device fails: the record goes offline, the client is told.\<close>

definition device_gone ::
    "others \<Rightarrow> int \<Rightarrow> rstr \<Rightarrow> rstr \<Rightarrow> bytes \<Rightarrow> conn \<times> rworld \<Rightarrow> conn \<times> rworld" where
  "device_gone oth now name user msg s =
     (reply msg (fst s), mark_device_offline now name user (oth Before_Offline (snd s)))"

definition send_proxy_request ::
    "others \<Rightarrow> int \<Rightarrow> nat \<Rightarrow> rstr \<Rightarrow> rstr \<Rightarrow> bytes \<Rightarrow> conn \<times> rworld \<Rightarrow> bool \<times> (conn \<times> rworld)" where
  "send_proxy_request oth now a name user request s =
     (case s of (c, w) \<Rightarrow>
       (case write_frame request (rw_conns w a) of
          (Inl _, rc) \<Rightarrow>
            (False, device_gone oth now name user (reverse_err gone_msg)
               (c, w\<lparr>rw_conns := (rw_conns w)(a := rc)\<rparr>))
        | (Inr _, rc) \<Rightarrow> (True, (c, w\<lparr>rw_conns := (rw_conns w)(a := rc)\<rparr>))))"

definition handle_reverse_proxy_ls ::
    "others \<Rightarrow> int \<Rightarrow> bytes \<Rightarrow> conn \<times> rworld \<Rightarrow> conn \<times> rworld" where
  "handle_reverse_proxy_ls oth now data s =
     (case resolve_proxy_target oth data s of
        (None, s) \<Rightarrow> s
      | (Some (a, name, user, path), s) \<Rightarrow>
          (case send_proxy_request oth now a name user (req_fs OP_LS path) s of
             (False, s) \<Rightarrow> s
           | (True, (c, w)) \<Rightarrow>
               (case read_frame (rw_conns w a) of
                  (Inr response, rc) \<Rightarrow> (reply response c, w\<lparr>rw_conns := (rw_conns w)(a := rc)\<rparr>)
                | (Inl _, rc) \<Rightarrow>
                    device_gone oth now name user (reverse_err gone_msg)
                      (c, w\<lparr>rw_conns := (rw_conns w)(a := rc)\<rparr>))))"

text \<open>
  The copying loop of a proxied download: chunks of the device's connection \<open>rc\<close> go to the
  client's \<open>c\<close>. It ends with the empty frame, with a client that cannot be written to, or with a
  device that fails (the flag), when the client gets an empty frame.
\<close>

function proxy_copy :: "conn \<Rightarrow> conn \<Rightarrow> bool \<times> conn \<times> conn" where
  "proxy_copy rc c =
     (case read_frame rc of
        (Inl _, rc) \<Rightarrow> (True, rc, reply [] c)
      | (Inr chunk, rc) \<Rightarrow>
          (case write_frame chunk c of
             (Inl _, c) \<Rightarrow> (False, rc, c)
           | (Inr _, c) \<Rightarrow> if chunk = [] then (False, rc, c) else proxy_copy rc c))"
  by pat_completeness auto
termination
  by (relation "measure (length \<circ> c_in \<circ> fst)") (auto dest: read_frame_shrinks [OF sym])

declare proxy_copy.simps [simp del]

definition handle_reverse_proxy_get ::
    "others \<Rightarrow> int \<Rightarrow> bytes \<Rightarrow> conn \<times> rworld \<Rightarrow> conn \<times> rworld" where
  "handle_reverse_proxy_get oth now data s =
     (case resolve_proxy_target oth data s of
        (None, s) \<Rightarrow> s
      | (Some (a, name, user, path), s) \<Rightarrow>
          (case send_proxy_request oth now a name user (req_fs OP_GET_fs path) s of
             (False, s) \<Rightarrow> s
           | (True, (c, w)) \<Rightarrow>
               (case read_frame (rw_conns w a) of
                  (Inl _, rc) \<Rightarrow>
                    device_gone oth now name user (reverse_err gone_msg)
                      (c, w\<lparr>rw_conns := (rw_conns w)(a := rc)\<rparr>)
                | (Inr header, rc) \<Rightarrow>
                    let w = w\<lparr>rw_conns := (rw_conns w)(a := rc)\<rparr>
                    in (case write_frame header c of
                         (Inl _, c) \<Rightarrow> (c, w)
                       | (Inr _, c) \<Rightarrow>
                           if header = [] \<or> hd header \<noteq> ST_OK then (c, w)
                           else
                             (case proxy_copy rc c of
                                (failed, rc, c) \<Rightarrow>
                                  let w = w\<lparr>rw_conns := (rw_conns w)(a := rc)\<rparr>
                                  in if failed
                                     then (c, mark_device_offline now name user (oth Before_Offline w))
                                     else (c, w))))))"

section \<open>Dispatch by target\<close>

definition offline_msg :: "rstr \<Rightarrow> rstr \<Rightarrow> rstr" where
  "offline_msg name user =
     lit ''device '' @ [39] @ name @ [39] @ lit '' ('' @ user @
       lit '') is offline, use '' @ [39] @ lit ''thru device'' @ [39] @ lit '' to select another''"

definition dispatch_fs ::
    "others \<Rightarrow> fsys \<Rightarrow> int \<Rightarrow> bytes \<Rightarrow> (conn \<times> rworld) \<times> (rstr \<times> rstr) option \<Rightarrow>
       (conn \<times> rworld) \<times> (rstr \<times> rstr) option" where
  "dispatch_fs oth fs now f s =
     (case s of ((c, w), target) \<Rightarrow>
       let t = (case target of Some t \<Rightarrow> t | None \<Rightarrow> default_target (rw_devices w));
           w = oth After_Target w;
           (name, user) = t
       in ((if name = server_name then (snd (fs_handle fs f c), w)
            else if \<not> list_ex (\<lambda>d. is_device name user d \<and> dv_active d) (rw_devices w)
            then (reply (reverse_err (offline_msg name user)) c, w)
            else
              let path = (case parse_path f of Inr p \<Rightarrow> p | Inl _ \<Rightarrow> lit ''.'');
                  w = oth After_Check w
              in if f ! 0 = OP_LS
                 then handle_reverse_proxy_ls oth now (make_proxy_frame OP_REVERSE_PROXY_LS name path) (c, w)
                 else if f ! 0 = OP_GET_fs
                 then handle_reverse_proxy_get oth now (make_proxy_frame OP_REVERSE_PROXY_GET name path) (c, w)
                 else (snd (fs_handle fs f c), w)),
           Some t))"

end
