(* ===== verification/Daemon.thy ===== *)
theory Daemon
  imports Process Reverse
begin

text \<open>
  The client's side of the reverse tunnel (\<^theory_text>\<open>src/reverse.rs\<close>, second half): \<open>connect_cmd\<close>
  authenticates, caches the session and starts the background process; \<open>run_reverse_daemon\<close> is
  that process: it registers and serves the frames the server forwards until the connection
  ends. \<open>None\<close> is a process that never ends (a shell handler waiting for its child).
\<close>

section \<open>Server status\<close>

record server_status =
  ss_pid :: nat
  ss_connections :: "rstr list"

fun parse_peers :: "nat \<Rightarrow> bytes \<Rightarrow> rstr list" where
  "parse_peers 0 p = []"
| "parse_peers (Suc n) p =
     (case read_str p of None \<Rightarrow> [] | Some (s, rest) \<Rightarrow> s # parse_peers n rest)"

definition query_server_status :: "conn \<Rightarrow> server_status io \<times> conn" where
  "query_server_status c =
     try_io (write_frame [50] c) (\<lambda>_ c.
     try_io (read_frame c) (\<lambda>resp c.
       if length resp < 9 \<or> resp ! 0 \<noteq> ST_OK
       then (Inl (IoError OtherKind (lit ''invalid status response'')), c)
       else
         (let pid = unat (u32_of_be (take 4 (drop 1 resp)));
              count = unat (u32_of_be (take 4 (drop 5 resp)))
          in (Inr \<lparr>ss_pid = pid, ss_connections = parse_peers count (drop 9 resp)\<rparr>, c))))"

section \<open>The background process\<close>

lemma get_loop_c_in [simp]: "c_in (snd (get_loop f c)) = c_in c"
proof (induction f c rule: get_loop.induct)
  case (1 f c)
  obtain r f' where r: "file_read CHUNK f = (r, f')" by fastforce
  show ?case
  proof (cases r)
    case (Inl e)
    with r show ?thesis by (simp add: get_loop.simps [of f])
  next
    case (Inr d)
    obtain q t where w: "write_frame d c = (q, t)" by fastforce
    then have t: "c_in t = c_in c" using write_frame_c_in [of d c] by simp
    show ?thesis
    proof (cases "d = [] \<or> (\<exists>e. q = Inl e)")
      case True
      with r Inr w t show ?thesis by (auto simp: get_loop.simps [of f])
    next
      case False
      then obtain u where q: "q = Inr u" by (cases q) auto
      with False 1 [OF r [symmetric] Inr _ w [symmetric] q] r Inr w t show ?thesis
        by (simp add: get_loop.simps [of f c])
    qed
  qed
qed

lemma try_io_c_in:
  "c_in (snd r) = i \<Longrightarrow> (\<And>x c. c_in c = i \<Longrightarrow> c_in (snd (k x c)) = i) \<Longrightarrow> c_in (snd (try_io r k)) = i"
  by (cases r; cases "fst r") auto

lemma fs_handle_c_in [simp]: "c_in (snd (fs_handle fs f c)) = c_in c"
  by (auto simp: fs_handle_def handle_ls_def handle_get_def Let_def intro!: try_io_c_in split: sum.splits)

lemma send_output_c_in [simp]: "c_in (snd (send_output out c)) = c_in c"
  by (auto simp: send_output_def Let_def intro!: try_io_c_in)

lemma send_output_keeps_in: "send_output out c = (r, t) \<Longrightarrow> c_in t = c_in c"
  using send_output_c_in [of out c] by simp

lemma handle_exec_c_in [simp]: "c_in (snd (snd (handle_exec_script x f (st, c)))) = c_in c"
  by (auto simp: handle_exec_script_def Let_def dest: write_frame_keeps_in send_output_keeps_in
      split: prod.splits sum.splits)

lemma pump_output_c_in [simp]: "c_in (pump_output rs c) = c_in c"
proof (induction rs c rule: pump_output.induct)
  case (3 d rs c)
  obtain r t where w: "write_frame d c = (r, t)" by fastforce
  with write_frame_c_in [of d c] have "c_in t = c_in c" by simp
  with 3 [of r t] w show ?case by (auto split: sum.splits)
qed simp_all

lemma shell_loop_c_in: "length (c_in (snd (snd (shell_loop y p c)))) \<le> length (c_in c)"
proof (induction y p c rule: shell_loop.induct)
  case (1 y p c)
  obtain q p1 where t: "pty_try_wait y p = (q, p1)" by fastforce
  obtain r c' where rd: "read_frame c = (r, c')" by fastforce
  then have le: "length (c_in c') \<le> length (c_in c)" using read_frame_c_in_le [of c] by simp
  show ?case
  proof (cases q)
    case (Inl e)
    with t show ?thesis by (subst shell_loop.simps) simp
  next
    case (Inr b)
    then show ?thesis
    proof (cases "b \<noteq> None \<or> (\<exists>e. r = Inl e)")
      case True
      with t rd Inr le show ?thesis by (subst shell_loop.simps) auto
    next
      case False
      then obtain f where r: "r = Inr f" and b: "\<not> b \<noteq> None" by (cases r) auto
      note ih = 1 [OF t [symmetric] Inr b rd [symmetric] r]
      show ?thesis
      proof (cases "f = []")
        case True
        with t rd Inr r b le show ?thesis by (subst shell_loop.simps) simp
      next
        case ne: False
        show ?thesis
        proof (cases "f ! 0 = OP_RESIZE")
          case True
          obtain sz where sz: "parse_size f = sz" by simp
          have "\<exists>p2. shell_loop y p c = shell_loop y p2 c' \<and>
              length (c_in (snd (snd (shell_loop y p2 c')))) \<le> length (c_in c')"
          proof (cases sz)
            case (Inl e)
            with sz True t rd \<open>q = Inr b\<close> r b ne ih(1) [OF ne True] show ?thesis
              by (intro exI [of _ p1], subst shell_loop.simps) simp
          next
            case (Inr cr)
            obtain cols rows where "cr = (cols, rows)" by (cases cr)
            with sz True t rd \<open>q = Inr b\<close> r b ne ih(2) [OF ne True] Inr show ?thesis
              by (intro exI [of _ "snd (pty_resize y cols rows p1)"], subst shell_loop.simps) simp
          qed
          then show ?thesis using le by auto
        next
          case False
          obtain u p2 where w: "on_master (y_write y f) p1 = (u, p2)" by fastforce
          obtain v p3 where fl: "on_master (y_flush y) p2 = (v, p3)" by fastforce
          have ih3: "length (c_in (snd (snd (shell_loop y p3 c')))) \<le> length (c_in c)"
            if "u = Inr a" "v = Inr d" for a d
            using ih(3) [OF ne False w [symmetric] that(1) fl [symmetric] that(2)] le by simp
          have "b = None" using b by simp
          with t rd Inr r ne le False w fl ih3 show ?thesis
            by (subst shell_loop.simps) (cases u; cases v; simp)
        qed
      qed
    qed
  qed
qed

lemma handle_shell_c_in:
  "handle_shell_open unix y f (h, c) = Some (r, (h', c')) \<Longrightarrow> length (c_in c') \<le> length (c_in c)"
proof -
  assume a: "handle_shell_open unix y f (h, c) = Some (r, (h', c'))"
  have le: "shell_loop y p c = (q, p1, c1) \<Longrightarrow> length (c_in c1) \<le> length (c_in c)" for p q p1 c1
    using shell_loop_c_in [of y p c] by simp
  show ?thesis using a
    by (auto simp: handle_shell_open_def split: sum.splits prod.splits option.splits if_splits dest!: le)
qed

lemma daemon_shell_shrinks:
  "(Inr f, c1) = read_frame c \<Longrightarrow> handle_shell_open unix y f (h, c1) = Some (r, (h', c2)) \<Longrightarrow>
     length (c_in c2) < length (c_in c)"
  using handle_shell_c_in [of unix y f h c1 r h' c2] read_frame_shrinks [of c f c1] by simp

text \<open>Whatever the server sends next is served; frames of other operations are ignored.\<close>

function daemon_loop :: "'p system \<Rightarrow> exec_state \<Rightarrow> conn \<Rightarrow> (exec_state \<times> conn) option" where
  "daemon_loop sys st c =
     (case read_frame c of
        (Inl _, c) \<Rightarrow> Some (st, c)
      | (Inr f, c) \<Rightarrow>
          if f = [] then daemon_loop sys st c
          else if OP_LS \<le> f ! 0 \<and> f ! 0 \<le> OP_GET_fs
          then daemon_loop sys st (snd (fs_handle (sy_fs sys) f c))
          else if f ! 0 = OP_SHELL_OPEN
          then (case handle_shell_open (x_unix (sy_exec sys)) (sy_pty sys) f (p_host st, c) of
              None \<Rightarrow> None
            | Some (_, (h, c)) \<Rightarrow> daemon_loop sys (st\<lparr>p_host := h\<rparr>) c)
          else if f ! 0 = OP_EXEC_SCRIPT
          then (case snd (handle_exec_script (sy_exec sys) f (st, c)) of (st, c) \<Rightarrow> daemon_loop sys st c)
          else daemon_loop sys st c)"
  by pat_completeness auto
termination
  by (relation "measure (\<lambda>(sys, st, c). length (c_in c))")
    (auto simp: case_prod_beta dest: read_frame_shrinks [OF sym] daemon_shell_shrinks)

declare daemon_loop.simps [simp del]

definition env_or :: "host \<Rightarrow> rstr \<Rightarrow> rstr \<Rightarrow> rstr \<Rightarrow> rstr" where
  "env_or h a b dflt =
     (case h_env h a of
        Some v \<Rightarrow> v
      | None \<Rightarrow> (case h_env h b of Some v \<Rightarrow> v | None \<Rightarrow> dflt))"

definition registration :: "host \<Rightarrow> bytes" where
  "registration h =
     push_str (push_str [OP_REVERSE_REGISTER]
         (env_or h (lit ''HOSTNAME'') (lit ''COMPUTERNAME'') (lit ''anonymous'')))
       (env_or h (lit ''USER'') (lit ''USERNAME'') (lit ''unknown''))"

definition run_reverse_daemon ::
    "'p system \<Rightarrow> rstr list \<Rightarrow> exec_state \<Rightarrow> (unit outcome \<times> exec_state) option" where
  "run_reverse_daemon sys args st =
     (let (addr, _) = resolve_addr args PORT (p_host st);
          pw = session_password (p_host st);
          reg = registration (p_host st)
      in case connect (sy_transport sys) addr of
           Inl e \<Rightarrow> Some (Fail e, st)
         | Inr c \<Rightarrow>
             (case set_read_timeout None c of
                (Inl e, _) \<Rightarrow> Some (Fail e, st)
              | (Inr _, c) \<Rightarrow>
                  (case auth_client (sy_sha sys) pw False (p_host st, c) of
                     (Inl e, (h, _)) \<Rightarrow> Some (Fail e, st\<lparr>p_host := h\<rparr>)
                   | (Inr (ok, _), (h, c)) \<Rightarrow>
                       if \<not> ok
                       then Some (Exit 1, st\<lparr>p_host := remove_file (reverse_pid_file h) h\<rparr>)
                       else
                         (case write_frame reg c of
                            (Inl e, _) \<Rightarrow> Some (Fail e, st\<lparr>p_host := h\<rparr>)
                          | (Inr _, c) \<Rightarrow>
                              (case daemon_loop sys (st\<lparr>p_host := h\<rparr>) c of
                                 None \<Rightarrow> None
                               | Some (st, _) \<Rightarrow>
                                   Some (Done (),
                                     st\<lparr>p_host := remove_file (reverse_pid_file (p_host st)) (p_host st)\<rparr>))))))"

section \<open>The connect command\<close>

text \<open>\<^theory_text>\<open>windows(2).find_map\<close>: the argument after the first \<^theory_text>\<open>-l\<close> or \<^theory_text>\<open>--log\<close>.\<close>

fun find_log :: "rstr list \<Rightarrow> rstr option" where
  "find_log [] = None"
| "find_log [a] = None"
| "find_log (a # b # args) =
     (if a = lit ''-l'' \<or> a = lit ''--log'' then Some b else find_log (b # args))"

definition status_line :: "rstr \<Rightarrow> server_status io \<Rightarrow> rstr" where
  "status_line addr r =
     (case r of
        Inl _ \<Rightarrow> lit ''connected to '' @ addr
      | Inr s \<Rightarrow>
          lit ''connected to '' @ addr @ lit '' (server pid: '' @ decimal (ss_pid s) @ lit '', '' @
            decimal (length (ss_connections s)) @ lit '' active connection'' @
            (if length (ss_connections s) = 1 then [] else lit ''s'') @ lit '')'')"

definition connect_foreground ::
    "'p system \<Rightarrow> rstr list \<Rightarrow> rstr option \<Rightarrow> rstr \<Rightarrow> host \<Rightarrow> unit outcome \<times> host" where
  "connect_foreground sys args password addr h =
     (case connect (sy_transport sys) addr of
        Inl e \<Rightarrow> (Fail e, h)
      | Inr c \<Rightarrow>
          (case set_read_timeout (Some READ_TIMEOUT) c of
             (Inl e, _) \<Rightarrow> (Fail e, h)
           | (Inr _, c) \<Rightarrow>
               (case auth_client (sy_sha sys) password True (h, c) of
                  (Inl e, (h, _)) \<Rightarrow> (Fail e, h)
                | (Inr (ok, pw_used), (h, c)) \<Rightarrow>
                    if \<not> ok then (Exit 1, h)
                    else
                      (case save_session addr pw_used h of
                         (Inl e, h) \<Rightarrow> (Fail e, h)
                       | (Inr _, h) \<Rightarrow>
                           let line = status_line addr (fst (query_server_status c))
                           in (case spawn_daemon sys args (lit ''THRU_REVERSE_DAEMON'') (lit ''1'')
                                     (find_log args) h of
                                (Inl e, h) \<Rightarrow> (Fail e, h)
                              | (Inr pid, h) \<Rightarrow>
                                  (case fs_write (reverse_pid_file h) (decimal pid) h of
                                     (Inl e, h) \<Rightarrow> (Fail e, h)
                                   | (Inr _, h) \<Rightarrow>
                                       (Exit 0,
                                        put_line (lit ''reverse connection established (pid '' @ decimal pid @
                                            lit '') '' @ [0xE2, 0x80, 0x94] @
                                            lit '' server can now pull files from this machine'')
                                          (put_line line h))))))))"

definition connect_cmd ::
    "'p system \<Rightarrow> rstr list \<Rightarrow> exec_state \<Rightarrow> (unit outcome \<times> exec_state) option" where
  "connect_cmd sys args st =
     (let h = p_host st
      in if h_env h (lit ''THRU_REVERSE_DAEMON'') \<noteq> None then run_reverse_daemon sys args st
         else
           (case parse_password args of (password, rest) \<Rightarrow>
              (case find (\<lambda>a. 58 \<in> set a) rest of
                 None \<Rightarrow> Some (Exit 1, st)
               | Some addr \<Rightarrow>
                   if path_exists (reverse_pid_file h) h \<and> read_pid (reverse_pid_file h) h \<noteq> None
                   then Some (Exit 1, st)
                   else
                     (case connect_foreground sys args password addr h of
                        (r, h) \<Rightarrow> Some (r, st\<lparr>p_host := h\<rparr>)))))"

end
