(* ===== verification/Hash_Map.thy ===== *)
theory Hash_Map
  imports Thru_Prelude
begin

text \<open>
  The contract of the standard library's \<^theory_text>\<open>HashMap\<close> as the server uses it (locale \<open>hash_map\<close>):
  lookup, insert, remove, and iteration over every entry exactly once, in no particular order.
  The client lemmas are the size accounting the dictionary needs. The model's map is an
  association list; where the source iterates, the order is an argument of the model
  (\<open>iter_law\<close>: any permutation).
\<close>

lemma option_eqI: "(\<And>v. a = Some v \<longleftrightarrow> b = Some v) \<Longrightarrow> a = b"
  by (cases a; cases b) auto

locale hash_map =
  fixes lookup :: "'m \<Rightarrow> 'k \<Rightarrow> 'v option"
    and insrt :: "'k \<Rightarrow> 'v \<Rightarrow> 'm \<Rightarrow> 'm"
    and remov :: "'k \<Rightarrow> 'm \<Rightarrow> 'm"
    and items :: "'m \<Rightarrow> ('k \<times> 'v) list"
    and okm :: "'m \<Rightarrow> bool"
  assumes lookup_items: "okm m \<Longrightarrow> lookup m k = Some v \<longleftrightarrow> (k, v) \<in> set (items m)"
    and items_keys: "okm m \<Longrightarrow> distinct (map fst (items m))"
    and items_remov: "okm m \<Longrightarrow>
          mset (items (remov k m)) = filter_mset (\<lambda>p. fst p \<noteq> k) (mset (items m))"
    and items_insrt: "okm m \<Longrightarrow>
          mset (items (insrt k v m)) = add_mset (k, v) (mset (items (remov k m)))"
    and ok_remov: "okm m \<Longrightarrow> okm (remov k m)"
    and ok_insrt: "okm m \<Longrightarrow> okm (insrt k v m)"
begin

text \<open>The sum of a measure of the values.\<close>

definition weight :: "('v \<Rightarrow> nat) \<Rightarrow> 'm \<Rightarrow> nat" where
  "weight f m = (\<Sum>p \<in># mset (items m). f (snd p))"

lemma weight_list: "weight f m = sum_list (map (\<lambda>p. f (snd p)) (items m))"
  by (simp add: weight_def flip: sum_mset_sum_list)

lemma lookup_None: "okm m \<Longrightarrow> lookup m k = None \<longleftrightarrow> k \<notin> fst ` set (items m)"
proof -
  assume "okm m"
  then have "(\<exists>v. lookup m k = Some v) \<longleftrightarrow> (\<exists>v. (k, v) \<in> set (items m))"
    by (simp add: lookup_items)
  then show ?thesis by force
qed

lemma lookup_remov: "okm m \<Longrightarrow> lookup (remov k m) k' = (if k' = k then None else lookup m k')"
proof -
  assume m: "okm m"
  have "set (items (remov k m)) = {p \<in> set (items m). fst p \<noteq> k}"
    using arg_cong [OF items_remov [OF m, of k], of set_mset] by simp
  then have "lookup (remov k m) k' = Some v \<longleftrightarrow> k' \<noteq> k \<and> lookup m k' = Some v" for v
    using m ok_remov [OF m, of k] by (auto simp: lookup_items)
  then show ?thesis by (intro option_eqI) auto
qed

lemma lookup_insrt: "okm m \<Longrightarrow> lookup (insrt k v m) k' = (if k' = k then Some v else lookup m k')"
proof -
  assume m: "okm m"
  have "set (items (insrt k v m)) = insert (k, v) {p \<in> set (items m). fst p \<noteq> k}"
    using arg_cong [OF items_insrt [OF m, of k v], of set_mset] by (simp add: items_remov [OF m])
  then have "lookup (insrt k v m) k' = Some w \<longleftrightarrow>
      (if k' = k then w = v else lookup m k' = Some w)" for w
    using m ok_insrt [OF m, of k v] by (auto simp: lookup_items)
  then show ?thesis by (intro option_eqI) auto
qed

lemma items_split:
  assumes m: "okm m" and "lookup m k = Some v"
  shows "mset (items m) = add_mset (k, v) (mset (items (remov k m)))"
proof -
  have kv: "(k, v) \<in> set (items m)" using assms by (simp add: lookup_items)
  have d: "distinct (map fst (items m))" by (rule items_keys [OF m])
  have "filter_mset (\<lambda>p. fst p = k) (mset xs) = {#(k, v)#}"
    if "(k, v) \<in> set xs" "distinct (map fst xs)" for xs
    using that
  proof (induction xs)
    case (Cons x xs)
    show ?case
    proof (cases "fst x = k")
      case True
      with Cons.prems have "x = (k, v)" "k \<notin> fst ` set xs"
        by (auto simp: rev_image_eqI)
      then have "filter_mset (\<lambda>p. fst p = k) (mset xs) = {#}"
        by (auto simp: filter_mset_eq_mempty_iff image_iff)
      with \<open>x = (k, v)\<close> show ?thesis by simp
    next
      case False
      with Cons show ?thesis by auto
    qed
  qed simp
  from this [OF kv d] have "filter_mset (\<lambda>p. fst p = k) (mset (items m)) = {#(k, v)#}" .
  then show ?thesis
    using multiset_partition [of "mset (items m)" "\<lambda>p. fst p = k"] items_remov [OF m, of k] by simp
qed

lemma weight_remov_Some:
  "okm m \<Longrightarrow> lookup m k = Some v \<Longrightarrow> weight f m = f v + weight f (remov k m)"
  by (simp add: weight_def items_split)

lemma weight_remov_None: "okm m \<Longrightarrow> lookup m k = None \<Longrightarrow> weight f (remov k m) = weight f m"
proof -
  assume m: "okm m" "lookup m k = None"
  then have "filter_mset (\<lambda>p. fst p \<noteq> k) (mset (items m)) = mset (items m)"
    by (intro filter_mset_cong [THEN trans, OF refl _ filter_mset_True]) (force simp: lookup_None)
  then show ?thesis using m by (simp add: weight_def items_remov)
qed

lemma weight_remov_le: "okm m \<Longrightarrow> weight f (remov k m) \<le> weight f m"
  by (cases "lookup m k") (simp_all add: weight_remov_None weight_remov_Some)

lemma weight_insrt: "okm m \<Longrightarrow> weight f (insrt k v m) = f v + weight f (remov k m)"
  by (simp add: weight_def items_insrt)

lemma weight_ge: "okm m \<Longrightarrow> lookup m k = Some v \<Longrightarrow> f v \<le> weight f m"
  by (simp add: weight_remov_Some)

lemma items_all_remov:
  "okm m \<Longrightarrow> (\<forall>p \<in> set (items m). P p) \<Longrightarrow> (\<forall>p \<in> set (items (remov k m)). P p)"
  using arg_cong [OF items_remov [of m k], of set_mset] by auto

lemma items_all_insrt:
  "okm m \<Longrightarrow> (\<forall>p \<in> set (items m). P p) \<Longrightarrow> P (k, v) \<Longrightarrow>
     (\<forall>p \<in> set (items (insrt k v m)). P p)"
  using arg_cong [OF items_insrt [of m k v], of set_mset] items_all_remov [of m P k] by auto

end

section \<open>Association lists\<close>

definition hm_get :: "('k \<times> 'v) list \<Rightarrow> 'k \<Rightarrow> 'v option" where
  "hm_get m k = map_of m k"

definition hm_remove :: "'k \<Rightarrow> ('k \<times> 'v) list \<Rightarrow> ('k \<times> 'v) list" where
  "hm_remove k m = filter (\<lambda>p. fst p \<noteq> k) m"

definition hm_insert :: "'k \<Rightarrow> 'v \<Rightarrow> ('k \<times> 'v) list \<Rightarrow> ('k \<times> 'v) list" where
  "hm_insert k v m = (k, v) # hm_remove k m"

definition hm_ok :: "('k \<times> 'v) list \<Rightarrow> bool" where
  "hm_ok m \<longleftrightarrow> distinct (map fst m)"

interpretation hm: hash_map hm_get hm_insert hm_remove "\<lambda>m. m" hm_ok
proof (unfold_locales, goal_cases)
  case (5 m k)
  then show ?case by (simp add: hm_ok_def hm_remove_def distinct_map_filter)
next
  case (6 m k v)
  then show ?case
    by (auto simp: hm_ok_def hm_remove_def hm_insert_def distinct_map_filter)
qed (auto simp: hm_get_def hm_ok_def hm_insert_def hm_remove_def)

lemma hm_ok_Nil [simp]: "hm_ok []"
  by (simp add: hm_ok_def)

text \<open>Iteration visits every entry once, in an order the program cannot rely on.\<close>

definition iter_law :: "('a list \<Rightarrow> 'a list) \<Rightarrow> bool" where
  "iter_law it \<longleftrightarrow> (\<forall>xs. mset (it xs) = mset xs)"

lemma iter_set: "iter_law it \<Longrightarrow> set (it xs) = set xs"
  by (metis iter_law_def set_mset_mset)

lemma iter_length: "iter_law it \<Longrightarrow> length (it xs) = length xs"
  by (metis iter_law_def size_mset)

lemma iter_distinct: "iter_law it \<Longrightarrow> distinct (map fst (it m)) \<longleftrightarrow> distinct (map fst m)"
  by (metis iter_law_def mset_map mset_eq_imp_distinct_iff)

lemma iter_map_of: "iter_law it \<Longrightarrow> hm_ok m \<Longrightarrow> map_of (it m) = map_of m"
  by (rule map_of_inject_set [THEN iffD2]) (simp_all add: iter_distinct iter_set hm_ok_def)

lemma iter_law_rev: "iter_law rev"
  by (simp add: iter_law_def)

lemma iter_law_id: "iter_law (\<lambda>m. m)"
  by (simp add: iter_law_def)

end
