(* ===== verification/Dict.thy ===== *)
theory Dict
  imports Frame Hash_Map
begin

text \<open>
  The shared dictionary of the server (\<^theory_text>\<open>crates/thru-dict/src/lib.rs\<close>): request and response
  encoding, LRU eviction under the 1 GiB cap, and \<^theory_text>\<open>Dict::handle\<close> with every operation and
  error branch. \<open>iter\<close> is the hash map's iteration order and \<open>now\<close> the clock. The invariant
  \<open>dict_inv\<close> ties the byte counter to the map; \<open>contents\<close> abstracts a dictionary to the map from
  keys to values a client sees.
\<close>

section \<open>Constants and wire format\<close>

definition OP_GET :: u8 where "OP_GET = 0"
definition OP_SET :: u8 where "OP_SET = 1"
definition OP_APPEND :: u8 where "OP_APPEND = 2"
definition OP_DEL :: u8 where "OP_DEL = 3"
definition OP_KEYS :: u8 where "OP_KEYS = 4"
definition OP_ALL :: u8 where "OP_ALL = 5"

lemmas op_defs = OP_GET_def OP_SET_def OP_APPEND_def OP_DEL_def OP_KEYS_def OP_ALL_def

definition MAX_VALUE_SIZE :: nat where "MAX_VALUE_SIZE = 10 * 1024 * 1024"
definition MAX_TOTAL_SIZE :: nat where "MAX_TOTAL_SIZE = 1024 * 1024 * 1024"

lemmas size_defs = MAX_VALUE_SIZE_def MAX_TOTAL_SIZE_def

definition req :: "u8 \<Rightarrow> bytes \<Rightarrow> bytes \<Rightarrow> bytes" where
  "req op key val = push_u16 [op] (of_nat (length key)) @ key @ val"

definition resp :: "u8 \<Rightarrow> bytes \<Rightarrow> bytes" where
  "resp status payload = status # payload"

section \<open>State\<close>

record entry =
  e_value :: bytes
  e_access :: nat

lemma entry_update [simp]: "e\<lparr>e_value := v, e_access := t\<rparr> = \<lparr>e_value = v, e_access = t\<rparr>"
  by (cases e) simp

record dict =
  d_map :: "(rstr \<times> entry) list"
  total_bytes :: nat
  poisoned :: bool

type_synonym iter = "(rstr \<times> entry) list \<Rightarrow> (rstr \<times> entry) list"

definition dict_new :: dict where
  "dict_new = \<lparr>d_map = [], total_bytes = 0, poisoned = False\<rparr>"

text \<open>\<^theory_text>\<open>usize\<close> arithmetic on a 64-bit target: saturating, and wrapping in a release build.\<close>

definition USIZE_MAX :: nat where "USIZE_MAX = 18446744073709551615"

definition sat_add :: "nat \<Rightarrow> nat \<Rightarrow> nat" where
  "sat_add a b = min (a + b) USIZE_MAX"

definition usize_add :: "nat \<Rightarrow> nat \<Rightarrow> nat" where
  "usize_add a b = (a + b) mod (USIZE_MAX + 1)"

section \<open>Eviction\<close>

definition fits :: "nat \<Rightarrow> dict \<Rightarrow> bool" where
  "fits needed d \<longleftrightarrow> sat_add (total_bytes d) needed \<le> MAX_TOTAL_SIZE"

text \<open>Removing a key gives its bytes back; an absent key changes nothing.\<close>

definition remove_key :: "rstr \<Rightarrow> dict \<Rightarrow> dict" where
  "remove_key k d =
     (case hm_get (d_map d) k of
        None \<Rightarrow> d
      | Some e \<Rightarrow> d\<lparr>d_map := hm_remove k (d_map d),
                   total_bytes := total_bytes d - length (e_value e)\<rparr>)"

fun evict_loop :: "rstr list \<Rightarrow> nat \<Rightarrow> dict \<Rightarrow> bool \<times> dict" where
  "evict_loop [] needed d = (fits needed d, d)"
| "evict_loop (k # ks) needed d =
     (if fits needed d then (True, d) else evict_loop ks needed (remove_key k d))"

definition lru_keys :: "iter \<Rightarrow> dict \<Rightarrow> rstr list" where
  "lru_keys it d =
     map fst (sort_key snd (map (\<lambda>(k, e). (k, e_access e)) (it (d_map d))))"

definition evict_until :: "iter \<Rightarrow> nat \<Rightarrow> dict \<Rightarrow> bool \<times> dict" where
  "evict_until it needed d =
     (if fits needed d then (True, d) else evict_loop (lru_keys it d) needed d)"

section \<open>Operations\<close>

definition dict_get :: "nat \<Rightarrow> rstr \<Rightarrow> dict \<Rightarrow> bytes \<times> dict" where
  "dict_get now key d =
     (case hm_get (d_map d) key of
        Some e \<Rightarrow> (resp ST_OK (e_value e),
                   d\<lparr>d_map := hm_insert key (e\<lparr>e_access := now\<rparr>) (d_map d)\<rparr>)
      | None \<Rightarrow> (resp ST_NOT_FOUND [], d))"

definition oom_msg :: rstr where
  "oom_msg = lit ''dict out of memory (1GB limit, LRU eviction failed)''"

definition dict_set :: "iter \<Rightarrow> nat \<Rightarrow> rstr \<Rightarrow> bytes \<Rightarrow> dict \<Rightarrow> bytes \<times> dict" where
  "dict_set it now key val d =
     (if length val > MAX_VALUE_SIZE then (resp ST_ERR (lit ''value exceeds 10MB limit''), d)
      else (case evict_until it (length val) (remove_key key d) of
          (False, d1) \<Rightarrow> (resp ST_ERR oom_msg, d1)
        | (True, d1) \<Rightarrow>
            (resp ST_OK [],
             d1\<lparr>total_bytes := usize_add (total_bytes d1) (length val),
                d_map := hm_insert key \<lparr>e_value = val, e_access = now\<rparr> (d_map d1)\<rparr>)))"

definition dict_append :: "iter \<Rightarrow> nat \<Rightarrow> rstr \<Rightarrow> bytes \<Rightarrow> dict \<Rightarrow> bytes \<times> dict" where
  "dict_append it now key val d =
     (let current_len = (case hm_get (d_map d) key of Some e \<Rightarrow> length (e_value e) | None \<Rightarrow> 0);
          new_len = sat_add current_len (length val)
      in if new_len > MAX_VALUE_SIZE
         then (resp ST_ERR (lit ''value exceeds 10MB limit after append''), d)
         else (case evict_until it (length val) d of
             (False, d1) \<Rightarrow> (resp ST_ERR oom_msg, d1)
           | (True, d1) \<Rightarrow>
               (let e = (case hm_get (d_map d1) key of
                           Some e \<Rightarrow> e
                         | None \<Rightarrow> \<lparr>e_value = [], e_access = now\<rparr>)
                in (resp ST_OK [],
                    d1\<lparr>d_map := hm_insert key
                              (e\<lparr>e_value := e_value e @ val, e_access := now\<rparr>) (d_map d1),
                       total_bytes := sat_add (total_bytes d1) (length val)\<rparr>))))"

definition dict_del :: "rstr \<Rightarrow> dict \<Rightarrow> bytes \<times> dict" where
  "dict_del key d = (resp ST_OK [], remove_key key d)"

text \<open>\<^theory_text>\<open>join\<close> of the standard library.\<close>

fun join :: "rstr \<Rightarrow> rstr list \<Rightarrow> rstr" where
  "join sep [] = []"
| "join sep [w] = w"
| "join sep (w # v # ws) = w @ sep @ join sep (v # ws)"

definition dict_keys :: "iter \<Rightarrow> dict \<Rightarrow> bytes \<times> dict" where
  "dict_keys it d = (resp ST_OK (join [10] (map fst (it (d_map d)))), d)"

definition all_entry :: "rstr \<times> bytes \<Rightarrow> bytes" where
  "all_entry p = push_u32 (push_str [] (fst p)) (of_nat (length (snd p))) @ snd p"

definition dict_all :: "iter \<Rightarrow> dict \<Rightarrow> bytes \<times> dict" where
  "dict_all it d =
     (resp ST_OK (concat (map (\<lambda>(k, e). all_entry (k, e_value e)) (it (d_map d)))), d)"

definition dict_op :: "iter \<Rightarrow> nat \<Rightarrow> u8 \<Rightarrow> rstr \<Rightarrow> bytes \<Rightarrow> dict \<Rightarrow> bytes \<times> dict" where
  "dict_op it now op key val d =
     (if op = OP_GET then dict_get now key d
      else if op = OP_SET then dict_set it now key val d
      else if op = OP_APPEND then dict_append it now key val d
      else if op = OP_DEL then dict_del key d
      else if op = OP_KEYS then dict_keys it d
      else if op = OP_ALL then dict_all it d
      else (resp ST_ERR (lit ''unknown operation''), d))"

definition dict_handle :: "iter \<Rightarrow> nat \<Rightarrow> bytes \<Rightarrow> dict \<Rightarrow> bytes \<times> dict" where
  "dict_handle it now data d =
     (if length data < 3 then (resp ST_ERR (lit ''truncated request''), d)
      else
        let op = data ! 0;
            klen = unat (u16_of_be [data ! 1, data ! 2])
        in if length data < 3 + klen then (resp ST_ERR (lit ''truncated key''), d)
           else (case from_utf8 (take klen (drop 3 data)) of
               None \<Rightarrow> (resp ST_ERR (lit ''invalid key encoding''), d)
             | Some key \<Rightarrow>
                 (if poisoned d then (resp ST_ERR (lit ''dict internal lock poisoned''), d)
                  else dict_op it now op key (drop (3 + klen) data) d)))"

section \<open>Invariant and abstraction\<close>

definition stored_bytes :: "dict \<Rightarrow> nat" where
  "stored_bytes d = sum_list (map (\<lambda>p. length (e_value (snd p))) (d_map d))"

definition entry_ok :: "rstr \<times> entry \<Rightarrow> bool" where
  "entry_ok p \<longleftrightarrow> str_ok (fst p) \<and> length (e_value (snd p)) \<le> MAX_VALUE_SIZE"

definition dict_inv :: "dict \<Rightarrow> bool" where
  "dict_inv d \<longleftrightarrow> hm_ok (d_map d) \<and> total_bytes d = stored_bytes d \<and>
     total_bytes d \<le> MAX_TOTAL_SIZE \<and> (\<forall>p \<in> set (d_map d). entry_ok p)"

definition dict_lookup :: "dict \<Rightarrow> rstr \<Rightarrow> entry option" where
  "dict_lookup d k = hm_get (d_map d) k"

definition contents :: "dict \<Rightarrow> rstr \<Rightarrow> bytes option" where
  "contents d k = map_option e_value (dict_lookup d k)"

lemma stored_weight: "stored_bytes d = hm.weight (\<lambda>e. length (e_value e)) (d_map d)"
  by (simp add: stored_bytes_def hm.weight_list)

lemma dict_invI:
  "hm_ok (d_map d) \<Longrightarrow> total_bytes d = stored_bytes d \<Longrightarrow> total_bytes d \<le> MAX_TOTAL_SIZE \<Longrightarrow>
     (\<forall>p \<in> set (d_map d). entry_ok p) \<Longrightarrow> dict_inv d"
  by (simp add: dict_inv_def)

lemma dict_inv_new: "dict_inv dict_new"
  by (simp add: dict_inv_def dict_new_def stored_bytes_def)

lemma remove_key_inv: "dict_inv d \<Longrightarrow> dict_inv (remove_key k d)"
proof (cases "hm_get (d_map d) k")
  case None
  then show "dict_inv d \<Longrightarrow> ?thesis" by (simp add: remove_key_def)
next
  case (Some e)
  assume inv: "dict_inv d"
  then have "hm.weight (\<lambda>e. length (e_value e)) (d_map d) =
      length (e_value e) + hm.weight (\<lambda>e. length (e_value e)) (hm_remove k (d_map d))"
    by (simp add: dict_inv_def hm.weight_remov_Some [OF _ Some])
  with inv Some show ?thesis
    using hm.items_all_remov [of "d_map d" entry_ok k]
    by (simp add: dict_inv_def remove_key_def stored_weight hm.ok_remov)
qed

lemma remove_key_lookup:
  "hm_ok (d_map d) \<Longrightarrow> dict_lookup (remove_key k d) k' = (if k' = k then None else dict_lookup d k')"
  by (auto simp: dict_lookup_def remove_key_def hm.lookup_remov split: option.splits)

lemma remove_key_other [simp]: "poisoned (remove_key k d) = poisoned d"
  by (simp add: remove_key_def split: option.splits)

lemma remove_key_total_le: "total_bytes (remove_key k d) \<le> total_bytes d"
  by (simp add: remove_key_def split: option.splits)

definition evicted :: "rstr list \<Rightarrow> dict \<Rightarrow> dict" where
  "evicted ks d = fold remove_key ks d"

lemma evicted_simps [simp]:
  "evicted [] d = d" "evicted (k # ks) d = evicted ks (remove_key k d)"
  by (simp_all add: evicted_def)

lemma evicted_inv: "dict_inv d \<Longrightarrow> dict_inv (evicted ks d)"
  by (induction ks arbitrary: d) (simp_all add: remove_key_inv)

lemma evicted_poisoned [simp]: "poisoned (evicted ks d) = poisoned d"
  by (induction ks arbitrary: d) simp_all

lemma evicted_lookup:
  "dict_inv d \<Longrightarrow> dict_lookup (evicted ks d) k = (if k \<in> set ks then None else dict_lookup d k)"
proof (induction ks arbitrary: d)
  case (Cons j ks)
  from Cons.IH [OF remove_key_inv [OF Cons.prems, of j]] Cons.prems show ?case
    by (auto simp: remove_key_lookup dict_inv_def)
qed simp

lemma dict_inv_empty:
  assumes "dict_inv d" and "\<And>k. dict_lookup d k = None"
  shows "d_map d = [] \<and> total_bytes d = 0"
proof -
  have "d_map d = []"
  proof (rule ccontr)
    assume "d_map d \<noteq> []"
    then obtain k e r where "d_map d = (k, e) # r" by (cases "d_map d") auto
    then have "dict_lookup d k = Some e" by (simp add: dict_lookup_def hm_get_def)
    with assms(2) [of k] show False by simp
  qed
  with assms(1) show ?thesis by (simp add: dict_inv_def stored_bytes_def)
qed

section \<open>Eviction: enough, least recently used, and no more than needed\<close>

lemma fits_iff:
  "total_bytes d \<le> MAX_TOTAL_SIZE \<Longrightarrow> fits n d \<longleftrightarrow> total_bytes d + n \<le> MAX_TOTAL_SIZE"
  by (auto simp: fits_def sat_add_def size_defs USIZE_MAX_def)

lemma evict_loop_spec:
  "\<exists>m \<le> length ks. evict_loop ks n d = (fits n (evicted (take m ks) d), evicted (take m ks) d) \<and>
     (\<forall>j < m. \<not> fits n (evicted (take j ks) d)) \<and>
     (m < length ks \<longrightarrow> fits n (evicted (take m ks) d))"
proof (induction ks arbitrary: d)
  case (Cons k ks)
  show ?case
  proof (cases "fits n d")
    case True
    then show ?thesis by (intro exI [of _ 0]) simp
  next
    case False
    from Cons [of "remove_key k d"] obtain m where m: "m \<le> length ks"
      "evict_loop ks n (remove_key k d) =
         (fits n (evicted (take m ks) (remove_key k d)), evicted (take m ks) (remove_key k d))"
      "\<forall>j < m. \<not> fits n (evicted (take j ks) (remove_key k d))"
      "m < length ks \<longrightarrow> fits n (evicted (take m ks) (remove_key k d))" by blast
    have "\<not> fits n (evicted (take j (k # ks)) d)" if "j < Suc m" for j
      using that m(3) False by (cases j) auto
    with m False show ?thesis by (intro exI [of _ "Suc m"]) simp
  qed
qed simp

lemma evict_until_spec:
  "\<exists>m \<le> length (lru_keys it d).
     evict_until it n d =
       (fits n (evicted (take m (lru_keys it d)) d), evicted (take m (lru_keys it d)) d) \<and>
     (\<forall>j < m. \<not> fits n (evicted (take j (lru_keys it d)) d)) \<and>
     (m < length (lru_keys it d) \<longrightarrow> fits n (evicted (take m (lru_keys it d)) d))"
proof (cases "fits n d")
  case True
  then show ?thesis by (intro exI [of _ 0]) (simp add: evict_until_def)
next
  case False
  then show ?thesis using evict_loop_spec [of "lru_keys it d" n d] by (simp add: evict_until_def)
qed

lemma lru_keys_set: "iter_law it \<Longrightarrow> set (lru_keys it d) = fst ` set (d_map d)"
  by (force simp: lru_keys_def iter_set)

lemma evict_until_inv: "dict_inv d \<Longrightarrow> dict_inv (snd (evict_until it n d))"
  using evict_until_spec [of it d n] by (auto simp: evicted_inv)

lemma evict_until_poisoned [simp]: "poisoned (snd (evict_until it n d)) = poisoned d"
  using evict_until_spec [of it d n] by auto

lemma evict_until_lookup:
  "dict_inv d \<Longrightarrow> dict_lookup (snd (evict_until it n d)) k = None \<or>
     dict_lookup (snd (evict_until it n d)) k = dict_lookup d k"
  using evict_until_spec [of it d n] by (auto simp: evicted_lookup)

lemma evict_until_noop: "fits n d \<Longrightarrow> evict_until it n d = (True, d)"
  by (simp add: evict_until_def)

text \<open>Under the invariant there is always enough to evict.\<close>

lemma evict_until_succeeds:
  assumes inv: "dict_inv d" and it: "iter_law it" and n: "n \<le> MAX_TOTAL_SIZE"
  shows "fst (evict_until it n d)"
    and "total_bytes (snd (evict_until it n d)) + n \<le> MAX_TOTAL_SIZE"
proof -
  let ?ks = "lru_keys it d"
  from evict_until_spec [of it d n] obtain m where m: "m \<le> length ?ks"
    "evict_until it n d = (fits n (evicted (take m ?ks) d), evicted (take m ?ks) d)"
    "m < length ?ks \<longrightarrow> fits n (evicted (take m ?ks) d)" by blast
  have "fits n (evicted (take m ?ks) d)"
  proof (cases "m < length ?ks")
    case False
    with m(1) have all: "take m ?ks = ?ks" by simp
    have "dict_lookup (evicted ?ks d) k = None" for k
    proof (cases "k \<in> set ?ks")
      case False
      with inv have "dict_lookup d k = None"
        by (simp add: lru_keys_set [OF it] dict_lookup_def dict_inv_def hm.lookup_None)
      with inv show ?thesis by (simp add: evicted_lookup)
    qed (simp add: evicted_lookup inv)
    then have "total_bytes (evicted ?ks d) = 0"
      using dict_inv_empty [OF evicted_inv [OF inv]] by blast
    with n show ?thesis by (simp add: all fits_iff)
  qed (use m(3) in blast)
  with m(2) fits_iff [of "evicted (take m ?ks) d" n] evicted_inv [OF inv, of "take m ?ks"]
  show "fst (evict_until it n d)"
    and "total_bytes (snd (evict_until it n d)) + n \<le> MAX_TOTAL_SIZE"
    by (auto simp: dict_inv_def)
qed

lemma sorted_take_drop:
  assumes "sorted (map f xs)" and "x \<in> set (take m xs)" and "y \<in> set (drop m xs)"
  shows "f x \<le> f y"
proof -
  have "sorted (map f (take m xs) @ map f (drop m xs))"
    using assms(1) by (metis append_take_drop_id map_append)
  with assms(2,3) show ?thesis by (auto simp: sorted_append)
qed

lemma lru_order:
  assumes inv: "dict_inv d" and it: "iter_law it"
    and "k \<in> set (take m (lru_keys it d))" and e: "dict_lookup d k = Some e"
    and "k' \<notin> set (take m (lru_keys it d))" and e': "dict_lookup d k' = Some e'"
  shows "e_access e \<le> e_access e'"
proof -
  define L where "L = sort_key snd (map (\<lambda>(k, e). (k, e_access e)) (it (d_map d)))"
  have keys: "lru_keys it d = map fst L" by (simp add: lru_keys_def L_def)
  have sorted: "sorted (map snd L)" by (simp add: L_def)
  have L: "set L = (\<lambda>(k, e). (k, e_access e)) ` set (d_map d)"
    by (simp add: L_def iter_set [OF it])
  have acc: "a = e_access x" if "(j, a) \<in> set L" "dict_lookup d j = Some x" for j a x
  proof -
    from that(1) L obtain y where "(j, y) \<in> set (d_map d)" "a = e_access y" by auto
    with inv that(2) show ?thesis
      by (simp add: dict_lookup_def dict_inv_def flip: hm.lookup_items)
  qed
  have "(k', e') \<in> set (d_map d)"
    using e' inv by (simp add: dict_lookup_def dict_inv_def hm.lookup_items)
  with L have "(k', e_access e') \<in> set L" by force
  moreover from assms(5) have "(k', e_access e') \<notin> set (take m L)"
    by (force simp: keys take_map)
  ultimately have right: "(k', e_access e') \<in> set (drop m L)"
    by (metis Un_iff append_take_drop_id set_append)
  from assms(3) obtain a where left: "(k, a) \<in> set (take m L)" by (auto simp: keys take_map)
  with acc [of k a e] e have "a = e_access e" by (meson in_set_takeD)
  with sorted_take_drop [OF sorted left right] show ?thesis by simp
qed

section \<open>What each operation does\<close>

lemma store_inv:
  assumes inv: "dict_inv d" and e: "str_ok key" "length (e_value e) \<le> MAX_VALUE_SIZE"
    and tot: "stored_bytes (remove_key key d) + length (e_value e) = t" "t \<le> MAX_TOTAL_SIZE"
  shows "dict_inv (d\<lparr>d_map := hm_insert key e (d_map d), total_bytes := t\<rparr>)"
proof -
  from inv have ok: "hm_ok (d_map d)" and all: "\<forall>p \<in> set (d_map d). entry_ok p"
    by (simp_all add: dict_inv_def)
  have "hm.weight (\<lambda>e. length (e_value e)) (hm_remove key (d_map d)) = stored_bytes (remove_key key d)"
    using ok by (simp add: stored_weight remove_key_def hm.weight_remov_None split: option.splits)
  with tot ok all e show ?thesis
    using hm.items_all_insrt [of "d_map d" entry_ok key e]
    by (intro dict_invI) (simp_all add: stored_weight hm.weight_insrt hm.ok_insrt entry_ok_def)
qed

lemma stored_remove_key:
  "dict_inv d \<Longrightarrow> stored_bytes (remove_key k d) + (case dict_lookup d k of Some e \<Rightarrow> length (e_value e) | None \<Rightarrow> 0)
     = total_bytes d"
  by (auto simp: dict_inv_def stored_weight remove_key_def dict_lookup_def hm.weight_remov_Some
      split: option.splits)

lemma usize_add_small: "a + b \<le> MAX_TOTAL_SIZE \<Longrightarrow> usize_add a b = a + b"
  by (simp add: usize_add_def USIZE_MAX_def size_defs)

lemma sat_add_small: "a + b \<le> MAX_TOTAL_SIZE \<Longrightarrow> sat_add a b = a + b"
  by (simp add: sat_add_def USIZE_MAX_def size_defs)

lemma sat_add_gt: "c < USIZE_MAX \<Longrightarrow> sat_add a b > c \<longleftrightarrow> a + b > c"
  by (auto simp: sat_add_def)

lemma insert_lookup:
  "hm_ok (d_map d) \<Longrightarrow> dict_lookup (d\<lparr>d_map := hm_insert key e (d_map d), total_bytes := t\<rparr>) k =
     (if k = key then Some e else dict_lookup d k)"
  by (simp add: dict_lookup_def hm.lookup_insrt)

text \<open>The state eviction leaves for a write of \<open>n\<close> bytes, with its guarantees in one place.\<close>

definition make_room :: "iter \<Rightarrow> nat \<Rightarrow> dict \<Rightarrow> dict" where
  "make_room it n d = snd (evict_until it n d)"

lemma make_room:
  assumes "dict_inv d" and "iter_law it" and "n \<le> MAX_TOTAL_SIZE"
  shows "evict_until it n d = (True, make_room it n d)"
    and "dict_inv (make_room it n d)"
    and "total_bytes (make_room it n d) + n \<le> MAX_TOTAL_SIZE"
    and "dict_lookup (make_room it n d) k = None \<or> dict_lookup (make_room it n d) k = dict_lookup d k"
    and "poisoned (make_room it n d) = poisoned d"
    and "total_bytes d + n \<le> MAX_TOTAL_SIZE \<Longrightarrow> make_room it n d = d"
  using assms evict_until_succeeds [OF assms] evict_until_inv [of d it n]
    evict_until_lookup [of d it n k] evict_until_noop [of n d it] fits_iff [of d n]
  by (auto simp: make_room_def dict_inv_def prod_eq_iff)

lemma value_le_total: "n \<le> MAX_VALUE_SIZE \<Longrightarrow> n \<le> MAX_TOTAL_SIZE"
  by (simp add: size_defs)

lemma dict_get_Some:
  "dict_lookup d key = Some e \<Longrightarrow>
     dict_get now key d =
       (resp ST_OK (e_value e), d\<lparr>d_map := hm_insert key (e\<lparr>e_access := now\<rparr>) (d_map d)\<rparr>)"
  by (simp add: dict_get_def dict_lookup_def)

lemma dict_get_None:
  "dict_lookup d key = None \<Longrightarrow> dict_get now key d = (resp ST_NOT_FOUND [], d)"
  by (simp add: dict_get_def dict_lookup_def)

lemma dict_set_ok:
  fixes key :: rstr and val :: bytes
  assumes "dict_inv d" and "iter_law it" and "length val \<le> MAX_VALUE_SIZE"
  defines "d1 \<equiv> make_room it (length val) (remove_key key d)"
  shows "dict_set it now key val d =
    (resp ST_OK [], d1\<lparr>d_map := hm_insert key \<lparr>e_value = val, e_access = now\<rparr> (d_map d1),
                       total_bytes := total_bytes d1 + length val\<rparr>)"
  using assms make_room(1,3) [OF remove_key_inv [OF assms(1)] assms(2) value_le_total [OF assms(3)]]
  by (simp add: dict_set_def usize_add_small)

lemma dict_append_ok:
  fixes key :: rstr and val :: bytes
  assumes "dict_inv d" and "iter_law it"
    and "length (case contents d key of Some v \<Rightarrow> v @ val | None \<Rightarrow> val) \<le> MAX_VALUE_SIZE"
  defines "d1 \<equiv> make_room it (length val) d"
  shows "dict_append it now key val d =
    (resp ST_OK [],
     d1\<lparr>d_map := hm_insert key
          \<lparr>e_value = (case contents d1 key of Some v \<Rightarrow> v @ val | None \<Rightarrow> val), e_access = now\<rparr>
          (d_map d1),
        total_bytes := total_bytes d1 + length val\<rparr>)"
proof -
  have len: "length val \<le> MAX_VALUE_SIZE" using assms(3) by (auto split: option.splits)
  have "\<not> sat_add (case hm_get (d_map d) key of Some e \<Rightarrow> length (e_value e) | None \<Rightarrow> 0) (length val)
      > MAX_VALUE_SIZE"
    using assms(3) by (subst sat_add_gt)
      (auto simp: contents_def dict_lookup_def size_defs USIZE_MAX_def split: option.splits)
  then show ?thesis
    using assms(1,2) make_room(1,3) [OF assms(1,2) value_le_total [OF len]]
    by (auto simp: dict_append_def Let_def sat_add_small contents_def dict_lookup_def d1_def
        split: option.splits)
qed

lemma dict_get_inv: "dict_inv d \<Longrightarrow> dict_inv (snd (dict_get now key d))"
proof (cases "dict_lookup d key")
  case (Some e)
  assume inv: "dict_inv d"
  with Some have p: "(key, e) \<in> set (d_map d)"
    by (simp add: dict_lookup_def dict_inv_def hm.lookup_items)
  with inv have "str_ok key" "length (e_value e) \<le> MAX_VALUE_SIZE"
    by (auto simp: dict_inv_def entry_ok_def)
  moreover have "stored_bytes (remove_key key d) + length (e_value e) = total_bytes d"
    using stored_remove_key [OF inv, of key] Some by simp
  moreover have "total_bytes d \<le> MAX_TOTAL_SIZE" using inv by (simp add: dict_inv_def)
  ultimately show ?thesis
    using store_inv [OF inv, of key "e\<lparr>e_access := now\<rparr>" "total_bytes d"]
    by (simp add: dict_get_Some [OF Some])
qed (simp add: dict_get_None)

lemma remove_key_absent: "dict_lookup d k = None \<Longrightarrow> remove_key k d = d"
  by (simp add: remove_key_def dict_lookup_def)

lemma dict_set_inv:
  assumes inv: "dict_inv d" and it: "iter_law it" and k: "str_ok key"
  shows "dict_inv (snd (dict_set it now key val d))"
proof (cases "length val \<le> MAX_VALUE_SIZE")
  case False
  then show ?thesis using inv by (simp add: dict_set_def)
next
  case True
  let ?d1 = "make_room it (length val) (remove_key key d)"
  note r = make_room [OF remove_key_inv [OF inv, of key] it value_le_total [OF True]]
  have "dict_lookup (remove_key key d) key = None"
    using inv by (simp add: remove_key_lookup dict_inv_def)
  with r(4) [of key] have "dict_lookup ?d1 key = None" by auto
  then have "stored_bytes (remove_key key ?d1) = total_bytes ?d1"
    using r(2) by (simp add: remove_key_absent dict_inv_def)
  with k True r(2,3) show ?thesis
    using store_inv [of ?d1 key "\<lparr>e_value = val, e_access = now\<rparr>" "total_bytes ?d1 + length val"]
    by (simp add: dict_set_ok [OF inv it True])
qed

lemma contents_le: "dict_inv d \<Longrightarrow> contents d k = Some v \<Longrightarrow> length v \<le> MAX_VALUE_SIZE"
  by (force simp: contents_def dict_lookup_def dict_inv_def hm.lookup_items entry_ok_def)

lemma dict_append_inv:
  assumes inv: "dict_inv d" and it: "iter_law it" and k: "str_ok key"
  shows "dict_inv (snd (dict_append it now key val d))"
proof (cases "length (case contents d key of Some v \<Rightarrow> v @ val | None \<Rightarrow> val) \<le> MAX_VALUE_SIZE")
  case False
  then have "sat_add (case hm_get (d_map d) key of Some e \<Rightarrow> length (e_value e) | None \<Rightarrow> 0) (length val)
      > MAX_VALUE_SIZE"
    by (subst sat_add_gt)
      (auto simp: contents_def dict_lookup_def size_defs USIZE_MAX_def split: option.splits)
  then show ?thesis using inv by (simp add: dict_append_def)
next
  case True
  let ?d1 = "make_room it (length val) d"
  let ?v = "case contents ?d1 key of Some v \<Rightarrow> v @ val | None \<Rightarrow> val"
  from True have len: "length val \<le> MAX_VALUE_SIZE" by (auto split: option.splits)
  note r = make_room [OF inv it value_le_total [OF len]]
  have "length ?v \<le> MAX_VALUE_SIZE"
    using True len r(4) [of key] by (auto simp: contents_def split: option.splits)
  moreover have "stored_bytes (remove_key key ?d1) + length ?v = total_bytes ?d1 + length val"
    using stored_remove_key [OF r(2), of key] by (auto simp: contents_def split: option.splits)
  ultimately show ?thesis
    using store_inv [OF r(2) k, of "\<lparr>e_value = ?v, e_access = now\<rparr>"] r(3)
    by (simp add: dict_append_ok [OF inv it True])
qed

lemma dict_op_inv:
  assumes "dict_inv d" and "iter_law it" and "str_ok key"
  shows "dict_inv (snd (dict_op it now op key val d))"
  using assms
  by (simp add: dict_op_def dict_get_inv dict_set_inv dict_append_inv dict_del_def remove_key_inv
      dict_keys_def dict_all_def)

end
