(* ===== verification/Dict_Spec.thy ===== *)
theory Dict_Spec
  imports Dict
begin

text \<open>
  What the dictionary promises: \<open>dict_spec\<close>, a relation on plain maps from keys to values, in
  which a write may drop other entries only when the 1 GiB cap would be passed. The operations
  of \<open>Dict\<close> refine it (\<open>dict_refines_spec\<close>), keep the invariant for every input, and answer
  malformed requests with an error and no effect.
\<close>

section \<open>The abstract dictionary\<close>

definition map_size :: "(rstr \<rightharpoonup> bytes) \<Rightarrow> nat" where
  "map_size m = (\<Sum>k \<in> dom m. length (the (m k)))"

definition appended :: "bytes option \<Rightarrow> bytes \<Rightarrow> bytes" where
  "appended old v = (case old of None \<Rightarrow> v | Some u \<Rightarrow> u @ v)"

text \<open>
  \<open>E\<close> is the set of evicted keys: empty unless \<open>need\<close> more bytes would not fit.
\<close>

definition may_evict :: "(rstr \<rightharpoonup> bytes) \<Rightarrow> nat \<Rightarrow> rstr set \<Rightarrow> bool" where
  "may_evict m need E \<longleftrightarrow> E = {} \<or> map_size m + need > MAX_TOTAL_SIZE"

inductive dict_spec ::
    "(rstr \<rightharpoonup> bytes) \<Rightarrow> u8 \<Rightarrow> rstr \<Rightarrow> bytes \<Rightarrow> bytes \<Rightarrow> (rstr \<rightharpoonup> bytes) \<Rightarrow> bool" where
  get_hit: "m k = Some v \<Longrightarrow> dict_spec m OP_GET k w (resp ST_OK v) m"
| get_miss: "m k = None \<Longrightarrow> dict_spec m OP_GET k w (resp ST_NOT_FOUND []) m"
| set_ok: "length v \<le> MAX_VALUE_SIZE \<Longrightarrow> may_evict (m(k := None)) (length v) E \<Longrightarrow>
    dict_spec m OP_SET k v (resp ST_OK []) ((m |` (- E))(k \<mapsto> v))"
| set_big: "length v > MAX_VALUE_SIZE \<Longrightarrow>
    dict_spec m OP_SET k v (resp ST_ERR (lit ''value exceeds 10MB limit'')) m"
| append_ok: "length (appended (m k) v) \<le> MAX_VALUE_SIZE \<Longrightarrow> may_evict m (length v) E \<Longrightarrow>
    dict_spec m OP_APPEND k v (resp ST_OK []) ((m |` (- E))(k \<mapsto> appended ((m |` (- E)) k) v))"
| append_big: "length (appended (m k) v) > MAX_VALUE_SIZE \<Longrightarrow>
    dict_spec m OP_APPEND k v (resp ST_ERR (lit ''value exceeds 10MB limit after append'')) m"
| del: "dict_spec m OP_DEL k w (resp ST_OK []) (m(k := None))"

inductive_simps dict_spec_get: "dict_spec m OP_GET k v r m'"
inductive_simps dict_spec_set: "dict_spec m OP_SET k v r m'"
inductive_cases dict_specE: "dict_spec m op k v r m'"

section \<open>Abstraction lemmas\<close>

lemma contents_map: "hm_ok (d_map d) \<Longrightarrow> contents d = map_of (map (\<lambda>(k, e). (k, e_value e)) (d_map d))"
  by (rule ext) (simp add: contents_def dict_lookup_def hm_get_def map_of_map)

lemma map_size_map_of:
  "distinct (map fst xs) \<Longrightarrow> map_size (map_of xs) = sum_list (map (\<lambda>p. length (snd p)) xs)"
proof (induction xs)
  case (Cons p xs)
  obtain a b where p: "p = (a, b)" by (cases p)
  let ?m = "map_of xs"
  from Cons.prems p have a: "a \<notin> dom ?m" by (simp add: dom_map_of_conv_image_fst)
  have "map_size (map_of (p # xs)) = (\<Sum>k \<in> insert a (dom ?m). length (the ((?m(a \<mapsto> b)) k)))"
    by (simp add: map_size_def p del: fun_upd_apply)
  also have "\<dots> = length b + (\<Sum>k \<in> dom ?m. length (the ((?m(a \<mapsto> b)) k)))"
    using a by (subst sum.insert) (simp_all add: finite_dom_map_of)
  also have "(\<Sum>k \<in> dom ?m. length (the ((?m(a \<mapsto> b)) k))) = map_size ?m"
    unfolding map_size_def using a by (intro sum.cong refl) auto
  finally show ?case using Cons p by simp
qed (simp add: map_size_def)

lemma stored_bytes_contents: "hm_ok (d_map d) \<Longrightarrow> stored_bytes d = map_size (contents d)"
  using map_size_map_of [of "map (\<lambda>(k, e). (k, e_value e)) (d_map d)"]
  by (simp add: contents_map hm_ok_def stored_bytes_def case_prod_unfold comp_def)

lemma contents_remove_key: "hm_ok (d_map d) \<Longrightarrow> contents (remove_key k d) = (contents d)(k := None)"
  by (auto simp: contents_def remove_key_lookup)

lemma contents_insert:
  "hm_ok (d_map d) \<Longrightarrow>
     contents (d\<lparr>d_map := hm_insert k e (d_map d), total_bytes := t\<rparr>) = (contents d)(k \<mapsto> e_value e)"
  by (auto simp: contents_def insert_lookup)

text \<open>Making room restricts the contents, and changes nothing when the bytes fit.\<close>

lemma contents_make_room:
  assumes "dict_inv d" and "iter_law it" and "n \<le> MAX_TOTAL_SIZE"
  shows "\<exists>E. contents (make_room it n d) = contents d |` (- E) \<and> may_evict (contents d) n E"
proof (cases "total_bytes d + n \<le> MAX_TOTAL_SIZE")
  case True
  then show ?thesis using make_room(6) [OF assms]
    by (intro exI [of _ "{}"]) (auto simp: may_evict_def restrict_map_def)
next
  case False
  let ?E = "{k. dict_lookup (make_room it n d) k = None}"
  have "contents (make_room it n d) k = (contents d |` (- ?E)) k" for k
    using make_room(4) [OF assms, of k] by (auto simp: contents_def restrict_map_def)
  moreover have "map_size (contents d) + n > MAX_TOTAL_SIZE"
    using False assms(1) by (simp add: dict_inv_def stored_bytes_contents)
  ultimately show ?thesis by (intro exI [of _ ?E]) (auto simp: may_evict_def)
qed

lemma appended_contents: "appended (contents d k) v = (case contents d k of Some u \<Rightarrow> u @ v | None \<Rightarrow> v)"
  by (simp add: appended_def split: option.splits)

lemma append_too_big:
  "length (appended (contents d key) val) > MAX_VALUE_SIZE \<Longrightarrow>
     dict_append it now key val d =
       (resp ST_ERR (lit ''value exceeds 10MB limit after append''), d)"
proof -
  assume "length (appended (contents d key) val) > MAX_VALUE_SIZE"
  then have "sat_add (case hm_get (d_map d) key of Some e \<Rightarrow> length (e_value e) | None \<Rightarrow> 0)
      (length val) > MAX_VALUE_SIZE"
    by (subst sat_add_gt)
      (auto simp: appended_def contents_def dict_lookup_def size_defs USIZE_MAX_def split: option.splits)
  then show ?thesis by (simp add: dict_append_def)
qed

section \<open>Requests as the client encodes them\<close>

lemma dict_handle_req:
  assumes "str_ok key" and "\<not> poisoned d"
  shows "dict_handle it now (req op key val) d = dict_op it now op key val d"
proof -
  let ?n = "of_nat (length key) :: u16" and ?data = "req op key val"
  have data: "?data = op # u16_to_be ?n @ key @ val" by (simp add: req_def push_append)
  have "unat (u16_of_be [?data ! 1, ?data ! 2]) = length key"
    unfolding data tag16_field using assms(1) by (simp add: unat_u16 str_ok_def)
  moreover have "drop 3 ?data = key @ val" unfolding data by (rule tag16_rest)
  moreover from this have "drop (3 + length key) ?data = val"
    by (simp add: add.commute [of 3] flip: drop_drop)
  moreover have "?data ! 0 = op" and "3 + length key \<le> length ?data" by (simp_all add: data)
  ultimately show ?thesis
    using assms by (simp add: dict_handle_def Let_def str_ok_def from_utf8_def)
qed

lemma dict_handle_poisoned:
  assumes "poisoned d"
  shows "\<exists>msg. dict_handle it now data d = (resp ST_ERR msg, d)"
  using assms by (auto simp: dict_handle_def Let_def split: option.splits)

lemma dict_handle_cases:
  obtains (bad) msg where "dict_handle it now data d = (resp ST_ERR msg, d)"
  | (run) op key val where "\<not> poisoned d" "str_ok key"
      "dict_handle it now data d = dict_op it now op key val d"
proof -
  let ?n = "unat (u16_of_be [data ! 1, data ! 2])"
  have n: "?n < 65536" using unat_bound [of "u16_of_be [data ! 1, data ! 2]"] by simp
  consider "length data < 3" | "3 \<le> length data" "length data < 3 + ?n"
    | "3 + ?n \<le> length data" "\<not> utf8_valid (take ?n (drop 3 data))"
    | "3 + ?n \<le> length data" "utf8_valid (take ?n (drop 3 data))" "poisoned d"
    | "3 + ?n \<le> length data" "utf8_valid (take ?n (drop 3 data))" "\<not> poisoned d"
    by linarith
  then show thesis
  proof cases
    case 1
    then show thesis by (intro bad) (simp add: dict_handle_def)
  next
    case 2
    then show thesis by (intro bad [of "lit ''truncated key''"]) (simp add: dict_handle_def Let_def)
  next
    case 3
    then show thesis
      by (intro bad [of "lit ''invalid key encoding''"])
        (simp add: dict_handle_def Let_def from_utf8_def)
  next
    case 4
    then show thesis
      by (intro bad [of "lit ''dict internal lock poisoned''"])
        (simp add: dict_handle_def Let_def from_utf8_def)
  next
    case 5
    then have "str_ok (take ?n (drop 3 data))" using n by (simp add: str_ok_def)
    then show thesis using 5 by (intro run) (simp_all add: dict_handle_def Let_def from_utf8_def)
  qed
qed

lemma evict_until_eq_poisoned: "evict_until it n d = (b, d') \<Longrightarrow> poisoned d' = poisoned d"
  using evict_until_poisoned [of it n d] by simp

lemma dict_get_poisoned: "poisoned (snd (dict_get now key d)) = poisoned d"
  by (simp add: dict_get_def split: option.split)

lemma dict_set_poisoned: "poisoned (snd (dict_set it now key val d)) = poisoned d"
  by (auto simp: dict_set_def dest: evict_until_eq_poisoned split: prod.split bool.split)

lemma dict_append_poisoned: "poisoned (snd (dict_append it now key val d)) = poisoned d"
  unfolding dict_append_def Let_def
  by (auto dest: evict_until_eq_poisoned split: prod.split bool.split)

lemma dict_op_poisoned: "poisoned (snd (dict_op it now op key val d)) = poisoned d"
  by (simp add: dict_op_def dict_get_poisoned dict_set_poisoned dict_append_poisoned dict_del_def
      dict_keys_def dict_all_def)

section \<open>Refinement\<close>

lemma get_refines:
  assumes "dict_inv d"
  shows "dict_spec (contents d) OP_GET key val (fst (dict_get now key d))
           (contents (snd (dict_get now key d)))"
proof (cases "dict_lookup d key")
  case None
  then show ?thesis by (simp add: dict_get_None contents_def get_miss)
next
  case (Some e)
  have "contents (d\<lparr>d_map := hm_insert key (e\<lparr>e_access := now\<rparr>) (d_map d)\<rparr>) = contents d"
    using Some assms
    by (auto simp: dict_inv_def contents_def dict_lookup_def hm.lookup_insrt)
  then show ?thesis
    using Some by (simp add: dict_get_Some contents_def get_hit)
qed

lemma set_refines:
  assumes inv: "dict_inv d" and it: "iter_law it"
  shows "dict_spec (contents d) OP_SET key val (fst (dict_set it now key val d))
           (contents (snd (dict_set it now key val d)))"
proof (cases "length val \<le> MAX_VALUE_SIZE")
  case False
  then show ?thesis by (simp add: dict_set_def set_big)
next
  case True
  note rinv = remove_key_inv [OF inv, of key]
  note len = value_le_total [OF True]
  obtain E where E: "contents (make_room it (length val) (remove_key key d)) =
      (contents d)(key := None) |` (- E)" "may_evict ((contents d)(key := None)) (length val) E"
    using contents_make_room [OF rinv it len] inv by (auto simp: contents_remove_key dict_inv_def)
  have "((contents d)(key := None) |` (- E))(key \<mapsto> val) = (contents d |` (- E))(key \<mapsto> val)"
    by (auto simp: restrict_map_def)
  moreover have "hm_ok (d_map (make_room it (length val) (remove_key key d)))"
    using make_room(2) [OF rinv it len] by (simp add: dict_inv_def)
  ultimately show ?thesis
    using set_ok [OF True E(2)] E(1) by (simp add: dict_set_ok [OF inv it True] contents_insert)
qed

lemma append_refines:
  assumes inv: "dict_inv d" and it: "iter_law it"
  shows "dict_spec (contents d) OP_APPEND key val (fst (dict_append it now key val d))
           (contents (snd (dict_append it now key val d)))"
proof (cases "length (appended (contents d key) val) \<le> MAX_VALUE_SIZE")
  case False
  then show ?thesis using append_big [of "contents d" key val] by (simp add: append_too_big)
next
  case True
  then have small: "length val \<le> MAX_VALUE_SIZE"
    by (auto simp: appended_def split: option.splits)
  note len = value_le_total [OF small]
  obtain E where E: "contents (make_room it (length val) d) = contents d |` (- E)"
    "may_evict (contents d) (length val) E"
    using contents_make_room [OF inv it len] by blast
  have "hm_ok (d_map (make_room it (length val) d))"
    using make_room(2) [OF inv it len] by (simp add: dict_inv_def)
  with E(1) show ?thesis
    using append_ok [OF True E(2)] True
    by (simp add: dict_append_ok [OF inv it] appended_def contents_insert)
qed

lemma del_refines:
  "dict_inv d \<Longrightarrow> dict_spec (contents d) OP_DEL key val (fst (dict_del key d)) (contents (snd (dict_del key d)))"
  by (simp add: dict_del_def contents_remove_key dict_inv_def del)

section \<open>The oldest entry goes first\<close>

lemma lru_head:
  assumes inv: "dict_inv d" and it: "iter_law it" and e: "dict_lookup d key = Some e"
    and old: "\<And>k' e'. k' \<noteq> key \<Longrightarrow> dict_lookup d k' = Some e' \<Longrightarrow> e_access e < e_access e'"
  shows "\<exists>ks. lru_keys it d = key # ks"
proof -
  have mem: "key \<in> set (lru_keys it d)"
    using e inv by (force simp: lru_keys_set [OF it] dict_lookup_def dict_inv_def hm.lookup_items)
  then obtain j ks where ks: "lru_keys it d = j # ks" by (cases "lru_keys it d") auto
  have "j = key"
  proof (rule ccontr)
    assume ne: "j \<noteq> key"
    from ks have "j \<in> fst ` set (d_map d)" using lru_keys_set [OF it, of d] by auto
    then obtain x where x: "dict_lookup d j = Some x"
      using inv hm.lookup_None [of "d_map d" j] by (auto simp: dict_lookup_def dict_inv_def)
    have "e_access x \<le> e_access e"
      using ks ne by (intro lru_order [OF inv it _ x _ e, of 1]) simp_all
    with old [OF ne x] show False by simp
  qed
  with ks show ?thesis by blast
qed

lemma make_room_evicts_oldest:
  assumes inv: "dict_inv d" and it: "iter_law it" and n: "n \<le> MAX_TOTAL_SIZE"
    and e: "dict_lookup d key = Some e"
    and old: "\<And>k' e'. k' \<noteq> key \<Longrightarrow> dict_lookup d k' = Some e' \<Longrightarrow> e_access e < e_access e'"
    and full: "total_bytes d + n > MAX_TOTAL_SIZE"
  shows "dict_lookup (make_room it n d) key = None"
proof -
  have "\<exists>ks. lru_keys it d = key # ks" by (rule lru_head [OF inv it e]) (rule old)
  then obtain ks where ks: "lru_keys it d = key # ks" by blast
  from evict_until_spec [of it d n] obtain m where m: "m \<le> length (lru_keys it d)"
    "evict_until it n d = (fits n (evicted (take m (lru_keys it d)) d), evicted (take m (lru_keys it d)) d)"
    "m < length (lru_keys it d) \<longrightarrow> fits n (evicted (take m (lru_keys it d)) d)" by blast
  have "\<not> fits n d" using full inv by (simp add: fits_iff dict_inv_def)
  with m(3) ks have "m \<noteq> 0" by (intro notI) simp
  with ks have "key \<in> set (take m (lru_keys it d))" by (cases m) simp_all
  with m(2) show ?thesis by (simp add: make_room_def evicted_lookup [OF inv])
qed

section \<open>Runs of requests\<close>

text \<open>Requests handled one after the other, each with its iteration order and clock value.\<close>

fun dict_run :: "(iter \<times> nat \<times> bytes) list \<Rightarrow> dict \<Rightarrow> dict" where
  "dict_run [] d = d"
| "dict_run ((it, now, data) # xs) d = dict_run xs (snd (dict_handle it now data d))"

lemma dict_handle_inv:
  "dict_inv d \<Longrightarrow> iter_law it \<Longrightarrow>
     dict_inv (snd (dict_handle it now data d)) \<and>
     poisoned (snd (dict_handle it now data d)) = poisoned d"
  by (cases rule: dict_handle_cases [of it now data d])
    (simp_all add: dict_op_inv dict_op_poisoned)

lemma dict_run_inv:
  "\<forall>x \<in> set xs. iter_law (fst x) \<Longrightarrow> dict_inv d \<Longrightarrow>
     dict_inv (dict_run xs d) \<and> poisoned (dict_run xs d) = poisoned d"
  by (induction xs d rule: dict_run.induct) (simp_all add: dict_handle_inv)

section \<open>A full dictionary\<close>

text \<open>103 one-byte keys whose values fill the cap but for one byte, and an older one-byte entry.\<close>

definition filler :: "nat \<Rightarrow> rstr \<times> entry" where
  "filler i = ([of_nat i], \<lparr>e_value = replicate (if i < 102 then MAX_VALUE_SIZE else 4194303) 0,
                            e_access = 1\<rparr>)"

definition full_dict :: dict where
  "full_dict = \<lparr>d_map = ([107], \<lparr>e_value = [1], e_access = 0\<rparr>) # map filler [0..<103],
     total_bytes = MAX_TOTAL_SIZE, poisoned = False\<rparr>"

lemma filler_key: "fst (filler i) = [of_nat i]"
  by (simp add: filler_def)

lemma filler_total:
  "n \<le> 102 \<Longrightarrow> (\<Sum>i \<leftarrow> [0..<n]. length (e_value (snd (filler i)))) = n * MAX_VALUE_SIZE"
  by (induction n) (simp_all add: filler_def)

lemma full_dict_stored: "stored_bytes full_dict = MAX_TOTAL_SIZE"
proof -
  have "[0..<103] = [0..<102] @ [102 :: nat]" using upt_Suc_append [of 0 102] by simp
  then have "(\<Sum>i \<leftarrow> [0..<103]. length (e_value (snd (filler i)))) = 102 * MAX_VALUE_SIZE + 4194303"
    using filler_total [of 102] by (simp add: filler_def)
  then show ?thesis by (simp add: stored_bytes_def full_dict_def comp_def size_defs)
qed

lemma word8_inj: "i < 103 \<Longrightarrow> j < 103 \<Longrightarrow> (of_nat i :: u8) = of_nat j \<longleftrightarrow> i = j"
proof
  assume lt: "i < 103" "j < 103" and "(of_nat i :: u8) = of_nat j"
  then have "unat (of_nat i :: u8) = unat (of_nat j :: u8)" by simp
  with lt show "i = j" by (simp add: unat_u8)
qed simp

lemma full_dict_ok: "hm_ok (d_map full_dict)"
proof -
  have "inj_on (\<lambda>i. [of_nat i :: u8]) {0..<103}"
    by (rule inj_onI) (simp add: word8_inj)
  moreover have "[107 :: u8] \<notin> (\<lambda>i. [of_nat i]) ` {0..<103}"
  proof
    assume "[107 :: u8] \<in> (\<lambda>i. [of_nat i]) ` {0..<103}"
    then obtain i :: nat where i: "i < 103" "of_nat i = (107 :: u8)" by auto
    have "unat (of_nat i :: u8) = 107" unfolding i(2) by simp
    with i(1) show False by (simp add: unat_u8)
  qed
  ultimately show ?thesis
    by (simp add: hm_ok_def full_dict_def comp_def filler_key distinct_map del: upt_Suc)
qed

lemma full_dict_entry: "p \<in> set (d_map full_dict) \<Longrightarrow> entry_ok p"
proof -
  assume "p \<in> set (d_map full_dict)"
  then consider "p = ([107], \<lparr>e_value = [1], e_access = 0\<rparr>)" | i where "i < 103" "p = filler i"
    by (auto simp: full_dict_def)
  then show ?thesis
  proof cases
    case 1
    then show ?thesis
      by (simp add: entry_ok_def str_ok_def size_defs utf8_valid_ascii)
  next
    case 2
    then have "(of_nat i :: u8) < 0x80" by (simp add: word_less_nat_alt unat_of_nat)
    with 2 show ?thesis
      by (simp add: entry_ok_def str_ok_def filler_def size_defs utf8_valid_ascii)
  qed
qed

lemma full_dict_inv: "dict_inv full_dict"
  using full_dict_ok full_dict_stored full_dict_entry
  by (auto simp: dict_inv_def full_dict_def)

lemma full_dict_old: "dict_lookup full_dict [107] = Some \<lparr>e_value = [1], e_access = 0\<rparr>"
  by (simp add: dict_lookup_def full_dict_def hm_get_def)

lemma full_dict_younger:
  "k \<noteq> [107] \<Longrightarrow> dict_lookup full_dict k = Some e \<Longrightarrow> e_access e = 1"
proof -
  assume k: "k \<noteq> [107]" and "dict_lookup full_dict k = Some e"
  then have "(k, e) \<in> set (d_map full_dict)"
    using full_dict_ok by (simp add: dict_lookup_def hm.lookup_items)
  with k show ?thesis by (auto simp: full_dict_def filler_def)
qed

section \<open>Properties\<close>

text \<open>C5: whatever frames clients send, in whatever order, to a new server dictionary: its byte
  counter is the exact sum of the value lengths and never passes 1 GiB, no value passes 10 MiB,
  every key is valid UTF-8 of at most 65535 bytes and stored once, and the lock is never
  poisoned.\<close>

theorem dict_run_invariant:
  assumes "\<forall>x \<in> set xs. iter_law (fst x)"
  defines "d \<equiv> dict_run xs dict_new"
  shows "total_bytes d = sum_list (map (\<lambda>p. length (e_value (snd p))) (d_map d)) \<and>
    total_bytes d \<le> MAX_TOTAL_SIZE \<and> distinct (map fst (d_map d)) \<and>
    (\<forall>(k, e) \<in> set (d_map d). utf8_valid k \<and> length k < 65536 \<and> length (e_value e) \<le> MAX_VALUE_SIZE) \<and>
    \<not> poisoned d"
proof -
  from dict_run_inv [OF assms(1) dict_inv_new] have inv: "dict_inv d" and "\<not> poisoned d"
    by (simp_all add: d_def dict_new_def)
  then show ?thesis
    by (auto simp: dict_inv_def stored_bytes_def hm_ok_def entry_ok_def str_ok_def)
qed

theorem dict_run_invariant_witness:
  "\<not> poisoned (dict_run [(rev, 1, req OP_SET [107] [1, 2])] dict_new)"
proof -
  have "\<forall>x \<in> set [(rev, 1 :: nat, req OP_SET [107] [1, 2])]. iter_law (fst x)"
    by (simp add: iter_law_rev)
  from dict_run_invariant [OF this] show ?thesis by blast
qed

text \<open>C6: GET, SET, APPEND and DEL requests, encoded as the client encodes them, are handled as
  the abstract map says, response included; entries other than the key are dropped only when
  the new bytes would pass the 1 GiB cap, and then the size error is never answered.\<close>

theorem dict_refines_spec:
  assumes "dict_inv d" and "\<not> poisoned d" and "iter_law it" and "str_ok key"
    and "op \<in> {OP_GET, OP_SET, OP_APPEND, OP_DEL}"
  shows "dict_spec (contents d) op key val (fst (dict_handle it now (req op key val) d))
           (contents (snd (dict_handle it now (req op key val) d)))"
  using assms(5) get_refines [OF assms(1), of key val now] set_refines [OF assms(1,3), of key val now]
    append_refines [OF assms(1,3), of key val now] del_refines [OF assms(1), of key val]
  by (auto simp: dict_handle_req [OF assms(4,2)] dict_op_def op_defs)

theorem dict_refines_spec_witness:
  "\<exists>r m. dict_spec (contents full_dict) OP_APPEND [107] [2] r m"
proof -
  have "\<not> poisoned full_dict" by (simp add: full_dict_def)
  moreover have "str_ok [107]" by (simp add: str_ok_def utf8_valid_ascii)
  ultimately show ?thesis
    using dict_refines_spec [OF full_dict_inv _ iter_law_rev, of "[107]" OP_APPEND "[2]" 5]
    by blast
qed

lemma set_contents:
  assumes "dict_inv d" and "\<not> poisoned d" and "iter_law it" and "str_ok key" and "length val \<le> MAX_VALUE_SIZE"
  shows "contents (snd (dict_handle it now (req OP_SET key val) d)) key = Some val"
proof -
  let ?d1 = "make_room it (length val) (remove_key key d)"
  note r = make_room [OF remove_key_inv [OF assms(1), of key] assms(3) value_le_total [OF assms(5)]]
  have "hm_ok (d_map ?d1)" using r(2) by (simp add: dict_inv_def)
  then show ?thesis
    by (simp add: dict_handle_req [OF assms(4)] assms(2) dict_op_def op_defs contents_def
        dict_set_ok [OF assms(1,3,5)] insert_lookup)
qed

text \<open>A value just stored is read back: after a SET that was answered OK, a GET of the same
  key answers with exactly that value, whatever other keys eviction removed.\<close>

theorem set_then_get:
  assumes "dict_inv d" and "\<not> poisoned d" and "iter_law it" and "str_ok key"
    and "length val \<le> MAX_VALUE_SIZE"
  shows "fst (dict_handle it now (req OP_SET key val) d) = resp ST_OK [] \<and>
    fst (dict_handle it' now' (req OP_GET key [])
          (snd (dict_handle it now (req OP_SET key val) d))) = resp ST_OK val"
proof -
  let ?d1 = "make_room it (length val) (remove_key key d)"
  note r = make_room [OF remove_key_inv [OF assms(1), of key] assms(3) value_le_total [OF assms(5)]]
  have "hm_ok (d_map ?d1)" and "\<not> poisoned ?d1" using r(2,5) assms(2) by (simp_all add: dict_inv_def)
  then show ?thesis
    by (simp add: dict_handle_req [OF assms(4)] assms(2) dict_op_def op_defs
        dict_set_ok [OF assms(1,3,5)] dict_get_Some insert_lookup)
qed

theorem set_then_get_witness:
  "fst (dict_handle rev 2 (req OP_GET [107] []) (snd (dict_handle rev 1 (req OP_SET [107] [7, 8]) dict_new)))
     = resp ST_OK [7, 8]"
proof -
  have "\<not> poisoned dict_new" and "str_ok [107]" and "length [7, 8 :: u8] \<le> MAX_VALUE_SIZE"
    by (simp_all add: dict_new_def str_ok_def utf8_valid_ascii size_defs)
  from set_then_get [OF dict_inv_new this(1) iter_law_rev this(2,3), of 1 rev 2] show ?thesis by blast
qed

text \<open>C7: eviction is least recently used and minimal: an evicted entry was accessed no later
  than any entry that stays, the space asked for is then available, and with one eviction less
  it would not have been.\<close>

theorem eviction_lru_minimal:
  assumes "dict_inv d" and "iter_law it" and "n \<le> MAX_TOTAL_SIZE"
  shows "\<exists>ks d'. evict_until it n d = (True, d') \<and> d' = evicted ks d \<and> set ks \<subseteq> fst ` set (d_map d) \<and>
    total_bytes d' + n \<le> MAX_TOTAL_SIZE \<and>
    (\<forall>k e k' e'. k \<in> set ks \<longrightarrow> dict_lookup d k = Some e \<longrightarrow> dict_lookup d' k' = Some e' \<longrightarrow>
        e_access e \<le> e_access e') \<and>
    (ks \<noteq> [] \<longrightarrow> total_bytes (evicted (butlast ks) d) + n > MAX_TOTAL_SIZE)"
proof -
  let ?all = "lru_keys it d"
  from evict_until_spec [of it d n] obtain m where m: "m \<le> length ?all"
    "evict_until it n d = (fits n (evicted (take m ?all) d), evicted (take m ?all) d)"
    "\<forall>j < m. \<not> fits n (evicted (take j ?all) d)" by blast
  let ?ks = "take m ?all"
  have "e_access e \<le> e_access e'"
    if "k \<in> set ?ks" "dict_lookup d k = Some e" "dict_lookup (evicted ?ks d) k' = Some e'" for k e k' e'
    using that assms(1)
    by (intro lru_order [OF assms(1,2), of k m e k' e']) (auto simp: evicted_lookup split: if_splits)
  moreover have "total_bytes (evicted (butlast ?ks) d) + n > MAX_TOTAL_SIZE" if "?ks \<noteq> []"
  proof -
    from that have "butlast ?ks = take (m - 1) ?all" and "m - 1 < m"
      using m(1) by (auto simp: butlast_take)
    with m(3) have "\<not> fits n (evicted (butlast ?ks) d)" by simp
    then show ?thesis
      using evicted_inv [OF assms(1), of "butlast ?ks"] by (simp add: fits_iff dict_inv_def)
  qed
  moreover have "set ?ks \<subseteq> fst ` set (d_map d)"
    using set_take_subset [of m ?all] by (simp add: lru_keys_set [OF assms(2)])
  moreover have "evict_until it n d = (True, evicted ?ks d)"
    using m(2) evict_until_succeeds(1) [OF assms] by simp
  ultimately show ?thesis
    using evict_until_succeeds(2) [OF assms] by (intro exI [of _ ?ks]) auto
qed

theorem eviction_lru_minimal_witness:
  "\<exists>d'. evict_until rev 1 full_dict = (True, d') \<and> total_bytes d' + 1 \<le> MAX_TOTAL_SIZE"
proof -
  have "(1 :: nat) \<le> MAX_TOTAL_SIZE" by (simp add: size_defs)
  from eviction_lru_minimal [OF full_dict_inv iter_law_rev this] show ?thesis by blast
qed

text \<open>Under memory pressure an APPEND to the least recently used key evicts that key first
  and then stores the appended bytes alone: the reply is OK and the old value is lost.\<close>

theorem append_evicts_own_key:
  assumes "dict_inv d" and "\<not> poisoned d" and "iter_law it" and "str_ok key"
    and "dict_lookup d key = Some e"
    and "\<And>k' e'. k' \<noteq> key \<Longrightarrow> dict_lookup d k' = Some e' \<Longrightarrow> e_access e < e_access e'"
    and "length (e_value e) + length val \<le> MAX_VALUE_SIZE"
    and "total_bytes d + length val > MAX_TOTAL_SIZE"
  shows "fst (dict_handle it now (req OP_APPEND key val) d) = resp ST_OK [] \<and>
    contents (snd (dict_handle it now (req OP_APPEND key val) d)) key = Some val"
proof -
  have len: "length val \<le> MAX_TOTAL_SIZE" using assms(7) by (simp add: size_defs)
  have gone: "dict_lookup (make_room it (length val) d) key = None"
    by (rule make_room_evicts_oldest [OF assms(1,3) len assms(5) _ assms(8)]) (rule assms(6))
  have "hm_ok (d_map (make_room it (length val) d))"
    using make_room(2) [OF assms(1,3) len] by (simp add: dict_inv_def)
  moreover have "length (case contents d key of Some v \<Rightarrow> v @ val | None \<Rightarrow> val) \<le> MAX_VALUE_SIZE"
    using assms(5,7) by (simp add: contents_def)
  ultimately show ?thesis using gone
    by (simp add: dict_handle_req [OF assms(4,2)] dict_op_def op_defs dict_append_ok [OF assms(1,3)]
        contents_insert) (simp add: contents_def)
qed

theorem append_evicts_own_key_witness:
  "contents full_dict [107] = Some [1] \<and>
   contents (snd (dict_handle rev 2 (req OP_APPEND [107] [2]) full_dict)) [107] = Some [2]"
proof -
  have "\<not> poisoned full_dict" and "str_ok [107]"
    by (simp_all add: full_dict_def str_ok_def utf8_valid_ascii)
  moreover have "total_bytes full_dict + length [2 :: u8] > MAX_TOTAL_SIZE"
    by (simp add: full_dict_def)
  moreover have "e_access \<lparr>e_value = [1], e_access = 0\<rparr> < e_access e'"
    if "k' \<noteq> [107]" "dict_lookup full_dict k' = Some e'" for k' e'
    using full_dict_younger [OF that] by simp
  moreover have "length (e_value \<lparr>e_value = [1 :: u8], e_access = 0\<rparr>) + length [2 :: u8] \<le> MAX_VALUE_SIZE"
    by (simp add: size_defs)
  ultimately show ?thesis
    using append_evicts_own_key [OF full_dict_inv _ iter_law_rev _ full_dict_old, of "[2]" 2] full_dict_old
    by (simp add: contents_def)
qed



end
