(* ===== verification/Dict_Client.thy ===== *)
theory Dict_Client
  imports Dict_Spec
begin

text \<open>
  The client side of the dictionary (\<^theory_text>\<open>crates/thru-dict/src/lib.rs\<close>, client-side helpers): one
  request frame out, one response frame in, and the decoding of the KEYS and ALL payloads. The
  properties compose it with the server's \<open>dict_handle\<close>: a client whose input is the server's
  reply to the client's own request gets what the dictionary holds.
\<close>

section \<open>Operations on an open connection\<close>

definition call_on_conn :: "bytes \<Rightarrow> conn \<Rightarrow> bytes io \<times> conn" where
  "call_on_conn request c = try_io (write_frame request c) (\<lambda>_ c. read_frame c)"

definition empty_response :: io_error where
  "empty_response = IoError InvalidData (lit ''empty response'')"

definition check_ok :: "bytes \<Rightarrow> unit io" where
  "check_ok r =
     (case r of
        [] \<Rightarrow> Inl empty_response
      | s # msg \<Rightarrow> if s = ST_OK then Inr () else Inl (IoError OtherKind (lossy msg)))"

definition get_on_conn :: "rstr \<Rightarrow> conn \<Rightarrow> (bytes option) io \<times> conn" where
  "get_on_conn key c =
     try_io (call_on_conn (req OP_GET key []) c) (\<lambda>r c.
       (case r of
          [] \<Rightarrow> (Inl empty_response, c)
        | s # v \<Rightarrow>
            if s = ST_OK then (Inr (Some v), c)
            else if s = ST_NOT_FOUND then (Inr None, c)
            else (Inl (IoError OtherKind (lossy v)), c)))"

definition set_on_conn :: "rstr \<Rightarrow> bytes \<Rightarrow> conn \<Rightarrow> unit io \<times> conn" where
  "set_on_conn key val c =
     try_io (call_on_conn (req OP_SET key val) c) (\<lambda>r c. (check_ok r, c))"

definition append_on_conn :: "rstr \<Rightarrow> bytes \<Rightarrow> conn \<Rightarrow> unit io \<times> conn" where
  "append_on_conn key val c =
     try_io (call_on_conn (req OP_APPEND key val) c) (\<lambda>r c. (check_ok r, c))"

definition keys_on_conn :: "conn \<Rightarrow> (rstr list) io \<times> conn" where
  "keys_on_conn c =
     try_io (call_on_conn (req OP_KEYS [] []) c) (\<lambda>r c.
       try_io (check_ok r, c) (\<lambda>_ c.
         let payload = drop 1 r
         in if payload = [] then (Inr [], c) else (Inr (split_on 10 (lossy payload)), c)))"

section \<open>Operations that dial first\<close>

text \<open>The connection is dropped on return; the model gives it back for inspection.\<close>

definition with_conn ::
    "transport \<Rightarrow> rstr \<Rightarrow> (conn \<Rightarrow> 'a io \<times> conn) \<Rightarrow> 'a io \<times> conn option" where
  "with_conn t addr f =
     (case connect t addr of
        Inl e \<Rightarrow> (Inl e, None)
      | Inr c \<Rightarrow> (case f c of (r, c') \<Rightarrow> (r, Some c')))"

definition client_get :: "transport \<Rightarrow> rstr \<Rightarrow> rstr \<Rightarrow> (bytes option) io \<times> conn option" where
  "client_get t addr key = with_conn t addr (get_on_conn key)"

definition client_set :: "transport \<Rightarrow> rstr \<Rightarrow> rstr \<Rightarrow> bytes \<Rightarrow> unit io \<times> conn option" where
  "client_set t addr key val = with_conn t addr (set_on_conn key val)"

definition client_append :: "transport \<Rightarrow> rstr \<Rightarrow> rstr \<Rightarrow> bytes \<Rightarrow> unit io \<times> conn option" where
  "client_append t addr key val = with_conn t addr (append_on_conn key val)"

definition client_keys :: "transport \<Rightarrow> rstr \<Rightarrow> (rstr list) io \<times> conn option" where
  "client_keys t addr = with_conn t addr keys_on_conn"

text \<open>One round of the decoding loop of \<^theory_text>\<open>client_all\<close>; \<open>None\<close> is a \<^theory_text>\<open>break\<close>.\<close>

definition dec_all_entry :: "bytes \<Rightarrow> ((rstr \<times> bytes) \<times> bytes) option" where
  "dec_all_entry p =
     (case read_str p of
        None \<Rightarrow> None
      | Some (key, p) \<Rightarrow>
          if length p < 4 then None
          else (let vlen = unat (u32_of_be (take 4 p)); p = drop 4 p
                in if length p < vlen then None
                   else Some ((key, take vlen p), drop vlen p)))"

lemma dec_all_entry_shorter:
  "dec_all_entry p = Some (x, rest) \<Longrightarrow> length rest < length p"
  by (auto simp: dec_all_entry_def Let_def split: option.splits if_splits dest!: read_str_shorter)

function parse_all :: "bytes \<Rightarrow> (rstr \<times> bytes) list" where
  "parse_all p = (case dec_all_entry p of None \<Rightarrow> [] | Some (x, rest) \<Rightarrow> x # parse_all rest)"
  by pat_completeness auto
termination
  by (relation "measure length") (auto dest: dec_all_entry_shorter)

declare parse_all.simps [simp del]

definition call :: "transport \<Rightarrow> rstr \<Rightarrow> bytes \<Rightarrow> bytes io \<times> conn option" where
  "call t addr request = with_conn t addr (call_on_conn request)"

definition client_all :: "transport \<Rightarrow> rstr \<Rightarrow> ((rstr \<times> bytes) list) io \<times> conn option" where
  "client_all t addr =
     try_io (call t addr (req OP_ALL [] [])) (\<lambda>r c.
       try_io (check_ok r, c) (\<lambda>_ c. (Inr (parse_all (drop 1 r)), c)))"

section \<open>The ALL payload is a stream of entries\<close>

definition pair_ok :: "rstr \<times> bytes \<Rightarrow> bool" where
  "pair_ok p \<longleftrightarrow> str_ok (fst p) \<and> length (snd p) < 4294967296"

lemma dec_all_entry_enc: "pair_ok p \<Longrightarrow> dec_all_entry (all_entry p @ rest) = Some (p, rest)"
  by (cases p) (simp add: dec_all_entry_def all_entry_def push_append pair_ok_def read_str_field
      unat_u32 Let_def)

interpretation all_code: codec_loop all_entry dec_all_entry pair_ok parse_all
  by unfold_locales (auto simp: dec_all_entry_enc parse_all.simps dest: dec_all_entry_shorter)

section \<open>Exchanges\<close>

lemma call_on_conn_reply:
  "frame_ok request \<Longrightarrow> frame_ok reply \<Longrightarrow> c_cap c = None \<Longrightarrow>
     call_on_conn request (c\<lparr>c_in := frame reply @ rest\<rparr>) =
       (Inr reply, conn_put (frame request) (c\<lparr>c_in := rest\<rparr>))"
  using read_frame_conn [of reply rest "conn_put (frame request) c"]
  by (simp add: call_on_conn_def write_frame_unlimited)

lemma frame_ok_req: "length key < 65536 \<Longrightarrow> length val \<le> MAX_VALUE_SIZE \<Longrightarrow> frame_ok (req op key val)"
  by (simp add: frame_ok_def MAX_FRAME_def req_def push_append size_defs)

lemma frame_ok_resp: "length p \<le> 67108863 \<Longrightarrow> frame_ok (resp s p)"
  by (simp add: frame_ok_def MAX_FRAME_def resp_def)

text \<open>The reply of the server to a GET.\<close>

definition get_reply :: "bytes option \<Rightarrow> bytes" where
  "get_reply v = (case v of Some v \<Rightarrow> resp ST_OK v | None \<Rightarrow> resp ST_NOT_FOUND [])"

lemma dict_handle_get:
  "str_ok key \<Longrightarrow> \<not> poisoned d \<Longrightarrow>
     fst (dict_handle it now (req OP_GET key []) d) = get_reply (contents d key)"
  by (auto simp: dict_handle_req dict_op_def dict_get_def contents_def dict_lookup_def get_reply_def
      split: option.splits)

lemma frame_ok_get_reply: "dict_inv d \<Longrightarrow> frame_ok (get_reply (contents d key))"
  by (cases "contents d key")
    (auto simp: get_reply_def size_defs dest!: contents_le intro!: frame_ok_resp)

text \<open>What the client makes of it.\<close>

lemma get_answered:
  assumes "str_ok key" and "frame_ok (get_reply v)" and "c_cap c = None" and "c_in c = frame (get_reply v) @ rest"
  shows "get_on_conn key c = (Inr v, conn_put (frame (req OP_GET key [])) (c\<lparr>c_in := rest\<rparr>))"
proof -
  have rq: "frame_ok (req OP_GET key [])"
    using assms(1) by (intro frame_ok_req) (simp_all add: str_ok_def)
  have "c\<lparr>c_in := frame (get_reply v) @ rest\<rparr> = c" using assms(4) [symmetric] by simp
  with call_on_conn_reply [OF rq assms(2,3), of rest] show ?thesis
    by (auto simp: get_on_conn_def get_reply_def resp_def status_defs split: option.splits)
qed

text \<open>Joining and splitting keys.\<close>

lemma split_join:
  "ws \<noteq> [] \<Longrightarrow> \<forall>w \<in> set ws. c \<notin> set w \<Longrightarrow> split_on c (join [c] ws) = ws"
  by (induction "[c]" ws rule: join.induct) (simp_all add: split_on_append_sep split_on_no_sep)

lemma join_Nil_iff: "join [c] ws = [] \<longleftrightarrow> ws = [] \<or> ws = [[]]"
  by (cases "([c], ws)" rule: join.cases) auto

lemma join_valid: "\<forall>w \<in> set ws. utf8_valid w \<Longrightarrow> utf8_valid (join [10] ws)"
proof (induction "[10 :: u8]" ws rule: join.induct)
  case (3 w v ws)
  have "utf8_valid [10]" by (rule utf8_valid_ascii) simp
  with 3 have "utf8_valid (w @ [10] @ join [10] (v # ws))" by (intro utf8_valid_append) simp_all
  then show ?case by simp
qed simp_all

lemma dict_keys_utf8: "dict_inv d \<Longrightarrow> iter_law it \<Longrightarrow> w \<in> fst ` set (it (d_map d)) \<Longrightarrow> str_ok w"
  by (auto simp: iter_set dict_inv_def entry_ok_def)

text \<open>The reply to a SET that fits, and to one that does not.\<close>

lemma dict_handle_set:
  assumes "dict_inv d" and "\<not> poisoned d" and "iter_law it" and "str_ok key"
  shows "fst (dict_handle it now (req OP_SET key val) d) =
    (if length val \<le> MAX_VALUE_SIZE then resp ST_OK []
     else resp ST_ERR (lit ''value exceeds 10MB limit''))"
  using assms dict_set_ok [OF assms(1,3), where val = val and key = key and now = now]
  by (simp add: dict_handle_req dict_op_def op_defs dict_set_def)

text \<open>An idle endpoint for the witnesses.\<close>

definition fresh_conn :: "bytes \<Rightarrow> conn" where
  "fresh_conn input =
     \<lparr>c_in = input, c_end = IoError UnexpectedEof [], c_out = [], c_cap = None,
      c_werr = IoError BrokenPipe [], c_timeout = None, c_clone = None, c_peer = Inr []\<rparr>"

lemma fresh_conn_simps [simp]:
  "c_in (fresh_conn i) = i" "c_cap (fresh_conn i) = None" "c_out (fresh_conn i) = []"
  "(fresh_conn i)\<lparr>c_in := j\<rparr> = fresh_conn j"
  by (simp_all add: fresh_conn_def)

section \<open>Properties\<close>

text \<open>A client that sends a GET for a key of at most 65535 bytes and receives the server's
  answer to that very request gets exactly what the dictionary holds (none for a missing key),
  has put one frame on the wire and consumed one.\<close>

theorem get_end_to_end:
  assumes "dict_inv d" and "\<not> poisoned d" and "str_ok key" and "c_cap c = None"
  shows "get_on_conn key (c\<lparr>c_in := frame (fst (dict_handle it now (req OP_GET key []) d)) @ rest\<rparr>) =
    (Inr (contents d key), conn_put (frame (req OP_GET key [])) (c\<lparr>c_in := rest\<rparr>))"
  using get_answered [OF assms(3) frame_ok_get_reply [OF assms(1)], of "c\<lparr>c_in := _\<rparr>"] assms
  by (simp add: dict_handle_get)

theorem get_end_to_end_witness:
  "fst (get_on_conn [107] (fresh_conn (frame (fst (dict_handle rev 3 (req OP_GET [107] []) full_dict)))))
     = Inr (Some [1])"
proof -
  have "\<not> poisoned full_dict" and "str_ok [107]" and "c_cap (fresh_conn []) = None"
    by (simp_all add: full_dict_def str_ok_def utf8_valid_ascii)
  from get_end_to_end [OF full_dict_inv this, of rev 3 "[]"]
  show ?thesis using full_dict_old by (simp add: contents_def)
qed

text \<open>C9: a client that sends a SET and receives the server's answer to it is told success
  exactly when the value has at most 10 MiB, and otherwise gets the server's size message.\<close>

theorem set_end_to_end:
  assumes "dict_inv d" and "\<not> poisoned d" and "iter_law it" and "str_ok key" and "c_cap c = None"
    and "frame_ok (req OP_SET key val)"
  shows "fst (set_on_conn key val
      (c\<lparr>c_in := frame (fst (dict_handle it now (req OP_SET key val) d)) @ rest\<rparr>)) =
    (if length val \<le> MAX_VALUE_SIZE then Inr ()
     else Inl (IoError OtherKind (lit ''value exceeds 10MB limit'')))"
proof -
  have ascii: "lossy (lit ''value exceeds 10MB limit'') = lit ''value exceeds 10MB limit''"
    by (rule lossy_valid, rule utf8_valid_ascii) (simp add: lit_def)
  have ok: "frame_ok (fst (dict_handle it now (req OP_SET key val) d))"
    by (simp add: dict_handle_set [OF assms(1-4)] frame_ok_resp lit_def)
  show ?thesis
    using call_on_conn_reply [OF assms(6) ok assms(5), of rest] ascii
    by (simp add: set_on_conn_def dict_handle_set [OF assms(1-4)] check_ok_def resp_def status_defs)
qed

theorem set_end_to_end_witness:
  "fst (set_on_conn [107] [1] (fresh_conn (frame (fst (dict_handle rev 3 (req OP_SET [107] [1]) full_dict)))))
     = Inr ()"
proof -
  have "\<not> poisoned full_dict" and k: "str_ok [107]" and c: "c_cap (fresh_conn []) = None"
    by (simp_all add: full_dict_def str_ok_def utf8_valid_ascii)
  moreover have "frame_ok (req OP_SET [107] [1])" by (rule frame_ok_req) (simp_all add: size_defs)
  ultimately show ?thesis
    using set_end_to_end [OF full_dict_inv _ iter_law_rev k c, of "[1]" 3 "[]"]
    by (simp add: size_defs)
qed

text \<open>C10: the ALL listing, when it fits in one frame, is decoded by the client to exactly the
  dictionary's entries, each once, keys and values unchanged.\<close>

theorem all_end_to_end:
  assumes "dict_inv d" and "\<not> poisoned d" and "iter_law it" and "t_connect t addr = Inr c"
    and "c_cap c = None" and "c_in c = frame (fst (dict_handle it now (req OP_ALL [] []) d))"
    and "frame_ok (fst (dict_handle it now (req OP_ALL [] []) d))"
  shows "\<exists>kvs. fst (client_all t addr) = Inr kvs \<and> map_of kvs = contents d \<and> distinct (map fst kvs)"
proof -
  let ?kvs = "map (\<lambda>(k, e). (k, e_value e)) (it (d_map d))"
  have "str_ok []" by (simp add: str_ok_def)
  then have reply: "fst (dict_handle it now (req OP_ALL [] []) d) =
      resp ST_OK (concat (map all_entry ?kvs))"
    using assms(2) by (simp add: dict_handle_req dict_op_def op_defs dict_all_def case_prod_unfold comp_def)
  have "\<forall>p \<in> set ?kvs. pair_ok p"
    using assms(1) by (force simp: iter_set [OF assms(3)] dict_inv_def entry_ok_def pair_ok_def size_defs)
  then have "parse_all (concat (map all_entry ?kvs)) = ?kvs"
    using all_code.parse_stream_stop [of ?kvs "[]"] by (simp add: dec_all_entry_def)
  moreover have "frame_ok (req OP_ALL [] [])" by (rule frame_ok_req) simp_all
  then have "call_on_conn (req OP_ALL [] []) c = (Inr (resp ST_OK (concat (map all_entry ?kvs))),
      conn_put (frame (req OP_ALL [] [])) (c\<lparr>c_in := []\<rparr>))"
    using call_on_conn_reply [of "req OP_ALL [] []" _ c "[]"] assms(5,6,7) reply
    by (metis (no_types, lifting) append_Nil2 conn.surjective conn.update_convs(1))
  ultimately have "fst (client_all t addr) = Inr ?kvs"
    using assms(4) by (simp add: client_all_def call_def with_conn_def connect_def check_ok_def resp_def)
  moreover have "map_of ?kvs = contents d"
  proof -
    have "hm_ok (d_map d)" using assms(1) by (simp add: dict_inv_def)
    with iter_map_of [OF assms(3) this] show ?thesis
      by (intro ext) (simp add: contents_def dict_lookup_def hm_get_def map_of_map)
  qed
  moreover have "distinct (map fst ?kvs)"
    using assms(1) iter_distinct [OF assms(3), of "d_map d"]
    by (simp add: dict_inv_def hm_ok_def case_prod_unfold comp_def)
  ultimately show ?thesis by blast
qed

definition two_keys :: dict where
  "two_keys = snd (dict_set rev 1 [98] [2] (snd (dict_set rev 1 [97] [1] dict_new)))"

lemma two_keys_map:
  "d_map two_keys = [([98], \<lparr>e_value = [2], e_access = 1\<rparr>), ([97], \<lparr>e_value = [1], e_access = 1\<rparr>)]"
  "poisoned two_keys = False"
  by (simp_all add: two_keys_def dict_new_def dict_set_def size_defs evict_until_def fits_def sat_add_def
      usize_add_def USIZE_MAX_def remove_key_def hm_get_def hm_insert_def hm_remove_def)

lemma two_keys_inv: "dict_inv two_keys"
  unfolding two_keys_def
  by (intro dict_set_inv dict_inv_new iter_law_rev) (simp_all add: str_ok_def utf8_valid_ascii)

theorem all_end_to_end_witness:
  "\<exists>t kvs. fst (client_all t []) = Inr kvs \<and> map_of kvs = contents two_keys"
proof -
  let ?r = "fst (dict_handle rev 2 (req OP_ALL [] []) two_keys)"
  let ?t = "\<lparr>t_connect = \<lambda>_. Inr (fresh_conn (frame ?r)), t_bind = \<lambda>_. Inr []\<rparr>"
  have "str_ok []" by (simp add: str_ok_def)
  then have "?r = resp ST_OK (concat (map (\<lambda>(k, e). all_entry (k, e_value e)) (rev (d_map two_keys))))"
    by (simp add: dict_handle_req two_keys_map dict_op_def op_defs dict_all_def)
  then have "frame_ok ?r"
    by (simp add: two_keys_map frame_ok_resp all_entry_def push_append)
  moreover have "\<not> poisoned two_keys" by (simp add: two_keys_map)
  ultimately show ?thesis
    using all_end_to_end [OF two_keys_inv _ iter_law_rev, of ?t "[]" "fresh_conn (frame ?r)" 2]
    by auto
qed

text \<open>C11: the KEYS listing, when it fits in one frame, gives the client the dictionary's keys,
  each once, provided no key contains a newline and the only key is not the empty one.\<close>

theorem keys_end_to_end:
  assumes "dict_inv d" and "\<not> poisoned d" and "iter_law it" and "c_cap c = None"
    and "frame_ok (fst (dict_handle it now (req OP_KEYS [] []) d))"
    and "\<forall>k. contents d k \<noteq> None \<longrightarrow> 10 \<notin> set k" and "map fst (d_map d) \<noteq> [[]]"
  shows "\<exists>ks. fst (keys_on_conn
      (c\<lparr>c_in := frame (fst (dict_handle it now (req OP_KEYS [] []) d)) @ rest\<rparr>)) = Inr ks \<and>
    distinct ks \<and> set ks = dom (contents d)"
proof -
  let ?ks = "map fst (it (d_map d))"
  have dom: "fst ` set (d_map d) = dom (contents d)"
  proof (rule set_eqI)
    fix k
    have "hm_get (d_map d) k = None \<longleftrightarrow> k \<notin> fst ` set (d_map d)"
      using assms(1) by (simp add: dict_inv_def hm.lookup_None)
    then show "k \<in> fst ` set (d_map d) \<longleftrightarrow> k \<in> dom (contents d)"
      by (simp add: contents_def dict_lookup_def domIff)
  qed
  have "str_ok []" by (simp add: str_ok_def)
  then have reply: "fst (dict_handle it now (req OP_KEYS [] []) d) = resp ST_OK (join [10] ?ks)"
    using assms(2) by (simp add: dict_handle_req dict_op_def op_defs dict_keys_def)
  have "frame_ok (req OP_KEYS [] [])" by (rule frame_ok_req) simp_all
  from call_on_conn_reply [OF this assms(5,4), of rest] reply
  have "fst (keys_on_conn (c\<lparr>c_in := frame (fst (dict_handle it now (req OP_KEYS [] []) d)) @ rest\<rparr>)) =
      Inr (if join [10] ?ks = [] then [] else split_on 10 (lossy (join [10] ?ks)))"
    by (simp add: keys_on_conn_def check_ok_def resp_def)
  also have "(if join [10] ?ks = [] then [] else split_on 10 (lossy (join [10] ?ks))) = ?ks"
  proof (cases "?ks = []")
    case False
    have "?ks \<noteq> [[]]"
    proof
      assume e: "?ks = [[]]"
      then have "length (it (d_map d)) = 1" by (metis length_map length_Cons list.size(3) One_nat_def)
      then have "length (d_map d) = 1" by (simp add: iter_length [OF assms(3)])
      then obtain p where p: "d_map d = [p]" by (cases "d_map d") auto
      then have "set (it (d_map d)) = {p}" by (simp add: iter_set [OF assms(3)])
      then have "fst ` {p} = set ?ks" by simp
      with e p assms(7) show False by simp
    qed
    moreover have "lossy (join [10] ?ks) = join [10] ?ks"
      using dict_keys_utf8 [OF assms(1,3)] by (intro lossy_valid join_valid) (auto simp: str_ok_def)
    moreover have "\<forall>w \<in> set ?ks. 10 \<notin> set w"
      using assms(6) dom by (auto simp: iter_set [OF assms(3)] domIff)
    ultimately show ?thesis using False by (simp add: join_Nil_iff split_join)
  qed simp
  finally have "fst (keys_on_conn
      (c\<lparr>c_in := frame (fst (dict_handle it now (req OP_KEYS [] []) d)) @ rest\<rparr>)) = Inr ?ks" .
  moreover have "distinct ?ks"
    using assms(1) iter_distinct [OF assms(3), of "d_map d"] by (simp add: dict_inv_def hm_ok_def)
  moreover have "set ?ks = dom (contents d)" using dom by (simp add: iter_set [OF assms(3)])
  ultimately show ?thesis by blast
qed

theorem keys_end_to_end_witness:
  "\<exists>ks. fst (keys_on_conn (fresh_conn (frame (fst (dict_handle rev 2 (req OP_KEYS [] []) two_keys)))))
     = Inr ks \<and> distinct ks \<and> set ks = dom (contents two_keys)"
proof -
  have "str_ok []" by (simp add: str_ok_def)
  then have "fst (dict_handle rev 2 (req OP_KEYS [] []) two_keys) = resp ST_OK [97, 10, 98]"
    by (simp add: dict_handle_req two_keys_map dict_op_def op_defs dict_keys_def)
  then have "frame_ok (fst (dict_handle rev 2 (req OP_KEYS [] []) two_keys))"
    by (simp add: frame_ok_resp)
  moreover have "\<not> poisoned two_keys" "map fst (d_map two_keys) \<noteq> [[]]"
    "\<forall>k. contents two_keys k \<noteq> None \<longrightarrow> 10 \<notin> set k"
    by (auto simp: two_keys_map contents_def dict_lookup_def hm_get_def split: if_splits)
  ultimately show ?thesis
    using keys_end_to_end [OF two_keys_inv _ iter_law_rev, of "fresh_conn []" 2 "[]"] by simp
qed

text \<open>A key of 65536 bytes or more is not refused by the client: its length field wraps, and
  the server takes the first \<open>length - 65536\<close> bytes for the key and prepends the rest of the key
  to the value. A SET of a 65536-byte key overwrites the entry of the empty key.\<close>

theorem long_key_misread:
  assumes "\<not> poisoned d" and "length key = 65536 + n" and "n < 65536" and "utf8_valid (take n key)"
  shows "dict_handle it now (req op key val) d = dict_op it now op (take n key) (drop n key @ val) d"
proof -
  have w: "(of_nat (65536 + n) :: u16) = of_nat n"
  proof -
    have "of_nat (65536 :: nat) = (0 :: u16)" by simp
    then show ?thesis by (simp only: of_nat_add add_0_left)
  qed
  have "req op key val = req op (take n key) (drop n key @ val)"
    using assms(2) by (simp only: req_def push_append w length_take) simp
  moreover have "str_ok (take n key)" using assms(2,3,4) by (simp add: str_ok_def)
  ultimately show ?thesis using assms(1) by (simp add: dict_handle_req)
qed

theorem long_key_misread_witness:
  "dict_handle rev 1 (req OP_SET (replicate 65536 97) [1]) dict_new =
     dict_op rev 1 OP_SET [] (replicate 65536 97 @ [1]) dict_new"
proof -
  have "\<not> poisoned dict_new" by (simp add: dict_new_def)
  moreover have "length (replicate 65536 97 :: bytes) = 65536 + 0" by simp
  moreover have "(0 :: nat) < 65536" by simp
  moreover have "utf8_valid (take 0 (replicate 65536 97))" by simp
  ultimately have "dict_handle rev 1 (req OP_SET (replicate 65536 97) [1]) dict_new =
      dict_op rev 1 OP_SET (take 0 (replicate 65536 97)) (drop 0 (replicate 65536 97) @ [1]) dict_new"
    by (rule long_key_misread)
  then show ?thesis by (simp only: take_0 drop_0)
qed

end
