(* ===== verification/Paths.thy ===== *)
theory Paths
  imports Thru_Prelude
begin

text \<open>
  \<^theory_text>\<open>Path::parent\<close> and \<^theory_text>\<open>Path::file_name\<close> of the standard library on a Unix system, as the
  component iterator computes them from the right: the root and a leading current-directory
  component are kept apart (\<open>body_start\<close> bytes), empty and single-dot components are skipped.
\<close>

definition body_start :: "rstr \<Rightarrow> nat" where
  "body_start s =
     (if s \<noteq> [] \<and> hd s = 47 then 1
      else if s \<noteq> [] \<and> hd s = 46 \<and> (length s = 1 \<or> s ! 1 = 47) then 1
      else 0)"

definition last_comp :: "nat \<Rightarrow> rstr \<Rightarrow> rstr" where
  "last_comp st s = rev (takeWhile (\<lambda>b. b \<noteq> 47) (rev (drop st s)))"

definition cut_comp :: "nat \<Rightarrow> rstr \<Rightarrow> rstr" where
  "cut_comp st s =
     take (length s - (length (last_comp st s) + (if 47 \<in> set (drop st s) then 1 else 0))) s"

fun trim_comps :: "nat \<Rightarrow> nat \<Rightarrow> rstr \<Rightarrow> rstr" where
  "trim_comps 0 st s = s"
| "trim_comps (Suc k) st s =
     (if st < length s \<and> (last_comp st s = [] \<or> last_comp st s = [46])
      then trim_comps k st (cut_comp st s) else s)"

definition trim_right :: "nat \<Rightarrow> rstr \<Rightarrow> rstr" where
  "trim_right st s = trim_comps (length s) st s"

definition path_parent :: "rstr \<Rightarrow> rstr option" where
  "path_parent s =
     (let st = body_start s; t = trim_right st s
      in if st < length t then Some (trim_right st (cut_comp st t))
         else if st = 1 \<and> hd s = 46 then Some []
         else None)"

definition path_file_name :: "rstr \<Rightarrow> rstr option" where
  "path_file_name s =
     (let st = body_start s; t = trim_right st s
      in if st < length t \<and> last_comp st t \<noteq> [46, 46] then Some (last_comp st t) else None)"

text \<open>\<^theory_text>\<open>trim_end_matches\<close> of a slash.\<close>

definition trim_slashes :: "rstr \<Rightarrow> rstr" where
  "trim_slashes s = rev (dropWhile (\<lambda>b. b = 47) (rev s))"

lemma path_examples:
  "path_parent (lit ''./a/b'') = Some (lit ''./a'')" "path_parent (lit ''./a'') = Some (lit ''.'')"
  "path_parent (lit ''a'') = Some []" "path_parent (lit ''/a'') = Some (lit ''/'')"
  "path_parent (lit ''/'') = None" "path_parent (lit ''a//b/'') = Some (lit ''a'')"
  "path_file_name (lit ''a/b.txt'') = Some (lit ''b.txt'')" "path_file_name (lit ''a/..'') = None"
  by code_simp+

end
