(* ===== verification/Client.thy ===== *)
theory Client
  imports Daemon Dict_Client Paths
begin

text \<open>
  The client commands (\<^theory_text>\<open>src/client.rs\<close>): shell, exec, dict, and the device list. A command's
  state is the process and the connection it opened. Messages on standard error are not
  modelled; an \<^theory_text>\<open>exit\<close> is an outcome.
\<close>

section \<open>Interactive shell\<close>

definition is_ascii_char :: "rstr \<Rightarrow> bool" where
  "is_ascii_char ch \<longleftrightarrow> length ch = 1 \<and> hd ch < 0x80"

definition key_to_bytes :: "key_event \<Rightarrow> bytes" where
  "key_to_bytes key =
     (if k_alt key then [0x1b] else []) @
     (case k_code key of
        KChar ch \<Rightarrow>
          if k_ctrl key \<and> is_ascii_char ch then
            (let b = hd ch
             in if 97 \<le> b \<and> b \<le> 122 then [b - 97 + 1]
                else if 65 \<le> b \<and> b \<le> 90 then [b - 65 + 1]
                else ch)
          else ch
      | KEnter \<Rightarrow> [10]
      | KBackspace \<Rightarrow> [0x7f]
      | KTab \<Rightarrow> [9]
      | KEsc \<Rightarrow> [0x1b]
      | KLeft \<Rightarrow> [0x1b, 91, 68]
      | KRight \<Rightarrow> [0x1b, 91, 67]
      | KUp \<Rightarrow> [0x1b, 91, 65]
      | KDown \<Rightarrow> [0x1b, 91, 66]
      | KHome \<Rightarrow> [0x1b, 91, 72]
      | KEnd \<Rightarrow> [0x1b, 91, 70]
      | KPageUp \<Rightarrow> [0x1b, 91, 53, 126]
      | KPageDown \<Rightarrow> [0x1b, 91, 54, 126]
      | KDelete \<Rightarrow> [0x1b, 91, 51, 126]
      | KOther \<Rightarrow> [])"

text \<open>The event loop: it ends with control-], with an event error, or with a write error.\<close>

fun shell_events :: "term_event io list \<Rightarrow> conn \<Rightarrow> unit io \<times> term_event io list \<times> conn" where
  "shell_events [] c = (Inr (), [], c)"
| "shell_events (Inl e # evs) c = (Inr (), evs, c)"
| "shell_events (Inr ev # evs) c =
     (case ev of
        KeyEv key \<Rightarrow>
          if k_code key = KChar [93] \<and> k_ctrl key then (Inr (), evs, c)
          else if key_to_bytes key = [] then shell_events evs c
          else (case write_frame (key_to_bytes key) c of
              (Inl e, c) \<Rightarrow> (Inl e, evs, c)
            | (Inr _, c) \<Rightarrow> shell_events evs c)
      | Resize cols rows \<Rightarrow>
          (case write_frame (OP_RESIZE # u16_to_be cols @ u16_to_be rows) c of
             (Inl e, c) \<Rightarrow> (Inl e, evs, c)
           | (Inr _, c) \<Rightarrow> shell_events evs c)
      | OtherEv \<Rightarrow> shell_events evs c)"

text \<open>The reader thread: frames go to standard output until the connection ends.\<close>

function shell_reader :: "conn \<Rightarrow> host \<Rightarrow> conn \<times> host" where
  "shell_reader c h =
     (case read_frame c of
        (Inl _, c) \<Rightarrow> (c, h)
      | (Inr f, c) \<Rightarrow> shell_reader c (put_out f h))"
  by pat_completeness auto
termination
  by (relation "measure (length \<circ> c_in \<circ> fst)") (auto dest: read_frame_shrinks [OF sym])

declare shell_reader.simps [simp del]

text \<open>
  \<open>term\<close> is the terminal's size, if it has one. The reader only reads and the event loop only
  writes; the reader is joined at the end, after the closing empty frame.
\<close>

definition remote_shell_interactive ::
    "(u16 \<times> u16) option \<Rightarrow> host \<times> conn \<Rightarrow> unit io \<times> (host \<times> conn)" where
  "remote_shell_interactive term s =
     (case s of (h, c) \<Rightarrow>
       let (cols, rows) = (case term of Some cr \<Rightarrow> cr | None \<Rightarrow> (80, 24))
       in (case write_frame (OP_SHELL_OPEN # u16_to_be cols @ u16_to_be rows) c of
             (Inl e, c) \<Rightarrow> (Inl e, (h, c))
           | (Inr _, c) \<Rightarrow>
               (case raw_mode_new h of
                  (Inl e, h) \<Rightarrow> (Inl e, (h, c))
                | (Inr _, h) \<Rightarrow>
                    (case try_clone c of
                       Inl e \<Rightarrow> (Inl e, (raw_mode_drop h, c))
                     | Inr _ \<Rightarrow>
                         (case shell_events (h_events h) c of
                            (result, evs, c) \<Rightarrow>
                              (case shell_reader (snd (write_frame [] c)) (h\<lparr>h_events := evs\<rparr>) of
                                 (c, h) \<Rightarrow> (result, (raw_mode_drop h, c))))))))"

definition with_session ::
    "'p system \<Rightarrow> rstr list \<Rightarrow> (conn \<Rightarrow> rstr \<Rightarrow> rstr list \<Rightarrow> host \<Rightarrow> 'a outcome \<times> host) \<Rightarrow> host \<Rightarrow>
       'a outcome \<times> host" where
  "with_session sys args k h =
     then_do (open_session (sy_sha sys) (sy_transport sys) args PORT h)
       (\<lambda>(c, addr, rest) h. k c addr rest h)"

definition shell_cmd :: "'p system \<Rightarrow> (u16 \<times> u16) option \<Rightarrow> rstr list \<Rightarrow> host \<Rightarrow> unit outcome \<times> host" where
  "shell_cmd sys term args h =
     with_session sys args (\<lambda>c _ _ h.
       (case set_read_timeout None c of
          (Inl e, _) \<Rightarrow> (Fail e, h)
        | (Inr _, c) \<Rightarrow>
            (case remote_shell_interactive term (h, c) of (r, (h, _)) \<Rightarrow> (of_io r, h)))) h"

section \<open>One-shot commands\<close>

definition exec_cmd :: "'p system \<Rightarrow> rstr list \<Rightarrow> host \<Rightarrow> unit outcome \<times> host" where
  "exec_cmd sys args h =
     with_session sys args (\<lambda>c _ rest h.
       if rest = [] then (Exit 1, h)
       else
         (case exec_script_on_conn (join [32] rest) c of
            (Inl e, _) \<Rightarrow> (Fail e, h)
          | (Inr (output, code), _) \<Rightarrow>
              let h = put_out output h
              in if code \<noteq> 0 then (Exit (sint code), h) else (Done (), h))) h"

text \<open>The listing loop with values: \<open>show\<close> prints one entry.\<close>

fun print_values :: "(rstr \<Rightarrow> bytes \<Rightarrow> bytes) \<Rightarrow> rstr list \<Rightarrow> conn \<Rightarrow> host \<Rightarrow> unit outcome \<times> host" where
  "print_values line [] c h = (Done (), h)"
| "print_values line (k # ks) c h =
     (case get_on_conn k c of
        (Inl e, _) \<Rightarrow> (Fail e, h)
      | (Inr None, c) \<Rightarrow> print_values line ks c h
      | (Inr (Some v), c) \<Rightarrow> print_values line ks c (put_line (line k v) h))"

definition dict_list :: "rstr list \<Rightarrow> conn \<Rightarrow> host \<Rightarrow> unit outcome \<times> host" where
  "dict_list rest c h =
     (case keys_on_conn c of
        (Inl e, _) \<Rightarrow> (Fail e, h)
      | (Inr keys, c) \<Rightarrow>
          if list_ex (\<lambda>s. s = lit ''-kv'') rest then print_values (\<lambda>k v. k @ [9] @ lossy v) keys c h
          else if list_ex (\<lambda>s. s = lit ''-v'') rest then print_values (\<lambda>k v. v) keys c h
          else (Done (), fold put_line keys h))"

definition dict_show :: "rstr \<Rightarrow> conn \<Rightarrow> host \<Rightarrow> unit outcome \<times> host" where
  "dict_show key c h =
     (case get_on_conn key c of
        (Inl e, _) \<Rightarrow> (Fail e, h)
      | (Inr (Some v), _) \<Rightarrow> (Done (), put_line v h)
      | (Inr None, _) \<Rightarrow> (Exit 1, h))"

definition dict_store :: "bool \<Rightarrow> rstr \<Rightarrow> bytes \<Rightarrow> conn \<Rightarrow> host \<Rightarrow> unit outcome \<times> host" where
  "dict_store app key val c h =
     (of_io (fst (if app then append_on_conn key val c else set_on_conn key val c)), h)"

text \<open>
  \<open>pos\<close>: the arguments after the first one that is not a flag. A value on standard input loses
  one final line feed.
\<close>

definition dict_keyed :: "rstr list \<Rightarrow> conn \<Rightarrow> host \<Rightarrow> unit outcome \<times> host" where
  "dict_keyed rest c h =
     (let app = list_ex (\<lambda>s. s = lit ''-a'') rest;
          is_get = (rest \<noteq> [] \<and> hd rest = lit ''get'');
          is_set = (rest \<noteq> [] \<and> hd rest = lit ''set'');
          args = (if is_get \<or> is_set then tl rest else rest)
      in (case dropWhile (\<lambda>s. starts_with (lit ''-'') s) args of
            [] \<Rightarrow> (Exit 2, h)
          | key # pos \<Rightarrow>
              if is_get then dict_show key c h
              else if pos \<noteq> [] then
                dict_store app key (join [32] (filter (\<lambda>s. s \<noteq> lit ''-a'') pos)) c h
              else if \<not> h_tty h then
                (let input = h_stdin h;
                     val = (if input \<noteq> [] \<and> last input = 10 then butlast input else input)
                 in dict_store app key val c (h\<lparr>h_stdin := []\<rparr>))
              else if is_set then (Exit 2, h)
              else dict_show key c h))"

definition dict_cmd :: "'p system \<Rightarrow> rstr list \<Rightarrow> host \<Rightarrow> unit outcome \<times> host" where
  "dict_cmd sys args h =
     with_session sys args (\<lambda>c _ rest h.
       if rest \<noteq> [] \<and> hd rest = lit ''list'' then dict_list rest c h else dict_keyed rest c h) h"

section \<open>The device list\<close>

record device_info =
  di_kind :: u8
  di_name :: rstr
  di_user :: rstr
  di_addr :: rstr
  di_connected_at :: u64
  di_active :: bool

text \<open>One round of the parsing loop; \<open>None\<close> leaves it.\<close>

definition dec_device :: "bytes \<Rightarrow> (device_info \<times> bytes) option" where
  "dec_device p =
     (case p of
        [] \<Rightarrow> None
      | kind # p \<Rightarrow>
          (case read_str p of
             None \<Rightarrow> None
           | Some (name, p) \<Rightarrow>
               (case read_str p of
                  None \<Rightarrow> None
                | Some (user, p) \<Rightarrow>
                    (case read_str p of
                       None \<Rightarrow> None
                     | Some (addr, p) \<Rightarrow>
                         if length p < 8 then None
                         else
                           let connected_at = u64_of_be (take 8 p); p = drop 8 p
                           in if p = [] then None
                              else Some (\<lparr>di_kind = kind, di_name = name, di_user = user, di_addr = addr,
                                di_connected_at = connected_at, di_active = (hd p \<noteq> 0)\<rparr>, tl p)))))"

lemma dec_device_shorter: "dec_device p = Some (x, rest) \<Longrightarrow> length rest < length p"
  by (fastforce simp: dec_device_def Let_def split: list.splits option.splits if_splits
      dest: read_str_shorter)

function parse_devices :: "bytes \<Rightarrow> device_info list" where
  "parse_devices p = (case dec_device p of None \<Rightarrow> [] | Some (x, rest) \<Rightarrow> x # parse_devices rest)"
  by pat_completeness auto
termination
  by (relation "measure length") (auto dest: dec_device_shorter)

declare parse_devices.simps [simp del]

definition parse_device_list :: "bytes \<Rightarrow> device_info list" where
  "parse_device_list data =
     (if data = [] \<or> data ! 0 \<noteq> ST_OK then [] else parse_devices (drop 1 data))"

definition format_duration :: "u64 \<Rightarrow> rstr" where
  "format_duration secs =
     (let n = unat secs
      in if n < 60 then decimal n @ lit ''s''
         else if n < 3600 then decimal (n div 60) @ lit ''m'' @ decimal (n mod 60) @ lit ''s''
         else if n < 86400 then decimal (n div 3600) @ lit ''h'' @ decimal (n mod 3600 div 60) @ lit ''m''
         else decimal (n div 86400) @ lit ''d'' @ decimal (n mod 86400 div 3600) @ lit ''h'')"

definition self_identity :: "host \<Rightarrow> rstr \<times> rstr" where
  "self_identity h =
     (if path_exists (pid_file h) h then (server_name, [])
      else
        (env_or h (lit ''HOSTNAME'') (lit ''COMPUTERNAME'') (lit ''anonymous''),
         env_or h (lit ''USER'') (lit ''USERNAME'') (lit ''unknown'')))"

end
