(* ===== verification/Screen.thy ===== *)
theory Screen
  imports Client
begin

text \<open>
  What the device menu and the file browser draw (\<^theory_text>\<open>src/client.rs\<close>, and the alternate screen of
  \<^theory_text>\<open>src/auth.rs\<close>): every round clears the screen and prints it whole, line ends as carriage
  return and line feed since the terminal is in raw mode.
\<close>

section \<open>Terminal output\<close>

text \<open>\<^theory_text>\<open>AlternateScreen::new\<close> and its \<^theory_text>\<open>drop\<close>.\<close>

definition alt_on :: bytes where
  "alt_on = [0x1b] @ lit ''[?1049h'' @ [0x1b] @ lit ''[?25l''"

definition alt_off :: bytes where
  "alt_off = [0x1b] @ lit ''[?1049l'' @ [0x1b] @ lit ''[?25h''"

definition clear_home :: bytes where
  "clear_home = [0x1b] @ lit ''[2J'' @ [0x1b] @ lit ''[H''"

definition crlf :: "rstr \<Rightarrow> rstr" where
  "crlf s = concat (map (\<lambda>b. if b = 10 then [13, 10] else [b]) s)"

definition screen :: "rstr \<Rightarrow> bytes" where
  "screen s = clear_home @ crlf s"

text \<open>Left-aligned padding counts characters: bytes that do not continue one.\<close>

definition char_count :: "rstr \<Rightarrow> nat" where
  "char_count s = length (filter (\<lambda>b. \<not> (0x80 \<le> b \<and> b < 0xC0)) s)"

definition pad :: "nat \<Rightarrow> rstr \<Rightarrow> rstr" where
  "pad n s = s @ replicate (n - char_count s) 32"

definition arrow_left :: rstr where "arrow_left = [0xE2, 0x86, 0x90]"
definition arrow_up :: rstr where "arrow_up = [0xE2, 0x86, 0x91]"
definition arrow_right :: rstr where "arrow_right = [0xE2, 0x86, 0x92]"
definition arrow_down :: rstr where "arrow_down = [0xE2, 0x86, 0x93]"

section \<open>The device menu\<close>

definition columns :: "rstr \<Rightarrow> rstr \<Rightarrow> rstr \<Rightarrow> rstr \<Rightarrow> rstr \<Rightarrow> rstr \<Rightarrow> rstr" where
  "columns mark dev user addr status uptime =
     pad 4 mark @ [32] @ pad 26 dev @ [32] @ pad 14 user @ [32] @ pad 22 addr @ [32] @
       pad 10 status @ [32] @ uptime"

definition uptime :: "u64 \<Rightarrow> device_info \<Rightarrow> rstr" where
  "uptime now d =
     (let secs = (if di_connected_at d \<le> now then now - di_connected_at d else 0)
      in if di_active d then format_duration secs else lit ''last seen '' @ format_duration secs)"

definition device_row :: "u64 \<Rightarrow> rstr \<Rightarrow> rstr \<Rightarrow> nat \<Rightarrow> nat \<times> device_info \<Rightarrow> rstr" where
  "device_row now self_name self_user sel row =
     (case row of (i, d) \<Rightarrow>
       let mark = (if i = sel then lit ''>'' else lit '' '');
           tag = (if di_kind d = 0 then lit ''[server]'' else lit ''[remote]'');
           is_self = (di_name d = self_name \<and> di_user d = self_user);
           dev_col = tag @ [32] @ di_name d @ (if is_self then lit '' (this device)'' else []);
           status = (if di_active d then lit ''active'' else lit ''offline'');
           line = columns mark dev_col (di_user d) (di_addr d) status (uptime now d)
       in if \<not> di_active d \<or> is_self
          then [0x1b] @ lit ''[2m'' @ line @ [0x1b] @ lit ''[0m'' @ [10]
          else line @ [10])"

definition device_screen :: "u64 \<Rightarrow> device_info list \<Rightarrow> rstr \<Rightarrow> rstr \<Rightarrow> nat \<Rightarrow> bytes" where
  "device_screen now devs self_name self_user sel =
     screen (lit ''Available devices ('' @ arrow_up @ arrow_down @
         lit '' select, Enter confirm, q/Esc quit)'' @ [10] @
       columns [] (lit ''DEVICE'') (lit ''USER'') (lit ''ADDRESS'') (lit ''STATUS'') (lit ''UPTIME'') @ [10] @
       concat (map (device_row now self_name self_user sel) (enumerate 0 devs)))"

section \<open>The file browser\<close>

definition browse_row :: "nat \<Rightarrow> nat \<times> fs_entry \<Rightarrow> rstr" where
  "browse_row sel row =
     (case row of (i, e) \<Rightarrow>
       (if i = sel then lit ''>'' else lit '' '') @ [32] @ fe_name e @
         (if fe_is_dir e then lit ''/'' else []) @ [10])"

definition confirm_line :: "(rstr \<times> bool) option \<Rightarrow> rstr" where
  "confirm_line c =
     (case c of
        None \<Rightarrow> []
      | Some (name, is_dir) \<Rightarrow>
          lit ''Download '' @ (if is_dir then lit ''directory (recursive)'' else lit ''file'') @ [32, 39] @
            name @ [39] @ lit ''?  Enter = confirm, any other key = cancel'' @ [10])"

definition browse_screen ::
    "rstr \<Rightarrow> rstr \<Rightarrow> fs_entry list \<Rightarrow> nat \<Rightarrow> (rstr \<times> bool) option \<Rightarrow> bytes" where
  "browse_screen label remote entries sel confirm =
     screen (lit ''target: '' @ label @ [10] @
       lit ''remote: '' @ remote @ lit ''  ('' @ arrow_up @ arrow_down @ lit '' select, '' @ arrow_right @
         lit '' enter dir, '' @ arrow_left @ lit '' back, Enter download, q/Esc quit)'' @ [10] @
       confirm_line confirm @ concat (map (browse_row sel) (enumerate 0 entries)))"

end
