(* ===== verification/Browse.thy ===== *)
theory Browse
  imports Screen
begin

text \<open>
  Choosing a device and browsing its files (\<^theory_text>\<open>src/client.rs\<close>): the device menu, the recursive
  download, the file browser and the two commands on top of them. The state is the process and
  the connection; \<open>Screen\<close> has what is drawn.
\<close>

section \<open>The device menu\<close>

definition selectable :: "rstr \<Rightarrow> rstr \<Rightarrow> device_info \<Rightarrow> bool" where
  "selectable self_name self_user d \<longleftrightarrow>
     di_active d \<and> \<not> (di_name d = self_name \<and> di_user d = self_user)"

fun position :: "('a \<Rightarrow> bool) \<Rightarrow> 'a list \<Rightarrow> nat option" where
  "position P [] = None"
| "position P (x # xs) = (if P x then Some 0 else map_option Suc (position P xs))"

text \<open>
  \<open>draw\<close> is the screen for a selected row, printed in every round. An index out of range is a
  panic.
\<close>

fun menu_loop ::
    "device_info list \<Rightarrow> (device_info \<Rightarrow> bool) \<Rightarrow> (nat \<Rightarrow> bytes) \<Rightarrow> nat \<Rightarrow> term_event io list \<Rightarrow> host \<Rightarrow>
       nat option outcome \<times> host" where
  "menu_loop devs ok draw sel [] h =
     (Fail (h_events_end h), put_out (draw sel) (h\<lparr>h_events := []\<rparr>))"
| "menu_loop devs ok draw sel (Inl err # evs) h = (Fail err, put_out (draw sel) (h\<lparr>h_events := evs\<rparr>))"
| "menu_loop devs ok draw sel (Inr ev # evs) h =
     (let h = put_out (draw sel) (h\<lparr>h_events := evs\<rparr>)
      in (case ev of
            KeyEv key \<Rightarrow>
              if k_kind key \<noteq> Press \<and> k_kind key \<noteq> Repeat then menu_loop devs ok draw sel evs h
              else if k_code key = KChar [113] \<or> k_code key = KEsc then (Done None, h)
              else if k_code key = KUp then
                menu_loop devs ok draw (if sel > 0 then sel - 1 else sel) evs h
              else if k_code key = KDown then
                menu_loop devs ok draw (if sel + 1 < length devs then sel + 1 else sel) evs h
              else if k_code key = KEnter then
                (if sel < length devs then
                   (if ok (devs ! sel) then (Done (Some sel), h) else menu_loop devs ok draw sel evs h)
                 else (Panic, h))
              else menu_loop devs ok draw sel evs h
          | _ \<Rightarrow> menu_loop devs ok draw sel evs h))"

text \<open>The alternate screen is left again however the menu ends: by a value, an error or a panic.\<close>

definition on_alt_screen :: "(host \<Rightarrow> 'a outcome \<times> host) \<Rightarrow> host \<Rightarrow> 'a outcome \<times> host" where
  "on_alt_screen f h =
     (let h = put_out alt_on h
      in (case raw_mode_new h of
            (Inl e, h) \<Rightarrow> (Fail e, put_out alt_off h)
          | (Inr _, h) \<Rightarrow> (case f h of (r, h) \<Rightarrow> (r, put_out alt_off (raw_mode_drop h)))))"

definition select_device_interactive ::
    "device_info list \<Rightarrow> rstr \<Rightarrow> rstr \<Rightarrow> int \<Rightarrow> host \<Rightarrow> nat option outcome \<times> host" where
  "select_device_interactive devs self_name self_user now h =
     (let ok = selectable self_name self_user;
          sel = (case position ok devs of Some i \<Rightarrow> i | None \<Rightarrow> 0)
      in on_alt_screen (\<lambda>h. menu_loop devs ok
           (device_screen (unix_secs now) devs self_name self_user) sel (h_events h) h) h)"

section \<open>Downloads\<close>

text \<open>Create the local file and stream the remote one into it.\<close>

definition download_file :: "rstr \<Rightarrow> rstr \<Rightarrow> host \<times> conn \<Rightarrow> u64 io \<times> (host \<times> conn)" where
  "download_file remote local_path s =
     (case s of (h, c) \<Rightarrow>
       (case file_create local_path h of
          (Inl e, h) \<Rightarrow> (Inl e, (h, c))
        | (Inr _, h) \<Rightarrow>
            (case get_on_conn_fs (file_append local_path) remote c h of
               (r, (c, h)) \<Rightarrow> (r, (h, c)))))"

text \<open>The loop over a directory's entries; \<open>rec\<close> downloads a sub-directory.\<close>

fun entries_loop ::
    "(rstr \<Rightarrow> host \<times> conn \<Rightarrow> (unit io \<times> (host \<times> conn)) option) \<Rightarrow> rstr \<Rightarrow> rstr \<Rightarrow> fs_entry list \<Rightarrow>
       host \<times> conn \<Rightarrow> (unit io \<times> (host \<times> conn)) option" where
  "entries_loop rec remote_dir local_dir [] s = Some (Inr (), s)"
| "entries_loop rec remote_dir local_dir (e # es) s =
     (if fe_is_dir e then
        (case rec (fe_name e) s of
           None \<Rightarrow> None
         | Some (Inl err, s) \<Rightarrow> Some (Inl err, s)
         | Some (Inr _, s) \<Rightarrow> entries_loop rec remote_dir local_dir es s)
      else
        (case download_file (remote_dir @ [47] @ fe_name e) (path_join local_dir (fe_name e)) s of
           (Inl err, s) \<Rightarrow> Some (Inl err, s)
         | (Inr _, s) \<Rightarrow> entries_loop rec remote_dir local_dir es s))"

text \<open>
  The recursion follows what the peer lists, so its depth is not bounded by anything local. The
  first argument is fuel; every level reads a frame of the input, so one more than the input's
  length is enough (\<open>download_dir_fuel\<close> in \<open>Browse_Spec\<close>). \<open>None\<close> is out of fuel.
\<close>

fun download_dir ::
    "nat \<Rightarrow> rstr \<Rightarrow> rstr \<Rightarrow> rstr \<Rightarrow> host \<times> conn \<Rightarrow> (unit io \<times> (host \<times> conn)) option" where
  "download_dir 0 base dir_name local_root s = None"
| "download_dir (Suc k) base dir_name local_root s =
     (let remote_dir = trim_slashes base @ [47] @ dir_name;
          local_dir = path_join local_root dir_name
      in (case s of (h, c) \<Rightarrow>
           (case create_dir_all local_dir h of
              (Inl e, h) \<Rightarrow> Some (Inl e, (h, c))
            | (Inr _, h) \<Rightarrow>
                (case ls_on_conn remote_dir c of
                   (Inl e, c) \<Rightarrow> Some (Inl e, (h, c))
                 | (Inr entries, c) \<Rightarrow>
                     entries_loop (\<lambda>name. download_dir k remote_dir name local_dir)
                       remote_dir local_dir entries (h, c)))))"

definition download_dir_recursive ::
    "rstr \<Rightarrow> rstr \<Rightarrow> rstr \<Rightarrow> host \<times> conn \<Rightarrow> unit io \<times> (host \<times> conn)" where
  "download_dir_recursive base dir_name local_root s =
     the (download_dir (Suc (length (c_in (snd s)))) base dir_name local_root s)"

section \<open>The file browser\<close>

record browser =
  b_remote :: rstr
  b_entries :: "fs_entry list"
  b_sel :: nat
  b_confirm :: "(rstr \<times> bool) option"

text \<open>List the directory \<open>path\<close> anew and select its first entry.\<close>

definition reload :: "rstr \<Rightarrow> browser \<Rightarrow> host \<times> conn \<Rightarrow> browser outcome \<times> (host \<times> conn)" where
  "reload path b s =
     then_do (on_conn (ls_on_conn path) s) (\<lambda>entries s.
       (Done (b\<lparr>b_remote := path, b_entries := entries, b_sel := 0\<rparr>), s))"

definition dot :: rstr where "dot = [46]"

text \<open>A confirmed download, then the directory is listed again.\<close>

definition fetch_item ::
    "rstr \<Rightarrow> rstr \<times> bool \<Rightarrow> browser \<Rightarrow> host \<times> conn \<Rightarrow> unit outcome \<times> (host \<times> conn)" where
  "fetch_item local_dir item b s =
     (case item of (name, is_dir) \<Rightarrow>
       if is_dir
       then (case download_dir_recursive (b_remote b) name local_dir s of (r, s) \<Rightarrow> (of_io r, s))
       else
         (case download_file (trim_slashes (b_remote b) @ [47] @ name) (path_join local_dir name) s of
            (Inl e, s) \<Rightarrow> (Fail e, s)
          | (Inr sz, (h, c)) \<Rightarrow>
              (Done (), (put_out (lit ''downloaded '' @ name @ lit '' ('' @ decimal (unat sz) @
                 lit '' bytes)'' @ [13, 10]) h, c))))"

definition confirmed ::
    "rstr \<Rightarrow> rstr \<times> bool \<Rightarrow> browser \<Rightarrow> host \<times> conn \<Rightarrow> browser outcome \<times> (host \<times> conn)" where
  "confirmed local_dir item b s =
     (let s = (put_out (clear_home @ lit ''downloading '' @ fst item @ lit '' ...'' @ [13, 10]) (fst s), snd s)
      in then_do (fetch_item local_dir item b s) (\<lambda>_ s. reload (b_remote b) b s))"

text \<open>A key when nothing is to be confirmed. An index out of range is a panic.\<close>

definition browse_plain ::
    "key_code \<Rightarrow> browser \<Rightarrow> host \<times> conn \<Rightarrow> browser outcome \<times> (host \<times> conn)" where
  "browse_plain code b s =
     (if code = KUp then
        (Done (if b_sel b > 0 then b\<lparr>b_sel := b_sel b - 1\<rparr> else b), s)
      else if code = KDown then
        (Done (if b_sel b + 1 < length (b_entries b) then b\<lparr>b_sel := b_sel b + 1\<rparr> else b), s)
      else if code = KLeft \<or> code = KBackspace then
        (if b_remote b \<noteq> dot then
           (let up = (case path_parent (b_remote b) of Some p \<Rightarrow> p | None \<Rightarrow> dot)
            in reload (if up = [] then dot else up) b s)
         else (Done b, s))
      else if code = KRight then
        (if b_entries b = [] then (Done b, s)
         else if b_sel b < length (b_entries b) then
           (let e = b_entries b ! b_sel b
            in if fe_is_dir e then reload (trim_slashes (b_remote b) @ [47] @ fe_name e) b s
               else (Done b, s))
         else (Panic, s))
      else if code = KEnter then
        (if b_entries b = [] then (Done b, s)
         else if b_sel b < length (b_entries b) then
           (let e = b_entries b ! b_sel b
            in (Done (b\<lparr>b_confirm := Some (fe_name e, fe_is_dir e)\<rparr>), s))
         else (Panic, s))
      else (Done b, s))"

text \<open>One key; \<open>None\<close> quits.\<close>

definition browse_key ::
    "rstr \<Rightarrow> key_event \<Rightarrow> browser \<Rightarrow> host \<times> conn \<Rightarrow> browser option outcome \<times> (host \<times> conn)" where
  "browse_key local_dir key b s =
     (let code = k_code key
      in if k_kind key \<noteq> Press \<and> k_kind key \<noteq> Repeat then (Done (Some b), s)
         else if code = KChar [113] \<or> code = KEsc \<or> (code = KChar [99] \<and> k_ctrl key) then (Done None, s)
         else
           then_do
             (case b_confirm b of
                Some item \<Rightarrow>
                  let b = b\<lparr>b_confirm := None\<rparr>
                  in if code = KEnter then confirmed local_dir item b s else (Done b, s)
              | None \<Rightarrow> browse_plain code b s)
             (\<lambda>b s. (Done (Some b), s)))"

text \<open>The event loop over the events of the terminal; the screen is drawn before each.\<close>

definition drawn :: "rstr \<Rightarrow> browser \<Rightarrow> host \<times> conn \<Rightarrow> host \<times> conn" where
  "drawn label b s =
     (put_out (browse_screen label (b_remote b) (b_entries b) (b_sel b) (b_confirm b)) (fst s), snd s)"

fun browse_loop ::
    "rstr \<Rightarrow> rstr \<Rightarrow> term_event io list \<Rightarrow> browser \<Rightarrow> host \<times> conn \<Rightarrow> unit outcome \<times> (host \<times> conn)" where
  "browse_loop label local_dir [] b s = (Fail (h_events_end (fst s)), drawn label b s)"
| "browse_loop label local_dir (Inl e # evs) b s = (Fail e, drawn label b s)"
| "browse_loop label local_dir (Inr ev # evs) b s =
     (case ev of
        KeyEv key \<Rightarrow>
          then_do (browse_key local_dir key b (drawn label b s)) (\<lambda>r s.
            (case r of None \<Rightarrow> (Done (), s) | Some b \<Rightarrow> browse_loop label local_dir evs b s))
      | _ \<Rightarrow> browse_loop label local_dir evs b (drawn label b s))"

text \<open>The directory is listed before the screen is switched.\<close>

definition fetch2_interactive :: "rstr \<Rightarrow> rstr \<Rightarrow> host \<times> conn \<Rightarrow> unit outcome \<times> (host \<times> conn)" where
  "fetch2_interactive local_dir label s =
     then_do (on_conn (set_read_timeout None) s) (\<lambda>_ s.
     then_do (on_conn (ls_on_conn dot) s) (\<lambda>entries s.
       (let h = put_out alt_on (fst s)
        in (case raw_mode_new h of
              (Inl e, h) \<Rightarrow> (Fail e, (put_out alt_off h, snd s))
            | (Inr _, h) \<Rightarrow>
                (case browse_loop label local_dir (h_events h)
                    \<lparr>b_remote = dot, b_entries = entries, b_sel = 0, b_confirm = None\<rparr> (h, snd s) of
                   (r, (h, c)) \<Rightarrow> (r, (put_out alt_off (raw_mode_drop h), c)))))))"

section \<open>The commands\<close>

definition set_target_frame :: "rstr \<Rightarrow> rstr \<Rightarrow> bytes" where
  "set_target_frame name user = push_str (push_str [OP_SET_TARGET] name) user"

definition device_label :: "device_info \<Rightarrow> rstr" where
  "device_label d =
     lit ''['' @ (if di_kind d = 0 then lit ''server'' else lit ''remote'') @ lit ''] '' @ di_name d @
       lit '' ('' @ di_user d @ lit ''@'' @ di_addr d @ lit '')''"

text \<open>An empty acknowledgement makes the slice \<^theory_text>\<open>&ack[1..]\<close> of the error message panic.\<close>

definition choose_device :: "rstr \<Rightarrow> device_info \<Rightarrow> host \<times> conn \<Rightarrow> unit outcome \<times> (host \<times> conn)" where
  "choose_device local_dir device s =
     then_do (on_conn (write_frame (set_target_frame (di_name device) (di_user device))) s) (\<lambda>_ s.
     then_do (on_conn read_frame s) (\<lambda>ack s.
       if ack = [] then (Panic, s)
       else if ack ! 0 \<noteq> ST_OK then (Exit 1, s)
       else
         then_do
           (if path_exists local_dir (fst s) then (Done (), s)
            else (case create_dir_all local_dir (fst s) of (r, h) \<Rightarrow> (of_io r, (h, snd s))))
           (\<lambda>_ s. fetch2_interactive local_dir (device_label device) s)))"

definition device_session :: "rstr list \<Rightarrow> int \<Rightarrow> host \<times> conn \<Rightarrow> unit outcome \<times> (host \<times> conn)" where
  "device_session rest now s =
     (let local_dir = (if rest = [] then dot else hd rest)
      in then_do (on_conn (write_frame [OP_DEVICE_LIST]) s) (\<lambda>_ s.
         then_do (on_conn read_frame s) (\<lambda>resp s.
           let devices = parse_device_list resp
           in if devices = [] then (Exit 1, s)
              else
                (let (self_name, self_user) = self_identity (fst s)
                 in (case select_device_interactive devices self_name self_user now (fst s) of (r, h) \<Rightarrow>
                      then_do (r, (h, snd s)) (\<lambda>choice s.
                        (case choice of
                           None \<Rightarrow> (Done (), s)
                         | Some sel \<Rightarrow> choose_device local_dir (devices ! sel) s)))))))"

definition device_cmd :: "'p system \<Rightarrow> int \<Rightarrow> rstr list \<Rightarrow> host \<Rightarrow> unit outcome \<times> host" where
  "device_cmd sys now args h =
     with_session sys args (\<lambda>c _ rest h.
       (case device_session rest now (h, c) of (r, (h, _)) \<Rightarrow> (r, h))) h"

text \<open>The device a non-interactive download comes from: a remote one first, then any other.\<close>

definition default_device :: "host \<Rightarrow> device_info list \<Rightarrow> rstr \<times> rstr" where
  "default_device h devices =
     (let (self_name, self_user) = self_identity h;
          ok = selectable self_name self_user
      in (case find (\<lambda>d. ok d \<and> di_kind d = 1) devices of
            Some d \<Rightarrow> (di_name d, di_user d)
          | None \<Rightarrow>
              (case find ok devices of
                 Some d \<Rightarrow> (di_name d, di_user d)
               | None \<Rightarrow> (server_name, []))))"

text \<open>The address shown is that of the first device of that name.\<close>

definition target_label :: "rstr \<times> rstr \<Rightarrow> device_info list \<Rightarrow> rstr" where
  "target_label target devices =
     (case target of (name, user) \<Rightarrow>
       if name = server_name then lit ''[server] local filesystem''
       else lit ''[remote] '' @ name @ lit '' ('' @ user @ lit ''@'' @
         (case find (\<lambda>d. di_name d = name) devices of Some d \<Rightarrow> di_addr d | None \<Rightarrow> []) @ lit '')'')"

text \<open>The path a line of standard input names: trimmed, without a byte-order mark.\<close>

definition stdin_path :: "rstr \<Rightarrow> rstr" where
  "stdin_path line = (case strip_prefix bom (trim line) of Some r \<Rightarrow> r | None \<Rightarrow> trim line)"

definition fetch2_piped :: "rstr \<Rightarrow> host \<times> conn \<Rightarrow> unit outcome \<times> (host \<times> conn)" where
  "fetch2_piped local_dir s =
     (case read_line (fst s) of (r, h) \<Rightarrow>
       then_do (of_io r, (h, snd s)) (\<lambda>line s.
         let remote = stdin_path line
         in if remote = [] then (Exit 1, s)
            else
              (let fname = (case path_file_name remote of Some n \<Rightarrow> n | None \<Rightarrow> lit ''download'');
                   local_path = path_join local_dir fname
               in (case file_create local_path (fst s) of
                     (Inl e, h) \<Rightarrow> (Fail e, (h, snd s))
                   | (Inr _, h) \<Rightarrow>
                       (case get_on_conn_fs (file_append local_path) remote (snd s) h of
                          (Inr _, (c, h)) \<Rightarrow> (Done (), (h, c))
                        | (Inl e, (c, h)) \<Rightarrow> (Fail e, (remove_file local_path h, c)))))))"

definition fetch2_session :: "rstr \<Rightarrow> host \<times> conn \<Rightarrow> unit outcome \<times> (host \<times> conn)" where
  "fetch2_session local_dir s =
     then_do (on_conn (write_frame [OP_DEVICE_LIST]) s) (\<lambda>_ s.
     then_do (on_conn read_frame s) (\<lambda>resp s.
       let devices = parse_device_list resp; (name, user) = default_device (fst s) devices
       in then_do (on_conn (write_frame (set_target_frame name user)) s) (\<lambda>_ s.
          then_do (on_conn read_frame s) (\<lambda>_ s.
            if \<not> h_tty (fst s) then fetch2_piped local_dir s else fetch2_interactive local_dir (target_label (name, user) devices) s))))"

text \<open>
  The local directory: created when it is missing (on a terminal after asking), then probed with
  a new file. \<open>Done ()\<close> means it can be used.
\<close>

definition yes :: "rstr \<Rightarrow> bool" where
  "yes ans \<longleftrightarrow> trim ans = [121] \<or> trim ans = [89]"

definition prepare_dir :: "nat \<Rightarrow> rstr \<Rightarrow> host \<Rightarrow> unit outcome \<times> host" where
  "prepare_dir pid local_dir h =
     then_do
       (if path_exists local_dir h then (Done (), h)
        else
          then_do
            (if h_tty h then
               (case read_line h of
                  (Inl e, h) \<Rightarrow> (Fail e, h)
                | (Inr ans, h) \<Rightarrow> if yes ans then (Done (), h) else (Exit 1, h))
             else (Done (), h))
            (\<lambda>_ h. case create_dir_all local_dir h of (r, h) \<Rightarrow> (of_io r, h)))
       (\<lambda>_ h.
         let probe = path_join local_dir (lit ''.thru_probe_'' @ decimal pid)
         in if path_exists probe h \<or> h_write_err h probe \<noteq> None then (Exit 1, h)
            else (Done (), remove_file probe (snd (fs_write probe [] h))))"

definition fetch2_cmd :: "'p system \<Rightarrow> rstr list \<Rightarrow> host \<Rightarrow> unit outcome \<times> host" where
  "fetch2_cmd sys args h =
     (case resolve_addr args PORT h of (_, rest) \<Rightarrow>
       if rest = [] then (Exit 2, h)
       else
         then_do (prepare_dir (x_pid (sy_exec sys)) (hd rest) h) (\<lambda>_ h.
           with_session sys args (\<lambda>c _ _ h.
             (case fetch2_session (hd rest) (h, c) of (r, (h, _)) \<Rightarrow> (r, h))) h))"

end
