(* ===== verification/Server.thy ===== *)
theory Server
  imports Daemon Dict
begin

text \<open>
  The server process (\<^theory_text>\<open>src/server.rs\<close>): its arguments, the accept loop (authentication, device
  registration, client threads), the dispatch of a client's frames, and the status reply. The
  dictionary, the device list and the table of connections are shared by all threads. A client
  thread is a record with its connection, its target device, the frame read before it was
  started, and whether it waits for ever; one round of its loop is \<open>client_step\<close>.
\<close>

section \<open>Arguments\<close>

record server_opts =
  so_password :: "rstr option"
  so_port :: nat
  so_max_devices :: nat

definition is_log_flag :: "rstr \<Rightarrow> bool" where
  "is_log_flag a \<longleftrightarrow> a = lit ''-l'' \<or> a = lit ''--log''"

definition is_max_flag :: "rstr \<Rightarrow> bool" where
  "is_max_flag a \<longleftrightarrow> a = lit ''-m'' \<or> a = lit ''--max-devices''"

definition bad_option :: "rstr \<Rightarrow> io_error" where
  "bad_option a =
     IoError InvalidInput (lit ''unknown server option: '' @ [39] @ a @ [39] @
       lit '' (expected -p, -m, or a port number)'')"

definition bad_port :: "rstr \<Rightarrow> io_error" where
  "bad_port a = IoError InvalidInput (lit ''invalid port number: '' @ [39] @ a @ [39])"

definition bad_max :: "rstr \<Rightarrow> io_error" where
  "bad_max a = IoError InvalidInput (lit ''invalid max-devices value: '' @ [39] @ a @ [39])"

fun run_server_args :: "server_opts \<Rightarrow> rstr list \<Rightarrow> server_opts io" where
  "run_server_args opts [] = Inr opts"
| "run_server_args opts (a # args) =
     (if a = lit ''-p'' \<and> args \<noteq> [] then run_server_args (opts\<lparr>so_password := Some (hd args)\<rparr>) (tl args)
      else if is_log_flag a \<and> args \<noteq> [] then run_server_args opts (tl args)
      else if is_max_flag a \<and> args \<noteq> [] then
        (case parse_usize (hd args) of
           None \<Rightarrow> Inl (bad_max (hd args))
         | Some m \<Rightarrow> run_server_args (opts\<lparr>so_max_devices := m\<rparr>) (tl args))
      else if starts_with (lit ''-'') a then Inl (bad_option a)
      else
        (case parse_u16 a of
           None \<Rightarrow> Inl (bad_port a)
         | Some p \<Rightarrow> run_server_args (opts\<lparr>so_port := p\<rparr>) args))"

definition server_defaults :: server_opts where
  "server_defaults = \<lparr>so_password = None, so_port = PORT, so_max_devices = 32\<rparr>"

text \<open>The parent's reading of the same arguments: exit on an unknown option, any port accepted.\<close>

record cmd_opts =
  co_port :: nat
  co_password :: "rstr option"
  co_log :: "rstr option"

fun server_cmd_args :: "cmd_opts \<Rightarrow> rstr list \<Rightarrow> cmd_opts option" where
  "server_cmd_args opts [] = Some opts"
| "server_cmd_args opts (a # args) =
     (if a = lit ''-p'' \<and> args \<noteq> [] then server_cmd_args (opts\<lparr>co_password := Some (hd args)\<rparr>) (tl args)
      else if is_log_flag a \<and> args \<noteq> [] then server_cmd_args (opts\<lparr>co_log := Some (hd args)\<rparr>) (tl args)
      else if is_max_flag a \<and> args \<noteq> [] then server_cmd_args opts (tl args)
      else if starts_with (lit ''-'') a then None
      else server_cmd_args (opts\<lparr>co_port := (case parse_u16 a of Some p \<Rightarrow> p | None \<Rightarrow> PORT)\<rparr>) args)"

section \<open>State\<close>

record config =
  cf_opts :: server_opts
  cf_user :: rstr
  cf_addr :: rstr
  cf_started :: u64
  cf_pid :: u32
  cf_iter :: iter
  cf_conn_iter :: "(u64 \<times> rstr) list \<Rightarrow> (u64 \<times> rstr) list"

record client =
  cl_id :: u64
  cl_conn :: conn
  cl_target :: "(rstr \<times> rstr) option"
  cl_pending :: "bytes option"
  cl_hung :: bool

record server =
  sv_dict :: dict
  sv_world :: rworld
  sv_exec :: exec_state
  sv_connections :: "(u64 \<times> rstr) list"
  sv_counter :: u64
  sv_clients :: "client list"

definition peer_or_unknown :: "conn \<Rightarrow> rstr" where
  "peer_or_unknown c = (case peer_addr c of Inl _ \<Rightarrow> lit ''unknown'' | Inr p \<Rightarrow> p)"

section \<open>Registration\<close>

definition max_msg :: "nat \<Rightarrow> rstr" where
  "max_msg m = lit ''max devices reached ('' @ decimal m @ lit '')''"

definition active_count :: "device list \<Rightarrow> nat" where
  "active_count devs = length (filter dv_active devs)"

text \<open>
  A refused device's connection is written to and dropped. Otherwise the connection moves into
  the store, the record is updated or appended, and a heartbeat monitor starts.
\<close>

definition register_device ::
    "nat \<Rightarrow> int \<Rightarrow> rstr \<Rightarrow> rstr \<Rightarrow> conn \<Rightarrow> rworld \<Rightarrow> conn option \<times> rworld" where
  "register_device max_devices now name user c w =
     (let remote = peer_or_unknown c; devs = rw_devices w
      in if 0 < max_devices \<and> max_devices \<le> active_count devs
         then (Some (reply (reverse_err (max_msg max_devices)) c), w)
         else
           let a = rw_next w;
               devs' =
                 (if list_ex (is_device name user) devs
                  then update_first (is_device name user)
                    (\<lambda>d. d\<lparr>dv_addr := remote, dv_last_seen := now, dv_active := True, dv_conn := Some a\<rparr>) devs
                  else devs @ [\<lparr>dv_name = name, dv_user = user, dv_addr = remote,
                    dv_connected_at = now, dv_last_seen = now, dv_active = True, dv_conn = Some a\<rparr>])
           in (None, w\<lparr>rw_devices := devs', rw_conns := (rw_conns w)(a := c), rw_next := a + 1,
                 rw_monitors := rw_monitors w @ [(a, name, user)]\<rparr>))"

section \<open>The accept loop\<close>

datatype accepted = Dropped conn | Registered | Started u64

text \<open>What the accept loop does with one accepted connection.\<close>

definition accept_conn ::
    "hash \<Rightarrow> config \<Rightarrow> bytes \<Rightarrow> int \<Rightarrow> conn \<Rightarrow> server \<Rightarrow> accepted \<times> server" where
  "accept_conn sha cfg nonce now c sv =
     (case auth_server sha nonce (so_password (cf_opts cfg)) c of
        (Inl _, c) \<Rightarrow> (Dropped c, sv)
      | (Inr ok, c) \<Rightarrow>
          if \<not> ok then (Dropped c, sv)
          else
            (case read_frame c of
               (Inl _, c) \<Rightarrow> (Dropped c, sv)
             | (Inr first, c) \<Rightarrow>
                 if first \<noteq> [] \<and> hd first = OP_REVERSE_REGISTER then
                   (case parse_reverse_registration first of
                      None \<Rightarrow> (Dropped c, sv)
                    | Some (name, user) \<Rightarrow>
                        (case register_device (so_max_devices (cf_opts cfg)) now name user c (sv_world sv) of
                           (Some c, w) \<Rightarrow> (Dropped c, sv\<lparr>sv_world := w\<rparr>)
                         | (None, w) \<Rightarrow> (Registered, sv\<lparr>sv_world := w\<rparr>)))
                 else
                   (let id = sv_counter sv; remote = peer_or_unknown c
                    in (Started id,
                        sv\<lparr>sv_counter := id + 1,
                           sv_connections := hm_insert id remote (sv_connections sv),
                           sv_clients := sv_clients sv @
                             [\<lparr>cl_id = id, cl_conn = c, cl_target = None,
                              cl_pending = Some first, cl_hung = False\<rparr>]\<rparr>))))"

section \<open>Serving a client's frames\<close>

definition status_reply :: "config \<Rightarrow> server \<Rightarrow> bytes" where
  "status_reply cfg sv =
     push_u32 (push_u32 [ST_OK] (cf_pid cfg)) (of_nat (length (sv_connections sv))) @
       concat (map (\<lambda>p. push_str [] (snd p)) (cf_conn_iter cfg (sv_connections sv)))"

text \<open>The wall clock (seconds since the epoch) and the monotonic clock the dictionary uses.\<close>

type_synonym clock = "int \<times> nat"

text \<open>\<open>None\<close>: the thread waits for ever. The flag says whether the operation was a basic one.\<close>

definition dispatch_basic ::
    "'p system \<Rightarrow> config \<Rightarrow> others \<Rightarrow> clock \<Rightarrow> bytes \<Rightarrow> client \<times> server \<Rightarrow> (bool \<times> (client \<times> server)) option" where
  "dispatch_basic sys cfg oth clk f s =
     (case s of (cl, sv) \<Rightarrow>
        if OP_GET \<le> f ! 0 \<and> f ! 0 \<le> OP_ALL then
          (case dict_handle (cf_iter cfg) (snd clk) f (sv_dict sv) of (r, d) \<Rightarrow>
             Some (True, (cl\<lparr>cl_conn := reply r (cl_conn cl)\<rparr>, sv\<lparr>sv_dict := d\<rparr>)))
        else if OP_LS \<le> f ! 0 \<and> f ! 0 \<le> OP_GET_fs then
          (case dispatch_fs oth (sy_fs sys) (fst clk) f ((cl_conn cl, sv_world sv), cl_target cl) of ((c, w), t) \<Rightarrow>
             Some (True, (cl\<lparr>cl_conn := c, cl_target := t\<rparr>, sv\<lparr>sv_world := w\<rparr>)))
        else if f ! 0 = OP_SHELL_OPEN then
          (case handle_shell_open (x_unix (sy_exec sys)) (sy_pty sys) f (p_host (sv_exec sv), cl_conn cl) of
             None \<Rightarrow> None
           | Some (_, (h, c)) \<Rightarrow>
               Some (True, (cl\<lparr>cl_conn := c\<rparr>, sv\<lparr>sv_exec := (sv_exec sv)\<lparr>p_host := h\<rparr>\<rparr>)))
        else if f ! 0 = OP_EXEC_SCRIPT then
          (case snd (handle_exec_script (sy_exec sys) f (sv_exec sv, cl_conn cl)) of (x, c) \<Rightarrow>
             Some (True, (cl\<lparr>cl_conn := c\<rparr>, sv\<lparr>sv_exec := x\<rparr>)))
        else Some (False, (cl, sv)))"

definition serve_frame ::
    "'p system \<Rightarrow> config \<Rightarrow> others \<Rightarrow> clock \<Rightarrow> bytes \<Rightarrow> client \<times> server \<Rightarrow> (client \<times> server) option" where
  "serve_frame sys cfg oth clk f s =
     (if f = [] then Some s
      else
        (case dispatch_basic sys cfg oth clk f s of
           None \<Rightarrow> None
         | Some (True, s) \<Rightarrow> Some s
         | Some (False, (cl, sv)) \<Rightarrow>
             let c = cl_conn cl; devs = rw_devices (sv_world sv)
             in if f ! 0 = OP_STATUS then
                  Some (cl\<lparr>cl_conn := reply (status_reply cfg sv) c\<rparr>, sv)
                else if f ! 0 = OP_REVERSE_LIST then
                  Some (cl\<lparr>cl_conn := handle_reverse_list devs c\<rparr>, sv)
                else if f ! 0 = OP_REVERSE_PROXY_LS then
                  (case handle_reverse_proxy_ls oth (fst clk) f (c, sv_world sv) of (c, w) \<Rightarrow>
                     Some (cl\<lparr>cl_conn := c\<rparr>, sv\<lparr>sv_world := w\<rparr>))
                else if f ! 0 = OP_REVERSE_PROXY_GET then
                  (case handle_reverse_proxy_get oth (fst clk) f (c, sv_world sv) of (c, w) \<Rightarrow>
                     Some (cl\<lparr>cl_conn := c\<rparr>, sv\<lparr>sv_world := w\<rparr>))
                else if f ! 0 = OP_DEVICE_LIST then
                  Some (cl\<lparr>cl_conn := handle_device_list devs (cf_user cfg) (cf_addr cfg) (cf_started cfg) c\<rparr>, sv)
                else if f ! 0 = OP_SET_TARGET then
                  (case handle_set_target f devs (c, cl_target cl) of (c, t) \<Rightarrow>
                     Some (cl\<lparr>cl_conn := c, cl_target := t\<rparr>, sv))
                else Some (cl, sv)))"

text \<open>One round of the loop: the pending frame or the next one; a failed read ends the thread.\<close>

datatype round = Goes_On client | Ends | Hangs

definition client_step ::
    "'p system \<Rightarrow> config \<Rightarrow> others \<Rightarrow> clock \<Rightarrow> client \<Rightarrow> server \<Rightarrow> round \<times> server" where
  "client_step sys cfg oth clk cl sv =
     (case (case cl_pending cl of
              Some f \<Rightarrow> (Inr f, cl_conn cl)
            | None \<Rightarrow> read_frame (cl_conn cl)) of
        (Inl _, c) \<Rightarrow> (Ends, sv\<lparr>sv_connections := hm_remove (cl_id cl) (sv_connections sv)\<rparr>)
      | (Inr f, c) \<Rightarrow>
          (case serve_frame sys cfg oth clk f (cl\<lparr>cl_conn := c, cl_pending := None\<rparr>, sv) of
             None \<Rightarrow> (Hangs, sv)
           | Some (cl, sv) \<Rightarrow> (Goes_On cl, sv)))"

section \<open>Starting up\<close>

definition server_new :: "exec_state \<Rightarrow> server" where
  "server_new st =
     \<lparr>sv_dict = dict_new,
      sv_world = \<lparr>rw_devices = [], rw_conns = (\<lambda>_. endpoint []), rw_next = 0, rw_monitors = []\<rparr>,
      sv_exec = st, sv_connections = [], sv_counter = 0, sv_clients = []\<rparr>"

text \<open>
  \<^theory_text>\<open>run_server\<close> up to its loop: the arguments, the bound listener, the shared state. \<open>it\<close> and
  \<open>cit\<close> are the iteration orders of the two hash maps.
\<close>

definition run_server ::
    "'p system \<Rightarrow> iter \<Rightarrow> ((u64 \<times> rstr) list \<Rightarrow> (u64 \<times> rstr) list) \<Rightarrow> int \<Rightarrow> rstr list \<Rightarrow> exec_state \<Rightarrow>
       (config \<times> server_listener \<times> server) outcome" where
  "run_server sys it cit now args st =
     (case run_server_args server_defaults args of
        Inl e \<Rightarrow> Fail e
      | Inr opts \<Rightarrow>
          (case transport_named sys (lit ''tcp'') of
            None \<Rightarrow> Panic
          | Some t \<Rightarrow>
            let addr = lit ''0.0.0.0:'' @ decimal (so_port opts)
            in (case server_bind t addr of
              Inl e \<Rightarrow> Fail e
            | Inr l \<Rightarrow>
                Done (\<lparr>cf_opts = opts,
                      cf_user = env_or (p_host st) (lit ''USER'') (lit ''USERNAME'') (lit ''unknown''),
                      cf_addr = addr, cf_started = unix_secs now,
                      cf_pid = of_nat (x_pid (sy_exec sys)), cf_iter = it, cf_conn_iter = cit\<rparr>,
                     l, server_new st))))"

text \<open>One turn of the accept loop; an accept error is skipped.\<close>

definition accept_turn ::
    "hash \<Rightarrow> config \<Rightarrow> bytes \<Rightarrow> int \<Rightarrow> server_listener \<times> server \<Rightarrow> (server_listener \<times> server) option" where
  "accept_turn sha cfg nonce now s =
     (case server_accept (fst s) of
        None \<Rightarrow> None
      | Some (Inl e, l) \<Rightarrow> Some (l, snd s)
      | Some (Inr c, l) \<Rightarrow> Some (l, snd (accept_conn sha cfg nonce now c (snd s))))"

text \<open>A heartbeat monitor that could not write stops.\<close>

definition monitor_turn :: "int \<Rightarrow> nat \<times> rstr \<times> rstr \<Rightarrow> rworld \<Rightarrow> rworld" where
  "monitor_turn now m w =
     (case m of (a, name, user) \<Rightarrow>
       (case heartbeat now a name user w of
          (True, w) \<Rightarrow> w
        | (False, w) \<Rightarrow> w\<lparr>rw_monitors := filter (\<lambda>q. fst q \<noteq> a) (rw_monitors w)\<rparr>))"

section \<open>The running server\<close>

text \<open>
  One step of the whole process: the accept loop takes a connection, a client thread makes one
  round (while the others do something that respects \<open>ok\<close>), or a monitor makes one.
\<close>

definition set_clients :: "client list \<Rightarrow> server \<Rightarrow> server" where
  "set_clients cs sv = sv\<lparr>sv_clients := cs\<rparr>"

inductive sv_step ::
    "'p system \<Rightarrow> config \<Rightarrow> (rworld \<Rightarrow> bool) \<Rightarrow> server \<Rightarrow> server \<Rightarrow> bool" for sys cfg ok where
  accepts: "sv_step sys cfg ok sv (snd (accept_conn (sy_sha sys) cfg nonce now c sv))"
| serves: "\<lbrakk>sv_clients sv = xs @ cl # ys; \<not> cl_hung cl; obeys ok oth;
    client_step sys cfg oth clk cl sv = (Goes_On cl', sv')\<rbrakk>
    \<Longrightarrow> sv_step sys cfg ok sv (set_clients (xs @ cl' # ys) sv')"
| finishes: "\<lbrakk>sv_clients sv = xs @ cl # ys; \<not> cl_hung cl;
    client_step sys cfg oth clk cl sv = (Ends, sv')\<rbrakk>
    \<Longrightarrow> sv_step sys cfg ok sv (set_clients (xs @ ys) sv')"
| hangs: "\<lbrakk>sv_clients sv = xs @ cl # ys; \<not> cl_hung cl;
    client_step sys cfg oth clk cl sv = (Hangs, sv')\<rbrakk>
    \<Longrightarrow> sv_step sys cfg ok sv (set_clients (xs @ cl\<lparr>cl_hung := True\<rparr> # ys) sv')"
| beats: "m \<in> set (rw_monitors (sv_world sv)) \<Longrightarrow>
    sv_step sys cfg ok sv (sv\<lparr>sv_world := monitor_turn now m (sv_world sv)\<rparr>)"

inductive_cases sv_stepE: "sv_step sys cfg ok sv sv'"

inductive reaches ::
    "'p system \<Rightarrow> config \<Rightarrow> (rworld \<Rightarrow> bool) \<Rightarrow> exec_state \<Rightarrow> nat \<Rightarrow> server \<Rightarrow> bool" for sys cfg ok st where
  initially: "reaches sys cfg ok st 0 (server_new st)"
| after: "reaches sys cfg ok st n sv \<Longrightarrow> sv_step sys cfg ok sv sv' \<Longrightarrow> reaches sys cfg ok st (Suc n) sv'"

end
