(* ===== verification/Server_Cmd.thy ===== *)
theory Server_Cmd
  imports Server
begin

text \<open>
  The server-side commands (\<^theory_text>\<open>src/server.rs\<close>): starting the server in the background, stopping it
  and the reverse connection, and showing its status. \<open>None\<close> is a process that never ends: the
  accept loop, once the listener is bound.
\<close>

section \<open>Starting\<close>

definition server_cmd ::
    "'p system \<Rightarrow> iter \<Rightarrow> ((u64 \<times> rstr) list \<Rightarrow> (u64 \<times> rstr) list) \<Rightarrow> int \<Rightarrow> rstr list \<Rightarrow> exec_state \<Rightarrow>
       (unit outcome \<times> exec_state) option" where
  "server_cmd sys it cit now args st =
     (let h = p_host st
      in if h_env h (lit ''THRU_DAEMON'') \<noteq> None then
           (case run_server sys it cit now args st of
              Done _ \<Rightarrow> None
            | Fail e \<Rightarrow> Some (Fail e, st)
            | Exit n \<Rightarrow> Some (Exit n, st)
            | Panic \<Rightarrow> Some (Panic, st))
         else if path_exists (pid_file h) h \<and> read_pid (pid_file h) h \<noteq> None
         then Some (Exit 1, st)
         else
           (case server_cmd_args \<lparr>co_port = PORT, co_password = None, co_log = None\<rparr> args of
              None \<Rightarrow> Some (Exit 1, st)
            | Some opts \<Rightarrow>
                (case spawn_daemon sys args (lit ''THRU_DAEMON'') (lit ''1'') (co_log opts) h of
                   (Inl e, h) \<Rightarrow> Some (Fail e, st\<lparr>p_host := h\<rparr>)
                 | (Inr pid, h) \<Rightarrow>
                     (case fs_write (pid_file h) (decimal pid) h of
                        (Inl e, h) \<Rightarrow> Some (Fail e, st\<lparr>p_host := h\<rparr>)
                      | (Inr _, h) \<Rightarrow>
                          let h = snd (save_session (lit ''127.0.0.1:'' @ decimal (co_port opts))
                                (co_password opts) h)
                          in Some (Exit 0, st\<lparr>p_host :=
                               put_line (lit ''thru server started on port '' @ decimal (co_port opts) @
                                 lit '' (pid '' @ decimal pid @ lit '')'') h\<rparr>)))))"

section \<open>Stopping\<close>

definition stop_reverse :: "'p system \<Rightarrow> host \<Rightarrow> host" where
  "stop_reverse sys h =
     (let rpf = reverse_pid_file h
      in if path_exists rpf h then
           remove_file rpf
             (case read_pid rpf h of
                None \<Rightarrow> h
              | Some pid \<Rightarrow>
                  (case force_kill sys pid h of
                     (True, h) \<Rightarrow> put_line (lit ''reverse connection stopped (pid '' @ decimal pid @ lit '')'') h
                   | (False, h) \<Rightarrow> h))
         else h)"

definition stop_server :: "'p system \<Rightarrow> host \<Rightarrow> unit io \<times> host" where
  "stop_server sys h =
     (let pf = pid_file h
      in if path_exists pf h then
           (case read_to_string pf h of
              Inl e \<Rightarrow> (Inl e, h)
            | Inr s \<Rightarrow>
                (case parse_u32 (trim s) of
                   None \<Rightarrow> (Inl (IoError InvalidData (lit ''invalid pid file'')), h)
                 | Some pid \<Rightarrow>
                     (case force_kill sys pid h of
                        (ok, h) \<Rightarrow>
                          let h = (if ok then put_line (lit ''thru server stopped (pid '' @ decimal pid @ lit '')'') h else h)
                          in (Inr (), stop_reverse sys (remove_file pf h)))))
         else (Inr (), stop_reverse sys h))"

section \<open>Status\<close>

text \<open>The names in an \<open>OP_REVERSE_LIST\<close> reply.\<close>

function parse_names :: "bytes \<Rightarrow> rstr list" where
  "parse_names p = (case read_str p of None \<Rightarrow> [] | Some (s, rest) \<Rightarrow> s # parse_names rest)"
  by pat_completeness auto
termination
  by (relation "measure length") (auto dest: read_str_shorter)

declare parse_names.simps [simp del]

definition put_lines :: "rstr list \<Rightarrow> host \<Rightarrow> host" where
  "put_lines ls h = fold put_line ls h"

definition numbered :: "rstr list \<Rightarrow> rstr list" where
  "numbered xs = map (\<lambda>(i, x). lit ''  '' @ decimal (i + 1) @ lit '': '' @ x) (enumerate 0 xs)"

definition status_lines :: "server_status \<Rightarrow> rstr list" where
  "status_lines s =
     [lit ''server pid: '' @ decimal (ss_pid s),
      lit ''active connections: '' @ decimal (length (ss_connections s))] @ numbered (ss_connections s)"

definition pid_cmd :: "'p system \<Rightarrow> rstr list \<Rightarrow> host \<Rightarrow> unit outcome \<times> host" where
  "pid_cmd sys args h =
     (let pf = pid_file h
      in if \<not> path_exists pf h then (Exit 1, h)
         else
           (case read_to_string pf h of
              Inl e \<Rightarrow> (Fail e, h)
            | Inr s \<Rightarrow>
                let local_line = lit ''server pid: '' @ trim s
                in (case open_session (sy_sha sys) (sy_transport sys) args PORT h of
                    (Fail e, h) \<Rightarrow> (Exit 1, put_line local_line h)
                  | (Exit n, h) \<Rightarrow> (Exit n, h)
                  | (Panic, h) \<Rightarrow> (Panic, h)
                  | (Done (c, _, _), h) \<Rightarrow>
                      (case query_server_status c of
                         (Inl e, _) \<Rightarrow> (Exit 1, put_line local_line h)
                       | (Inr status, c) \<Rightarrow>
                           let h = put_lines (status_lines status) h
                           in (case write_frame [OP_REVERSE_LIST] c of
                               (Inl e, _) \<Rightarrow> (Fail e, h)
                             | (Inr _, c) \<Rightarrow>
                                 (case read_frame c of
                                    (Inl _, _) \<Rightarrow> (Done (), h)
                                  | (Inr r, _) \<Rightarrow>
                                      if r \<noteq> [] \<and> r ! 0 = ST_OK then
                                        (let names = parse_names (drop 1 r)
                                         in (Done (),
                                             if names = [] then h
                                             else put_lines
                                               ((lit ''reverse clients ('' @ decimal (length names) @ lit ''):'') #
                                                map (\<lambda>n. lit ''  '' @ n) names) h))
                                      else (Done (), h)))))))"

end
