(* ===== verification/Cli.thy ===== *)
theory Cli
  imports Browse Server_Cmd
begin

text \<open>
  The command-line entry point (\<^theory_text>\<open>src/main.rs\<close>): dispatch on the first argument, and otherwise on
  the first argument that is no option: \<^theory_text>\<open>host:port\<close> connects, a port number (or nothing) starts
  a server. \<open>None\<close> is a process that does not end.
\<close>

text \<open>\<^theory_text>\<open>rsplitn\<close>at colons, two parts: after the last colon, and before it if there is one.\<close>

definition rsplit_colon :: "rstr \<Rightarrow> rstr \<times> rstr option" where
  "rsplit_colon s =
     (let port = rev (takeWhile (\<lambda>b. b \<noteq> 58) (rev s))
      in (port, if 58 \<in> set s then Some (take (length s - length port - 1) s) else None))"

definition addr_error :: "rstr \<Rightarrow> rstr \<Rightarrow> io_error" where
  "addr_error addr why =
     IoError InvalidInput (lit ''invalid address '' @ [39] @ addr @ [39] @ lit '': '' @ why)"

definition validate_addr :: "rstr \<Rightarrow> unit io" where
  "validate_addr addr =
     (case rsplit_colon addr of
        (_, None) \<Rightarrow> Inl (addr_error addr (lit ''expected host:port''))
      | (port_str, Some host_str) \<Rightarrow>
          if host_str = [] then Inl (addr_error addr (lit ''host is empty''))
          else if parse_u16 port_str = None then
            Inl (addr_error addr (lit ''port '' @ [39] @ port_str @ [39] @
              lit '' is not a valid number (1-65535)''))
          else Inr ())"

definition help_lines :: "rstr list" where
  "help_lines =
     [lit ''thru '' @ [0xE2, 0x80, 0x94] @ lit '' cross-platform device communication'',
      [],
      lit ''USAGE:'',
      lit ''  thru [port] [-p password] [-m N]    Start server (daemon, returns immediately; -m max devices)'',
      lit ''  thru <host:port> [-p password]      Connect to server and keep reverse connection (password only here)'',
      lit ''  thru stop                             Stop the running server and reverse connection'',
      lit ''  thru pid                              Show server PID, active connections and device list'',
      lit ''  thru shell [--connect addr]          Interactive remote terminal'',
      lit ''  thru exec <command> [--connect addr] Execute command on remote side'',
      lit ''  thru dict get <key> [--connect addr]       Read a dictionary value'',
      lit ''  thru dict set <key> <value> [--connect addr]  Write a dictionary value'',
      lit ''  thru dict <key> [value] [-a] [--connect addr]  Shorthand: read if no value, write if value given (-a = append)'',
      lit ''  thru dict list [-v|-kv] [--connect addr]    List keys (-v = values only, -kv = key<TAB>value)'',
      lit ''  thru fetch2 <local_dir>                Download files from the default target device'',
      lit ''  thru device <local_dir>                Interactively select a device, then browse/download its files'',
      lit ''  thru help                              Show this help'']"

text \<open>What a command that works on the process alone leaves.\<close>

definition on_host :: "exec_state \<Rightarrow> unit outcome \<times> host \<Rightarrow> (unit outcome \<times> exec_state) option" where
  "on_host st r = Some (fst r, st\<lparr>p_host := snd r\<rparr>)"

definition is_target :: "rstr \<Rightarrow> bool" where
  "is_target a \<longleftrightarrow> \<not> starts_with (lit ''-'') a \<and> a \<noteq> lit ''-p''"

definition main_target ::
    "'p system \<Rightarrow> iter \<Rightarrow> ((u64 \<times> rstr) list \<Rightarrow> (u64 \<times> rstr) list) \<Rightarrow> int \<Rightarrow> rstr list \<Rightarrow> exec_state \<Rightarrow>
       (unit outcome \<times> exec_state) option" where
  "main_target sys it cit now args st =
     (case find is_target args of
        None \<Rightarrow> server_cmd sys it cit now args st
      | Some t \<Rightarrow>
          if 58 \<in> set t then
            (case validate_addr t of
               Inl _ \<Rightarrow> Some (Exit 1, st)
             | Inr _ \<Rightarrow> connect_cmd sys args st)
          else if parse_u16 t = None then Some (Exit 1, st)
          else server_cmd sys it cit now args st)"

definition main ::
    "'p system \<Rightarrow> (u16 \<times> u16) option \<Rightarrow> iter \<Rightarrow> ((u64 \<times> rstr) list \<Rightarrow> (u64 \<times> rstr) list) \<Rightarrow> int \<Rightarrow>
       rstr list \<Rightarrow> exec_state \<Rightarrow> (unit outcome \<times> exec_state) option" where
  "main sys term it cit now args st =
     (let h = p_host st; cmd = (if args = [] then [] else hd args); rest = tl args
      in if cmd = lit ''dict'' then on_host st (dict_cmd sys rest h)
         else if cmd = lit ''fetch2'' then on_host st (fetch2_cmd sys rest h)
         else if cmd = lit ''device'' then on_host st (device_cmd sys now rest h)
         else if cmd = lit ''shell'' then on_host st (shell_cmd sys term rest h)
         else if cmd = lit ''exec'' then on_host st (exec_cmd sys rest h)
         else if cmd = lit ''stop'' then
           (case stop_server sys h of (r, h) \<Rightarrow> on_host st (of_io r, h))
         else if cmd = lit ''pid'' then on_host st (pid_cmd sys rest h)
         else if cmd = lit ''help'' \<or> cmd = lit ''--help'' \<or> cmd = lit ''-h'' then
           on_host st (Done (), put_lines help_lines h)
         else main_target sys it cit now args st)"

end
