(* ===== verification/Cli_Spec.thy ===== *)
theory Cli_Spec
  imports Cli
begin

text \<open>
  Correctness of the command line: which addresses are accepted, that the starting process and
  the server process read the same options, and what a start without a port does.
\<close>

section \<open>Addresses\<close>

lemma rsplit_last:
  "58 \<notin> set port \<Longrightarrow> rsplit_colon (host @ 58 # port) = (port, Some host)"
proof -
  assume p: "58 \<notin> set port"
  have "takeWhile (\<lambda>b. b \<noteq> 58) (rev port @ 58 # rev host) = rev port"
    using p by (subst takeWhile_append2) auto
  then show ?thesis by (simp add: rsplit_colon_def Let_def)
qed

lemma rsplit_none: "58 \<notin> set s \<Longrightarrow> snd (rsplit_colon s) = None"
  by (simp add: rsplit_colon_def Let_def)

text \<open>C36: \<open>validate_addr\<close> accepts exactly a non-empty host, a colon, and a port that parses as a
  16-bit number without a colon in it; the host may contain further colons.\<close>

theorem validate_addr_exact:
  "validate_addr addr = Inr () \<longleftrightarrow>
     (\<exists>hst port n. addr = hst @ 58 # port \<and> hst \<noteq> [] \<and> 58 \<notin> set port \<and>
        parse_u16 port = Some n \<and> n \<le> 65535)"
proof (cases "58 \<in> set addr")
  case True
  then obtain hst port where a: "addr = hst @ 58 # port" "58 \<notin> set port"
    by (metis split_list_last)
  have "validate_addr addr = Inr () \<longleftrightarrow> hst \<noteq> [] \<and> parse_u16 port \<noteq> None"
    using rsplit_last [OF a(2), of hst] a(1) by (auto simp: validate_addr_def)
  moreover have "hst' = hst \<and> port' = port" if "addr = hst' @ 58 # port'" "58 \<notin> set port'" for hst' port'
    using rsplit_last [OF a(2), of hst] rsplit_last [OF that(2), of hst'] a(1) that(1) by simp
  moreover have "n \<le> 65535" if "parse_u16 port = Some n" for n
    using that parse_uint_bound by (auto simp: parse_u16_def)
  ultimately show ?thesis using a by blast
next
  case False
  then show ?thesis using rsplit_none [OF False]
    by (auto simp: validate_addr_def split: prod.splits option.splits)
qed

section \<open>Options\<close>

text \<open>The two readers step alike: the fields both keep stay equal.\<close>

lemma options_agree:
  "run_server_args opts args = Inr opts' \<Longrightarrow> co_port c = so_port opts \<Longrightarrow> co_password c = so_password opts \<Longrightarrow>
     \<exists>c'. server_cmd_args c args = Some c' \<and> co_port c' = so_port opts' \<and> co_password c' = so_password opts'"
proof (induction opts args arbitrary: c rule: run_server_args.induct)
  case (2 opts a args)
  show ?case
  proof (cases "a = lit ''-p'' \<and> args \<noteq> []")
    case True
    with 2 show ?thesis by (auto simp del: One_nat_def)
  next
    case nop: False
    show ?thesis
    proof (cases "is_log_flag a \<and> args \<noteq> []")
      case True
      with 2 nop show ?thesis by auto
    next
      case nol: False
      show ?thesis
      proof (cases "is_max_flag a \<and> args \<noteq> []")
        case True
        with 2 nop nol show ?thesis by (auto split: option.splits)
      next
        case False
        with 2 nop nol show ?thesis by (auto split: if_splits option.splits)
      qed
    qed
  qed
qed simp

lemma server_defaults_sel [simp]: "so_port server_defaults = PORT" "so_password server_defaults = None"
  unfolding server_defaults_def by (rule server_opts.simps)+

text \<open>C35: the process that starts the server and the server it starts read the same arguments the
  same way: when the server accepts them, so did its parent, with the same port and password, so
  the session the parent caches is the one the server answers.\<close>

theorem server_options_agree:
  "run_server_args server_defaults args = Inr opts \<Longrightarrow>
     \<exists>c. server_cmd_args \<lparr>co_port = PORT, co_password = None, co_log = None\<rparr> args = Some c \<and>
       co_port c = so_port opts \<and> co_password c = so_password opts"
  using options_agree [of server_defaults args opts "\<lparr>co_port = PORT, co_password = None, co_log = None\<rparr>"]
  by (simp add: server_defaults_sel)

lemma server_options_agree_witness:
  "\<exists>c. server_cmd_args \<lparr>co_port = PORT, co_password = None, co_log = None\<rparr>
       [lit ''-m'', lit ''4'', lit ''8080'', lit ''-p'', lit ''pw''] = Some c \<and>
     co_port c = 8080 \<and> co_password c = Some (lit ''pw'')"
proof -
  have "parse_u16 (lit ''8080'') = Some 8080" "parse_usize (lit ''4'') = Some 4"
    by (simp_all add: parse_u16_def parse_usize_def parse_uint_def digit_val_def lit_def)
  then have "run_server_args server_defaults [lit ''-m'', lit ''4'', lit ''8080'', lit ''-p'', lit ''pw''] =
      Inr (server_defaults\<lparr>so_max_devices := 4, so_port := 8080, so_password := Some (lit ''pw'')\<rparr>)"
    by (simp add: lit_def is_log_flag_def is_max_flag_def starts_with_def)
  from server_options_agree [OF this] show ?thesis by simp
qed

text \<open>
  A start with options only is refused: the value of the option is taken for the target, which is
  neither an address nor a port. The password has to follow a port.
\<close>

lemma password_alone_refused:
  "58 \<notin> set pw \<Longrightarrow> \<not> starts_with (lit ''-'') pw \<Longrightarrow> parse_u16 pw = None \<Longrightarrow>
     main sys term it cit now [lit ''-p'', pw] st = Some (Exit 1, st)"
proof -
  assume a: "58 \<notin> set pw" "\<not> starts_with (lit ''-'') pw" "parse_u16 pw = None"
  have n: "find is_target [lit ''-p'', pw] = Some pw"
    using a by (auto simp: is_target_def starts_with_def lit_def)
  have "main sys term it cit now [lit ''-p'', pw] st = main_target sys it cit now [lit ''-p'', pw] st"
    by (simp add: main_def lit_def)
  with n a show ?thesis by (simp add: main_target_def)
qed

text \<open>
  The start reports success before the server has read its arguments: a second argument that is
  no number sends the session to the default port and makes the server refuse to run.
\<close>

lemma started_but_refused:
  assumes "parse_u16 x = None" and "\<not> starts_with (lit ''-'') x"
  shows "run_server_args server_defaults [lit ''8080'', x] = Inl (bad_port x)"
    and "server_cmd_args c [lit ''8080'', x] = Some (c\<lparr>co_port := PORT\<rparr>)"
proof -
  have "parse_u16 (lit ''8080'') = Some 8080"
    by (simp add: parse_u16_def parse_uint_def digit_val_def lit_def)
  moreover have "x \<noteq> lit ''-p''" "\<not> is_log_flag x" "\<not> is_max_flag x"
    using assms(2) by (auto simp: is_log_flag_def is_max_flag_def starts_with_def lit_def)
  ultimately show "run_server_args server_defaults [lit ''8080'', x] = Inl (bad_port x)"
    and "server_cmd_args c [lit ''8080'', x] = Some (c\<lparr>co_port := PORT\<rparr>)"
    using assms by (simp_all add: is_log_flag_def is_max_flag_def starts_with_def lit_def)
qed

end
