(* ===== verification/Client_Spec.thy ===== *)
theory Client_Spec
  imports Client
begin

text \<open>
  What the keys and flags of the client commands do where that is not what one expects: a key
  event is sent whatever its kind, and a flag after the key counts as a value.
\<close>

section \<open>Keys\<close>

text \<open>
  The shell's event loop does not look at the kind of a key event, so on a terminal that reports
  releases every key is sent twice.
\<close>

lemma key_release_sent:
  "shell_events (Inr (KeyEv (key\<lparr>k_kind := Release\<rparr>)) # evs) c = shell_events (Inr (KeyEv key) # evs) c"
proof -
  have "key_to_bytes (key\<lparr>k_kind := Release\<rparr>) = key_to_bytes key"
    by (cases "k_code key") (simp_all add: key_to_bytes_def)
  then show ?thesis by simp
qed

text \<open>What an event sequence without errors and without the closing key sends.\<close>

definition event_frame :: "term_event \<Rightarrow> bytes" where
  "event_frame ev =
     (case ev of
        KeyEv key \<Rightarrow> key_to_bytes key
      | Resize cols rows \<Rightarrow> OP_RESIZE # u16_to_be cols @ u16_to_be rows
      | OtherEv \<Rightarrow> [])"

lemma event_frame_simps [simp]:
  "event_frame (KeyEv key) = key_to_bytes key"
  "event_frame (Resize cols rows) = OP_RESIZE # u16_to_be cols @ u16_to_be rows"
  "event_frame OtherEv = []"
  by (simp_all add: event_frame_def)

definition closes :: "term_event \<Rightarrow> bool" where
  "closes ev \<longleftrightarrow> (\<exists>key. ev = KeyEv key \<and> k_code key = KChar [93] \<and> k_ctrl key)"

lemma shell_events_sent:
  assumes "\<forall>ev \<in> set evs. \<not> closes ev \<and> frame_ok (event_frame ev)" and "closes stop" and "c_cap c = None"
  shows "shell_events (map Inr evs @ Inr stop # rest) c =
    (Inr (), rest, conn_put (concat (map frame (filter (\<lambda>f. f \<noteq> []) (map event_frame evs)))) c)"
  using assms(1,3)
proof (induction evs arbitrary: c)
  case Nil
  with assms(2) show ?case by (auto simp: closes_def)
next
  case (Cons ev evs)
  have put: "conn_put b (conn_put a c) = conn_put (a @ b) c" for a b
    using Cons.prems(2) by (simp add: conn_put_def)
  show ?case
  proof (cases "event_frame ev = []")
    case True
    with Cons show ?thesis
      by (cases ev) (auto simp: closes_def)
  next
    case False
    let ?c = "conn_put (frame (event_frame ev)) c"
    have w: "write_frame (event_frame ev) c = (Inr (), ?c)"
      using Cons.prems by (simp add: write_frame_unlimited)
    have ih: "shell_events (map Inr evs @ Inr stop # rest) ?c =
        (Inr (), rest, conn_put (concat (map frame (filter (\<lambda>f. f \<noteq> []) (map event_frame evs)))) ?c)"
      using Cons by simp
    have n: "\<not> closes ev" using Cons.prems(1) by simp
    from w ih False n show ?thesis
      by (cases ev) (auto simp: closes_def put)
  qed
qed

section \<open>Flags\<close>

text \<open>
  A flag after the key counts as a value that the flag filter then removes: the empty string is
  appended, and the value on standard input is never read.
\<close>

lemma flag_after_key_discards_input:
  "\<not> starts_with (lit ''-'') key \<Longrightarrow> key \<noteq> lit ''get'' \<Longrightarrow> key \<noteq> lit ''set'' \<Longrightarrow>
     dict_keyed [key, lit ''-a''] c h = dict_store True key [] c h"
  by (simp add: dict_keyed_def Let_def)

end
