(* ===== verification/Reverse_Spec.thy ===== *)
theory Reverse_Spec
  imports Reverse
begin

text \<open>
  Correctness of the reverse tunnel's server side: a proxied request is answered by the device
  byte for byte as if the device served the client directly; what the proxies do when a device
  fails; where names, users and connections are confused.
\<close>

section \<open>Two-string requests\<close>

lemma first_two: "2 \<le> length p \<Longrightarrow> [p ! 0, p ! 1] = take 2 p"
  by (auto simp: numeral_2_eq_2 length_ge_Cons)

lemma parse_two_lossy:
  assumes a: "length a < 65536" and b: "length b < 65536"
  shows "parse_two_strings (op # str_field a @ str_field b @ rest) = Some (lossy a, lossy b)"
proof -
  let ?d = "op # str_field a @ str_field b @ rest" and ?n = "length a"
  have d: "?d = op # u16_to_be (of_nat ?n) @ a @ str_field b @ rest"
    by (simp add: str_field_def)
  have "unat (u16_of_be [?d ! 1, ?d ! 2]) = ?n"
    unfolding d tag16_field using a by (simp add: unat_u16 str_ok_def)
  moreover have d3: "drop 3 ?d = a @ str_field b @ rest" unfolding d by (rule tag16_rest)
  moreover have p: "drop (3 + ?n) ?d = str_field b @ rest"
    using d3 by (metis add.commute drop_drop drop_exact)
  moreover have "[(str_field b @ rest) ! 0, (str_field b @ rest) ! 1] = u16_to_be (of_nat (length b))"
    by (subst first_two) (simp_all add: str_field_def)
  moreover have "drop 2 (str_field b @ rest) = b @ rest" by (simp add: str_field_def)
  ultimately show ?thesis using a b
    by (simp add: parse_two_strings_def Let_def unat_u16 str_ok_def lossy_valid del: One_nat_def)
qed

lemma make_proxy_fields: "make_proxy_frame op a b = op # str_field a @ str_field b"
  by (simp add: make_proxy_frame_def push_append)

lemma parse_two_fields:
  "str_ok a \<Longrightarrow> str_ok b \<Longrightarrow> parse_two_strings (op # str_field a @ str_field b @ rest) = Some (a, b)"
  by (simp add: parse_two_lossy str_ok_def lossy_valid)

lemma parse_proxy_frame:
  "str_ok a \<Longrightarrow> str_ok b \<Longrightarrow> parse_reverse_proxy_req (make_proxy_frame op a b) = Some (a, b)"
  using parse_two_fields [of a b op "[]"] by (simp add: parse_reverse_proxy_req_def make_proxy_fields)

section \<open>What a device answers\<close>

definition ls_reply :: "fsys \<Rightarrow> rstr \<Rightarrow> bytes" where
  "ls_reply fs path =
     (case fs_read_dir fs (if path = [] then lit ''.'' else path) of
        Inl e \<Rightarrow> if err_kind e = NotFound then [ST_NOT_FOUND] else resp_err (err_msg e)
      | Inr entries \<Rightarrow> ST_OK # concat (map ls_entry (flatten_ok entries)))"

definition download_reply :: "fsys \<Rightarrow> rstr \<Rightarrow> bytes \<times> bytes list" where
  "download_reply fs path =
     (case fs_open fs path of
        Inl e \<Rightarrow> (if err_kind e = NotFound then [ST_NOT_FOUND] else resp_err (err_msg e), [])
      | Inr f \<Rightarrow>
          (case f_len f of
             Inl e \<Rightarrow> ([], [])
           | Inr sz \<Rightarrow> (push_u64 [ST_OK] sz, fst (file_chunks f) @ [[]])))"

lemma handle_ls_reply: "handle_ls fs path c = write_frame (ls_reply fs path) c"
  by (simp add: handle_ls_def ls_reply_def Let_def split: sum.splits)

lemma ls_served:
  assumes "str_ok path" and "c_cap c = None" and "fst (fs_handle fs (req_fs OP_LS path) c) = Inr ()"
  shows "frame_ok (ls_reply fs path) \<and>
    fs_handle fs (req_fs OP_LS path) c = (Inr (), conn_put (frame (ls_reply fs path)) c)"
proof -
  have h: "fs_handle fs (req_fs OP_LS path) c = write_frame (ls_reply fs path) c"
    using assms(1) by (simp add: fs_handle_def parse_path_req handle_ls_reply)
  then have "frame_ok (ls_reply fs path)"
    using assms(3) tcp.write_frame_too_large [of "ls_reply fs path" c] by fastforce
  with h assms(2) show ?thesis by (simp add: write_frame_unlimited)
qed

lemma get_served:
  assumes p: "str_ok path" and c: "c_cap c = None" and r: "fst (fs_handle fs (req_fs OP_GET_fs path) c) = Inr ()"
  shows "frame_ok (fst (download_reply fs path)) \<and>
    fs_handle fs (req_fs OP_GET_fs path) c =
      (Inr (), conn_put (frame (fst (download_reply fs path)) @ concat (map frame (snd (download_reply fs path)))) c)"
proof (cases "fs_open fs path")
  case (Inl e)
  then have h: "fs_handle fs (req_fs OP_GET_fs path) c = write_frame (fst (download_reply fs path)) c"
    using p by (simp add: fs_handle_def parse_path_req handle_get_def download_reply_def OP_GET_fs_def OP_LS_def)
  then have "frame_ok (fst (download_reply fs path))"
    using r tcp.write_frame_too_large [of "fst (download_reply fs path)" c] by fastforce
  with h c Inl show ?thesis by (simp add: write_frame_unlimited download_reply_def)
next
  case (Inr f)
  show ?thesis
  proof (cases "f_len f")
    case (Inl e)
    with Inr p r show ?thesis
      by (simp add: fs_handle_def parse_path_req handle_get_def OP_GET_fs_def OP_LS_def)
  next
    case len: (Inr sz)
    from fs_handle_get_open [OF p Inr len c] r Inr len show ?thesis
      by (auto simp: download_reply_def header_frame_ok split: option.splits)
  qed
qed

lemma download_reply_shape:
  assumes "fst (fs_handle fs (req_fs OP_GET_fs path) c) = Inr ()" and "str_ok path" and "c_cap c = None"
  shows "(\<exists>ds. hd (fst (download_reply fs path)) = ST_OK \<and> fst (download_reply fs path) \<noteq> [] \<and>
      snd (download_reply fs path) = ds @ [[]] \<and> (\<forall>d \<in> set ds. d \<noteq> [] \<and> frame_ok d)) \<or>
    (snd (download_reply fs path) = [] \<and> fst (download_reply fs path) \<noteq> [] \<and> hd (fst (download_reply fs path)) \<noteq> ST_OK)"
proof (cases "fs_open fs path")
  case (Inl e)
  then show ?thesis by (simp add: download_reply_def resp_err_def status_defs)
next
  case (Inr f)
  show ?thesis
  proof (cases "f_len f")
    case (Inl e)
    with Inr assms show ?thesis
      by (simp add: fs_handle_def parse_path_req handle_get_def OP_GET_fs_def OP_LS_def)
  next
    case (Inr sz)
    with \<open>fs_open fs path = Inr f\<close> file_chunks_data [of f] chunk_frame_ok show ?thesis
      by (auto simp: download_reply_def push_append)
  qed
qed

section \<open>The proxy loops\<close>

lemma proxy_copy_run:
  "\<forall>d \<in> set ds. d \<noteq> [] \<and> frame_ok d \<Longrightarrow> c_cap c = None \<Longrightarrow>
     proxy_copy (rc\<lparr>c_in := concat (map frame ds) @ frame [] @ rest\<rparr>) c =
       (False, rc\<lparr>c_in := rest\<rparr>, conn_put (concat (map frame ds) @ frame []) c)"
proof (induction ds arbitrary: c)
  case Nil
  then show ?case by (subst proxy_copy.simps) (simp add: read_frame_conn write_frame_unlimited)
next
  case (Cons d ds)
  then show ?case by (subst proxy_copy.simps) (simp add: read_frame_conn write_frame_unlimited)
qed

section \<open>Routing\<close>

text \<open>No other thread interferes.\<close>

definition alone :: others where
  "alone p w = w"

text \<open>The first active device called \<open>name\<close> is \<open>user\<close>'s, on connection \<open>a\<close>.\<close>

definition routes :: "rworld \<Rightarrow> rstr \<Rightarrow> rstr \<Rightarrow> nat \<Rightarrow> bool" where
  "routes w name user a \<longleftrightarrow>
     (\<exists>d. find (\<lambda>d. dv_name d = name \<and> dv_active d) (rw_devices w) = Some d \<and>
        dv_user d = user \<and> dv_conn d = Some a)"

lemma find_stronger:
  "find P xs = Some x \<Longrightarrow> Q x \<Longrightarrow> (\<And>y. Q y \<Longrightarrow> P y) \<Longrightarrow> find Q xs = Some x"
  by (induction xs) (auto split: if_splits)

lemma find_SomeD: "find P xs = Some x \<Longrightarrow> P x \<and> x \<in> set xs"
  by (auto simp: find_Some_iff)

lemma routes_conn:
  assumes "routes w name user a"
  shows "find_device_conn (rw_devices w) name user = Some a"
    and "list_ex (\<lambda>d. is_device name user d \<and> dv_active d) (rw_devices w)"
proof -
  from assms obtain d where d: "find (\<lambda>d. dv_name d = name \<and> dv_active d) (rw_devices w) = Some d"
    "dv_user d = user" "dv_conn d = Some a" by (auto simp: routes_def)
  from find_SomeD [OF d(1)] have n: "dv_name d = name" "dv_active d" "d \<in> set (rw_devices w)" by auto
  have "find (\<lambda>d. is_device name user d \<and> dv_active d) (rw_devices w) = Some d"
    by (rule find_stronger [OF d(1)]) (use d(2) n in \<open>auto simp: is_device_def\<close>)
  with d(3) show "find_device_conn (rw_devices w) name user = Some a"
    by (simp add: find_device_conn_def)
  show "list_ex (\<lambda>d. is_device name user d \<and> dv_active d) (rw_devices w)"
    using n d(2) by (auto simp: list_ex_iff is_device_def)
qed

lemma resolve_routes_calm:
  assumes "routes w name user a" and "str_ok name" and "str_ok path" and "oth Between_Lookups w = w"
  shows "resolve_proxy_target oth (make_proxy_frame op name path) (c, w) =
    (Some (a, name, user, path), (c, w))"
proof -
  from assms(1) obtain d where d: "find (\<lambda>d. dv_name d = name \<and> dv_active d) (rw_devices w) = Some d"
    "dv_user d = user" "dv_conn d = Some a" by (auto simp: routes_def)
  moreover from find_SomeD [OF d(1)] have "dv_name d = name" by simp
  ultimately show ?thesis using routes_conn(1) [OF assms(1)]
    by (simp add: resolve_proxy_target_def parse_proxy_frame [OF assms(2,3)] assms(4))
qed

lemmas resolve_routes = resolve_routes_calm [of _ _ _ _ _ alone, OF _ _ _ alone_def]

lemma send_proxy_ok:
  assumes "frame_ok f" and "c_cap (rw_conns w a) = None"
  shows "send_proxy_request oth now a name user f (c, w) =
    (True, (c, w\<lparr>rw_conns := (rw_conns w)(a := conn_put (frame f) (rw_conns w a))\<rparr>))"
  using assms by (simp add: send_proxy_request_def write_frame_unlimited)

lemma str_ok_length: "str_ok s \<Longrightarrow> length s < 65536"
  by (simp add: str_ok_def)

lemma proxy_ls_run:
  assumes r: "routes w name user a" and n: "str_ok name" and p: "str_ok path"
    and caps: "c_cap c = None" "c_cap (rw_conns w a) = None"
    and g: "frame_ok g" and i: "c_in (rw_conns w a) = frame g @ later"
  shows "handle_reverse_proxy_ls alone now (make_proxy_frame OP_REVERSE_PROXY_LS name path) (c, w) =
    (conn_put (frame g) c,
     w\<lparr>rw_conns := (rw_conns w)(a := conn_put (frame (req_fs OP_LS path)) (rw_conns w a\<lparr>c_in := later\<rparr>))\<rparr>)"
proof -
  have "read_frame (conn_put (frame (req_fs OP_LS path)) (rw_conns w a)) =
      (Inr g, conn_put (frame (req_fs OP_LS path)) (rw_conns w a\<lparr>c_in := later\<rparr>))"
    using read_frame_at [OF g, of "conn_put (frame (req_fs OP_LS path)) (rw_conns w a)" later] i by simp
  then show ?thesis using caps g
    by (simp add: handle_reverse_proxy_ls_def resolve_routes [OF r n p] reply_def write_frame_unlimited
        send_proxy_ok [OF frame_ok_req_fs [OF str_ok_length [OF p]] caps(2)])
qed

lemma proxy_get_run:
  assumes r: "routes w name user a" and n: "str_ok name" and p: "str_ok path"
    and caps: "c_cap c = None" "c_cap (rw_conns w a) = None"
    and g: "frame_ok g" and ds: "\<forall>d \<in> set ds. d \<noteq> [] \<and> frame_ok d"
    and i: "c_in (rw_conns w a) = frame g @ concat (map frame fs) @ later"
    and fs: "(g \<noteq> [] \<and> hd g = ST_OK \<and> fs = ds @ [[]]) \<or> (g \<noteq> [] \<and> hd g \<noteq> ST_OK \<and> fs = [])"
  shows "handle_reverse_proxy_get alone now (make_proxy_frame OP_REVERSE_PROXY_GET name path) (c, w) =
    (conn_put (frame g @ concat (map frame fs)) c,
     w\<lparr>rw_conns := (rw_conns w)(a := conn_put (frame (req_fs OP_GET_fs path)) (rw_conns w a\<lparr>c_in := later\<rparr>))\<rparr>)"
proof -
  let ?q = "frame (req_fs OP_GET_fs path)" and ?d = "rw_conns w a"
  have h: "read_frame (conn_put ?q ?d) = (Inr g, conn_put ?q (?d\<lparr>c_in := concat (map frame fs) @ later\<rparr>))"
    using read_frame_at [OF g, of "conn_put ?q ?d" "concat (map frame fs) @ later"] i by simp
  note s = resolve_routes [OF r n p] send_proxy_ok [OF frame_ok_req_fs [OF str_ok_length [OF p]] caps(2)]
    write_frame_unlimited h
  from fs show ?thesis
  proof
    assume ok: "g \<noteq> [] \<and> hd g = ST_OK \<and> fs = ds @ [[]]"
    have "proxy_copy (conn_put ?q (?d\<lparr>c_in := concat (map frame fs) @ later\<rparr>)) (conn_put (frame g) c) =
        (False, conn_put ?q (?d\<lparr>c_in := later\<rparr>), conn_put (concat (map frame ds) @ frame []) (conn_put (frame g) c))"
      using proxy_copy_run [OF ds, where c = "conn_put (frame g) c" and rc = "conn_put ?q ?d" and rest = later]
        ok caps by simp
    with ok caps g show ?thesis by (simp add: handle_reverse_proxy_get_def s)
  next
    assume "g \<noteq> [] \<and> hd g \<noteq> ST_OK \<and> fs = []"
    with caps g show ?thesis by (simp add: handle_reverse_proxy_get_def s)
  qed
qed

section \<open>Properties\<close>

text \<open>A proxied request as the server handles it.\<close>

lemma proxy_served:
  assumes "op = OP_LS \<or> op = OP_GET_fs" and "str_ok path" and "str_ok name" and "name \<noteq> server_name"
    and "routes w name user a" and "c_cap c = None" and "c_cap (rw_conns w a) = None" and "fresh dc"
    and "fs_handle dfs (req_fs op path) dc = (Inr (), dc')"
    and "c_in (rw_conns w a) = c_out dc' @ later"
  shows "\<exists>w'. dispatch_fs alone sfs now (req_fs op path) ((c, w), Some (name, user)) =
      ((conn_put (c_out dc') c, w'), Some (name, user)) \<and>
    rw_devices w' = rw_devices w \<and> c_in (rw_conns w' a) = later \<and>
    c_out (rw_conns w' a) = c_out (rw_conns w a) @ frame (req_fs op path)"
proof -
  have path: "parse_path (req_fs op path) = Inr path" "req_fs op path ! 0 = op"
    using assms(2) by (simp_all add: parse_path_req)
  have dc: "c_cap dc = None" "c_out dc = []" using assms(8) by (simp_all add: fresh_def)
  have disp: "dispatch_fs alone sfs now (req_fs op path) ((c, w), Some (name, user)) =
    ((if op = OP_LS then handle_reverse_proxy_ls alone now (make_proxy_frame OP_REVERSE_PROXY_LS name path) (c, w)
      else handle_reverse_proxy_get alone now (make_proxy_frame OP_REVERSE_PROXY_GET name path) (c, w)),
     Some (name, user))"
    using assms(1,4) path routes_conn(2) [OF assms(5)]
    by (auto simp: dispatch_fs_def alone_def Let_def)
  show ?thesis
  proof (cases "op = OP_LS")
    case True
    with ls_served [OF assms(2) dc(1), of dfs] assms(9)
    have g: "frame_ok (ls_reply dfs path)" "dc' = conn_put (frame (ls_reply dfs path)) dc" by simp_all
    then have out: "c_out dc' = frame (ls_reply dfs path)" using dc by simp
    with proxy_ls_run [OF assms(5,3,2,6,7) g(1), of later now] assms(10) True disp
    show ?thesis by simp
  next
    case False
    with assms(1) have op: "op = OP_GET_fs" by simp
    let ?g = "fst (download_reply dfs path)" and ?fs = "snd (download_reply dfs path)"
    from get_served [OF assms(2) dc(1), of dfs] assms(9) op
    have g: "frame_ok ?g" "dc' = conn_put (frame ?g @ concat (map frame ?fs)) dc" by simp_all
    then have out: "c_out dc' = frame ?g @ concat (map frame ?fs)" using dc by simp
    from download_reply_shape [OF _ assms(2) dc(1), of dfs] assms(9) op obtain ds where
      sh: "\<forall>d \<in> set ds. d \<noteq> [] \<and> frame_ok d"
        "(?g \<noteq> [] \<and> hd ?g = ST_OK \<and> ?fs = ds @ [[]]) \<or> (?g \<noteq> [] \<and> hd ?g \<noteq> ST_OK \<and> ?fs = [])"
      by (metis empty_iff empty_set fst_conv)
    from proxy_get_run [OF assms(5,3,2,6,7) g(1) sh(1) _ sh(2), of later now] out assms(10) False op disp
    show ?thesis by simp
  qed
qed

text \<open>C20: proxying is transparent: a listing or download for a selected, active device gives the
  client the very bytes the device's own handler would have written to it, terminator and error
  replies included; the device receives the client's request unchanged, and nothing it sends
  later is consumed. The device list does not change.\<close>

theorem proxy_transparent:
  assumes "op = OP_LS \<or> op = OP_GET_fs" and "str_ok path" and "str_ok name" and "name \<noteq> server_name"
    and "routes w name user a" and "c_cap c = None" and "c_cap (rw_conns w a) = None" and "fresh dc"
    and "fs_handle dfs (req_fs op path) dc = (Inr (), dc')"
    and "c_in (rw_conns w a) = c_out dc' @ later"
  shows "\<exists>w'. dispatch_fs alone sfs now (req_fs op path) ((c, w), Some (name, user)) =
      ((conn_put (c_out dc') c, w'), Some (name, user)) \<and>
    rw_devices w' = rw_devices w \<and> c_in (rw_conns w' a) = later \<and>
    c_out (rw_conns w' a) = c_out (rw_conns w a) @ frame (req_fs op path)"
  by (rule proxy_served [OF assms])

definition demo_device :: "rstr \<Rightarrow> rstr \<Rightarrow> nat \<Rightarrow> device" where
  "demo_device name user a = \<lparr>dv_name = name, dv_user = user, dv_addr = [], dv_connected_at = 0,
     dv_last_seen = 0, dv_active = True, dv_conn = Some a\<rparr>"

lemma demo_device_simps [simp]:
  "dv_name (demo_device n u a) = n" "dv_user (demo_device n u a) = u" "dv_active (demo_device n u a)"
  "dv_conn (demo_device n u a) = Some a"
  by (simp_all add: demo_device_def)

lemma str_ok_ascii: "\<forall>b \<in> set s. b < 0x80 \<Longrightarrow> length s < 65536 \<Longrightarrow> str_ok s"
  by (simp add: str_ok_def utf8_valid_ascii)

text \<open>A download of a two-byte file from a device, as the client sees it.\<close>

definition two_byte_fs :: fsys where
  "two_byte_fs = \<lparr>fs_read_dir = (\<lambda>_. Inr []),
     fs_open = (\<lambda>_. Inr \<lparr>f_len = Inr 2, f_reads = [Inr [8, 9]]\<rparr>)\<rparr>"

lemma two_byte_chunks: "file_chunks \<lparr>f_len = Inr 2, f_reads = [Inr [8, 9]]\<rparr> = ([[8, 9]], None)"
  by (simp add: file_chunks.simps file_read_def CHUNK_def)

definition two_byte_reply :: bytes where
  "two_byte_reply = frame (push_u64 [ST_OK] 2) @ frame [8, 9] @ frame []"

lemma two_byte_served:
  "str_ok path \<Longrightarrow> fs_handle two_byte_fs (req_fs OP_GET_fs path) (endpoint i) =
     (Inr (), conn_put two_byte_reply (endpoint i))"
  using fs_handle_get_open [of path two_byte_fs "\<lparr>f_len = Inr 2, f_reads = [Inr [8, 9]]\<rparr>" 2 "endpoint i"]
  by (simp add: two_byte_fs_def two_byte_chunks two_byte_reply_def)

theorem proxy_transparent_witness:
  "\<exists>w t. fst (fst (dispatch_fs alone two_byte_fs 0 (req_fs OP_GET_fs [47]) ((endpoint [], w), t)))
     = conn_put two_byte_reply (endpoint [])"
proof -
  define w where "w = \<lparr>rw_devices = [demo_device [112] [117] 0], rw_conns = (\<lambda>_. endpoint two_byte_reply),
    rw_next = 1, rw_monitors = []\<rparr>"
  have p: "str_ok [47]" and n: "str_ok [112]" by (simp_all add: str_ok_ascii)
  have s: "[112] \<noteq> server_name" by (simp add: server_name_def lit_def)
  have r: "routes w [112] [117] 0" by (simp add: routes_def w_def)
  have c: "c_cap (endpoint []) = None" "c_cap (rw_conns w 0) = None" by (simp_all add: w_def)
  have i: "c_in (rw_conns w 0) = c_out (conn_put two_byte_reply (endpoint [])) @ []"
    by (simp add: w_def)
  have op: "OP_GET_fs = OP_LS \<or> OP_GET_fs = OP_GET_fs" by simp
  have f: "fresh (endpoint [])" by simp
  from proxy_transparent [OF op p n s r c f two_byte_served [OF p] i, of two_byte_fs 0] show ?thesis
    by (intro exI [of _ w] exI [of _ "Some ([112], [117])"]) auto
qed

text \<open>The proxies look a device up by its name only: with two active devices of one name, a
  request for the second user's device is carried out exactly as one for the first user's, on the
  first one's connection.\<close>

lemma proxy_ignores_user:
  assumes "routes w name user1 a" and "name \<noteq> server_name" and "str_ok name" and "str_ok path"
    and "list_ex (\<lambda>d. is_device name user2 d \<and> dv_active d) (rw_devices w)"
    and "c_cap c = None" and "c_cap (rw_conns w a) = None"
    and "frame_ok g" and "c_in (rw_conns w a) = frame g @ later"
  shows "\<exists>w'. dispatch_fs alone sfs now (req_fs OP_LS path) ((c, w), Some (name, user2)) =
      ((conn_put (frame g) c, w'), Some (name, user2)) \<and>
    c_out (rw_conns w' a) = c_out (rw_conns w a) @ frame (req_fs OP_LS path)"
  using assms proxy_ls_run [OF assms(1,3,4,6,7,8,9)] parse_path_req [OF assms(4), of OP_LS]
  by (simp add: dispatch_fs_def alone_def Let_def)

text \<open>A client that disappears during a proxied download leaves the rest of the file on the
  device's connection: the device stays active, and the next client's listing is answered with a
  chunk of that file.\<close>

theorem abandoned_download_misfeeds:
  assumes "routes w name user a" and "str_ok name" and "str_ok path" and "str_ok path2"
    and "c_cap c = Some 0" and "c_cap c2 = None" and "c_cap (rw_conns w a) = None"
    and "frame_ok g" and "frame_ok d" and "c_in (rw_conns w a) = frame g @ frame d @ later"
    and "handle_reverse_proxy_get alone now (make_proxy_frame OP_REVERSE_PROXY_GET name path) (c, w) = (c', w1)"
    and "handle_reverse_proxy_ls alone now2 (make_proxy_frame OP_REVERSE_PROXY_LS name path2) (c2, w1) = (c2', w2)"
  shows "rw_devices w1 = rw_devices w \<and> c2' = conn_put (frame d) c2"
proof -
  let ?q = "frame (req_fs OP_GET_fs path)" and ?d = "rw_conns w a"
  have h: "read_frame (conn_put ?q ?d) = (Inr g, conn_put ?q (?d\<lparr>c_in := frame d @ later\<rparr>))"
    using read_frame_at [OF assms(8), of "conn_put ?q ?d" "frame d @ later"] assms(10) by simp
  have "\<not> conn_room (4 + length g) c" using assms(5) by (simp add: conn_room_def)
  then obtain e t where "write_frame g c = (Inl e, t)"
    using tcp.write_frame_fail [of g c] by (metis prod.collapse)
  with h assms(11) have w1: "w1 = w\<lparr>rw_conns := (rw_conns w)(a := conn_put ?q (?d\<lparr>c_in := frame d @ later\<rparr>))\<rparr>"
    by (simp add: handle_reverse_proxy_get_def resolve_routes [OF assms(1,2,3)]
        send_proxy_ok [OF frame_ok_req_fs [OF str_ok_length [OF assms(3)]] assms(7)])
  then have "routes w1 name user a" using assms(1) by (simp add: routes_def)
  from proxy_ls_run [OF this assms(2,4,6) _ assms(9)] assms(7,12) w1 show ?thesis by simp
qed

theorem abandoned_download_misfeeds_witness:
  "\<exists>c w c' w1 w2. c_cap c = Some 0 \<and>
     handle_reverse_proxy_get alone 0 (make_proxy_frame OP_REVERSE_PROXY_GET [112] [47]) (c, w) = (c', w1) \<and>
     handle_reverse_proxy_ls alone 1 (make_proxy_frame OP_REVERSE_PROXY_LS [112] [46]) (endpoint [], w1) =
       (conn_put (frame [8, 9]) (endpoint []), w2)"
proof -
  define w where "w = \<lparr>rw_devices = [demo_device [112] [117] 0], rw_conns = (\<lambda>_. endpoint two_byte_reply),
    rw_next = 1, rw_monitors = []\<rparr>"
  define c where "c = endpoint []\<lparr>c_cap := Some 0\<rparr>"
  obtain c' w1 where get: "handle_reverse_proxy_get alone 0
    (make_proxy_frame OP_REVERSE_PROXY_GET [112] [47]) (c, w) = (c', w1)" by fastforce
  obtain c2' w2 where ls: "handle_reverse_proxy_ls alone 1
    (make_proxy_frame OP_REVERSE_PROXY_LS [112] [46]) (endpoint [], w1) = (c2', w2)" by fastforce
  have r: "routes w [112] [117] 0" by (simp add: routes_def w_def)
  have n: "str_ok [112]" "str_ok [47]" "str_ok [46]" by (simp_all add: str_ok_ascii)
  have c: "c_cap c = Some 0" "c_cap (endpoint []) = None" "c_cap (rw_conns w 0) = None"
    by (simp_all add: w_def c_def)
  have f: "frame_ok (push_u64 [ST_OK] 2)" "frame_ok [8, 9]"
    by (simp_all add: header_frame_ok frame_ok_small)
  have i: "c_in (rw_conns w 0) = frame (push_u64 [ST_OK] 2) @ frame [8, 9] @ frame []"
    by (simp add: w_def two_byte_reply_def)
  from abandoned_download_misfeeds [OF r n c f i get ls] c(1) get ls show ?thesis by blast
qed

end
