(* ===== verification/Daemon_Spec.thy ===== *)
theory Daemon_Spec
  imports Daemon Reverse_Spec
begin

text \<open>
  Correctness of the process that serves a registered device: what it writes is, request by
  request, what the file handler writes, and nothing for the frames it does not serve.
\<close>

section \<open>Handlers that only write\<close>

text \<open>
  On a connection that accepts everything the operation has one result and writes one sequence
  of bytes, whatever else the connection holds.
\<close>

definition emits :: "(conn \<Rightarrow> 'a io \<times> conn) \<Rightarrow> 'a io \<Rightarrow> bytes \<Rightarrow> bool" where
  "emits g r x \<longleftrightarrow> (\<forall>c. c_cap c = None \<longrightarrow> g c = (r, conn_put x c))"

lemma conn_put_append: "c_cap c = None \<Longrightarrow> conn_put b (conn_put a c) = conn_put (a @ b) c"
  by (simp add: conn_put_def)

lemma emits_value: "emits (\<lambda>c. (r, c)) r []"
  by (simp add: emits_def)

lemma emits_frame: "\<exists>r x. emits (write_frame f) r x"
proof (cases "frame_ok f")
  case True
  then have "emits (write_frame f) (Inr ()) (frame f)" by (simp add: emits_def write_frame_unlimited)
  then show ?thesis by blast
next
  case False
  then have "emits (write_frame f) (Inl (too_large InvalidInput (length f))) []"
    by (simp add: emits_def tcp.write_frame_too_large)
  then show ?thesis by blast
qed

lemma emits_try:
  assumes "\<exists>r x. emits g r x" and "\<And>v. \<exists>r x. emits (k v) r x"
  shows "\<exists>r x. emits (\<lambda>c. try_io (g c) k) r x"
proof -
  from assms(1) obtain r x where g: "emits g r x" by blast
  show ?thesis
  proof (cases r)
    case (Inl e)
    with g have "emits (\<lambda>c. try_io (g c) k) (Inl e) x" by (simp add: emits_def)
    then show ?thesis by blast
  next
    case (Inr v)
    from assms(2) obtain q y where "emits (k v) q y" by blast
    with g Inr have "emits (\<lambda>c. try_io (g c) k) q (x @ y)"
      by (simp add: emits_def conn_put_append)
    then show ?thesis by blast
  qed
qed

lemma emits_get_loop: "\<exists>r x. emits (get_loop f) r x"
proof (induction f rule: measure_induct_rule [where f = reads_left])
  case (less f)
  obtain q f' where q: "file_read CHUNK f = (q, f')" by fastforce
  show ?case
  proof (cases "\<exists>d. q = Inr d \<and> d \<noteq> []")
    case True
    then obtain d where d: "q = Inr d" "d \<noteq> []" by blast
    have "get_loop f = (\<lambda>c. try_io (write_frame d c) (\<lambda>_ c. get_loop f' c))"
      by (rule ext, subst get_loop.simps) (simp add: q d try_io_def split: sum.splits prod.splits)
    moreover from file_read_progress q d less have "\<exists>r x. emits (get_loop f') r x" by blast
    ultimately show ?thesis using emits_try [OF emits_frame, of "\<lambda>_. get_loop f'"] by simp
  next
    case False
    then have "get_loop f = (\<lambda>c. (case q of Inl e \<Rightarrow> Inl e | Inr _ \<Rightarrow> Inr (), c))"
      by (intro ext, subst get_loop.simps) (auto simp: q split: sum.splits)
    then show ?thesis using emits_value by metis
  qed
qed

lemma emits_handle_get: "\<exists>r x. emits (handle_get fs path) r x"
proof (cases "fs_open fs path")
  case (Inl e)
  then have "handle_get fs path =
      write_frame (if err_kind e = NotFound then [ST_NOT_FOUND] else resp_err (err_msg e))"
    by (intro ext) (simp add: handle_get_def)
  then show ?thesis by (simp add: emits_frame)
next
  case (Inr f)
  show ?thesis
  proof (cases "f_len f")
    case (Inl e)
    with Inr have "handle_get fs path = (\<lambda>c. (Inl e, c))" by (intro ext) (simp add: handle_get_def)
    then show ?thesis using emits_value by metis
  next
    case len: (Inr sz)
    from len Inr have eq: "handle_get fs path = (\<lambda>c. try_io (write_frame (push_u64 [ST_OK] sz) c)
        (\<lambda>_ c. try_io (get_loop f c) (\<lambda>_ c. write_frame [] c)))"
      by (intro ext) (simp add: handle_get_def)
    show ?thesis unfolding eq
      by (rule emits_try [OF emits_frame], rule emits_try [OF emits_get_loop emits_frame])
  qed
qed

lemma emits_fs_handle: "\<exists>r x. emits (fs_handle fs f) r x"
proof (cases "f = []")
  case True
  then have "fs_handle fs f = write_frame (resp_err (lit ''empty request''))"
    by (intro ext) (simp add: fs_handle_def)
  then show ?thesis by (simp add: emits_frame)
next
  case f: False
  show ?thesis
  proof (cases "parse_path f")
    case (Inl e)
    with f have "fs_handle fs f = (\<lambda>c. (Inl e, c))" by (intro ext) (simp add: fs_handle_def)
    then show ?thesis using emits_value by metis
  next
    case (Inr path)
    with f have "fs_handle fs f =
        (if f ! 0 = OP_LS then write_frame (ls_reply fs path)
         else if f ! 0 = OP_GET_fs then handle_get fs path
         else write_frame (resp_err (lit ''unknown fs operation'')))"
      by (intro ext) (simp add: fs_handle_def handle_ls_reply)
    then show ?thesis by (simp add: emits_frame emits_handle_get)
  qed
qed

section \<open>The loop\<close>

text \<open>What the process answers to a frame.\<close>

definition is_fs_op :: "bytes \<Rightarrow> bool" where
  "is_fs_op f \<longleftrightarrow> f \<noteq> [] \<and> OP_LS \<le> f ! 0 \<and> f ! 0 \<le> OP_GET_fs"

definition daemon_answer :: "fsys \<Rightarrow> bytes \<Rightarrow> bytes" where
  "daemon_answer fs f = (if is_fs_op f then c_out (snd (fs_handle fs f (endpoint []))) else [])"

lemma fs_handle_answer:
  "is_fs_op f \<Longrightarrow> c_cap c = None \<Longrightarrow> snd (fs_handle fs f c) = conn_put (daemon_answer fs f) c"
  using emits_fs_handle [of fs f] by (auto simp: emits_def daemon_answer_def)

lemma daemon_step:
  assumes "frame_ok f" and "f \<noteq> [] \<longrightarrow> f ! 0 \<noteq> OP_SHELL_OPEN \<and> f ! 0 \<noteq> OP_EXEC_SCRIPT"
    and "c_cap c = None" and "c_in c = frame f @ rest"
  shows "daemon_loop sys st c = daemon_loop sys st (conn_put (daemon_answer (sy_fs sys) f) (c\<lparr>c_in := rest\<rparr>))"
proof -
  have r: "read_frame c = (Inr f, c\<lparr>c_in := rest\<rparr>)" by (rule read_frame_at [OF assms(1,4)])
  show ?thesis
  proof (cases "is_fs_op f")
    case True
    with r fs_handle_answer [OF True, of "c\<lparr>c_in := rest\<rparr>" "sy_fs sys"] assms(3)
    show ?thesis by (subst daemon_loop.simps) (simp add: is_fs_op_def)
  next
    case False
    with r assms(2) show ?thesis
      by (subst daemon_loop.simps) (auto simp: is_fs_op_def daemon_answer_def)
  qed
qed

text \<open>The loop over the frames it receives.\<close>

lemma daemon_loop_run:
  assumes "\<forall>f \<in> set fs. frame_ok f \<and> (f \<noteq> [] \<longrightarrow> f ! 0 \<noteq> OP_SHELL_OPEN \<and> f ! 0 \<noteq> OP_EXEC_SCRIPT)"
    and "c_cap c = None" and "c_in c = concat (map frame fs)"
  shows "\<exists>c'. daemon_loop sys st c = Some (st, c') \<and> c_in c' = [] \<and>
    c_out c' = c_out c @ concat (map (daemon_answer (sy_fs sys)) fs)"
  using assms
proof (induction fs arbitrary: c)
  case Nil
  then show ?case
    by (subst daemon_loop.simps) (simp add: gen_read_frame_def read_exact_def)
next
  case (Cons f fs)
  let ?c = "conn_put (daemon_answer (sy_fs sys) f) (c\<lparr>c_in := concat (map frame fs)\<rparr>)"
  have "daemon_loop sys st c = daemon_loop sys st ?c"
    using Cons.prems by (intro daemon_step) simp_all
  with Cons.IH [of ?c] Cons.prems show ?case by simp
qed

text \<open>C21: the process that serves a registered device answers every listing and download the server
  forwards with what the file handler writes for it, in the order of the requests, keeps silent
  on everything else (heartbeats, empty frames, operations it does not serve), and ends when the
  server closes the connection.\<close>

theorem daemon_serves:
  assumes "\<forall>f \<in> set fs. frame_ok f \<and> (f \<noteq> [] \<longrightarrow> f ! 0 \<noteq> OP_SHELL_OPEN \<and> f ! 0 \<noteq> OP_EXEC_SCRIPT)"
    and "c_cap c = None" and "c_in c = concat (map frame fs)"
  shows "\<exists>c'. daemon_loop sys st c = Some (st, c') \<and> c_in c' = [] \<and>
    c_out c' = c_out c @ concat (map (daemon_answer (sy_fs sys)) fs)"
  by (rule daemon_loop_run [OF assms])

definition no_files :: fsys where
  "no_files = \<lparr>fs_read_dir = (\<lambda>_. Inl (IoError NotFound [])), fs_open = (\<lambda>_. Inl (IoError NotFound []))\<rparr>"

theorem daemon_serves_witness:
  "\<forall>(sys0 :: unit system) st. \<exists>c'. daemon_loop (sys0\<lparr>sy_fs := no_files\<rparr>) st
       (endpoint (concat (map frame [[70], req_fs OP_LS [47], []]))) = Some (st, c') \<and>
     c_out c' = frame [ST_NOT_FOUND]"
proof (intro allI)
  fix sys0 :: "unit system" and st
  let ?fs = "[[70], req_fs OP_LS [47], []]"
  have p: "str_ok [47]" by (simp add: str_ok_ascii)
  have op: "OP_LS \<le> OP_GET_fs" "OP_LS \<noteq> OP_SHELL_OPEN" "OP_LS \<noteq> OP_EXEC_SCRIPT" "\<not> 70 \<le> OP_GET_fs"
    "70 \<noteq> OP_SHELL_OPEN" "70 \<noteq> OP_EXEC_SCRIPT"
    by (simp_all add: OP_LS_def OP_GET_fs_def OP_SHELL_OPEN_def OP_EXEC_SCRIPT_def)
  have q: "req_fs OP_LS [47] ! 0 = OP_LS" "req_fs OP_LS [47] \<noteq> []" "frame_ok (req_fs OP_LS [47])"
    by (simp_all add: req_fs_def push_append frame_ok_small)
  have h: "fs_handle no_files (req_fs OP_LS [47]) (endpoint []) = (Inr (), conn_put (frame [ST_NOT_FOUND]) (endpoint []))"
    using parse_path_req [OF p, of OP_LS] q
    by (simp add: fs_handle_def handle_ls_def no_files_def write_frame_unlimited frame_ok_small)
  have a: "concat (map (daemon_answer no_files) ?fs) = frame [ST_NOT_FOUND]"
    using h q op by (simp add: daemon_answer_def is_fs_op_def)
  have f: "\<forall>f \<in> set ?fs. frame_ok f \<and> (f \<noteq> [] \<longrightarrow> f ! 0 \<noteq> OP_SHELL_OPEN \<and> f ! 0 \<noteq> OP_EXEC_SCRIPT)"
    using q op by (simp add: frame_ok_small)
  from daemon_serves [OF f, of "endpoint (concat (map frame ?fs))" "sys0\<lparr>sy_fs := no_files\<rparr>" st] a
  show "\<exists>c'. daemon_loop (sys0\<lparr>sy_fs := no_files\<rparr>) st (endpoint (concat (map frame ?fs))) = Some (st, c') \<and>
     c_out c' = frame [ST_NOT_FOUND]" by auto
qed

end
