(* ===== verification/Exec_Spec.thy ===== *)
theory Exec_Spec
  imports Exec
begin

text \<open>
  Correctness of remote execution: a script's output and exit code reach the client unchanged, a
  command that cannot be started is never reported, and what the interactive shell does with the
  client's frames and with a client that leaves.
\<close>

section \<open>Scripts\<close>

definition exec_frames :: "cmd_output \<Rightarrow> bytes list" where
  "exec_frames out =
     (if o_stdout out \<noteq> [] then [o_stdout out] else []) @
     (if o_stderr out \<noteq> [] then [o_stderr out] else []) @
     [u32_to_be (case o_code out of Some n \<Rightarrow> n | None \<Rightarrow> 1)]"

definition output_ok :: "cmd_output \<Rightarrow> bool" where
  "output_ok out \<longleftrightarrow> frame_ok (o_stdout out) \<and> frame_ok (o_stderr out)"

lemma send_output_run:
  assumes "output_ok out" and "c_cap c = None"
  shows "send_output out c = (Inr (), conn_put (concat (map frame (exec_frames out @ [[]]))) c)"
proof -
  have "frame_ok (u32_to_be n)" for n by (simp add: frame_ok_small)
  with assms show ?thesis
    by (auto simp: send_output_def output_ok_def write_frame_unlimited exec_frames_def tcp.put_put
        Let_def)
qed

lemma exec_frames_ok:
  "output_ok out \<Longrightarrow> \<forall>f \<in> set (exec_frames out). frame_ok f \<and> f \<noteq> []"
  by (auto simp: exec_frames_def output_ok_def frame_ok_small dest: arg_cong [of _ _ length]
      split: if_splits)

lemma recv_frames_run:
  "\<forall>f \<in> set fs. frame_ok f \<and> f \<noteq> [] \<Longrightarrow>
     recv_frames (c\<lparr>c_in := concat (map frame fs) @ frame [] @ rest\<rparr>) = (Inr fs, c\<lparr>c_in := rest\<rparr>)"
proof (induction fs)
  case Nil
  then show ?case by (subst recv_frames.simps) (simp add: read_frame_conn)
next
  case (Cons f fs)
  then show ?case by (subst recv_frames.simps) (simp add: read_frame_conn)
qed

lemma recv_frames_at:
  assumes "\<forall>f \<in> set fs. frame_ok f \<and> f \<noteq> []" and "c_in c = concat (map frame fs) @ frame [] @ rest"
  shows "recv_frames c = (Inr fs, c\<lparr>c_in := rest\<rparr>)"
proof -
  have "c = c\<lparr>c_in := concat (map frame fs) @ frame [] @ rest\<rparr>" using assms(2) by (cases c) simp
  with recv_frames_run [OF assms(1), where c = c and rest = rest] show ?thesis by metis
qed

lemma recv_frames_keeps_out: "c_out (snd (recv_frames c)) = c_out c"
proof (induction c rule: recv_frames.induct)
  case (1 c)
  obtain r c' where rc: "read_frame c = (r, c')" by fastforce
  show ?case
  proof (cases r)
    case (Inl e)
    with rc show ?thesis by (subst recv_frames.simps) (simp add: read_frame_keeps_out)
  next
    case (Inr f)
    obtain r2 c2 where r2: "recv_frames c' = (r2, c2)" by fastforce
    have "c_out c2 = c_out c" if "f \<noteq> []"
      using 1 [OF rc [symmetric] Inr that] r2 read_frame_keeps_out [OF rc] by simp
    with rc r2 Inr show ?thesis
      by (subst recv_frames.simps) (cases r2; simp add: read_frame_keeps_out)
  qed
qed

lemma exec_client_out:
  assumes "frame_ok (OP_EXEC_SCRIPT # u32_to_be (of_nat (length script)) @ script)" and "fresh c"
  shows "c_out (snd (exec_script_on_conn script c)) =
    frame (OP_EXEC_SCRIPT # u32_to_be (of_nat (length script)) @ script)"
proof -
  let ?f = "OP_EXEC_SCRIPT # u32_to_be (of_nat (length script)) @ script"
  have w: "write_frame ?f c = (Inr (), conn_put (frame ?f) c)"
    using assms by (simp add: write_frame_unlimited fresh_def)
  obtain r t where "recv_frames (conn_put (frame ?f) c) = (r, t)" by fastforce
  with recv_frames_keeps_out [of "conn_put (frame ?f) c"] w assms(2) show ?thesis
    by (cases r) (simp_all add: exec_script_on_conn_def Let_def fresh_def)
qed

lemma handle_exec_run:
  assumes "length script + 5 \<le> MAX_FRAME" and "utf8_valid script"
    and "data = OP_EXEC_SCRIPT # u32_to_be (of_nat (length script)) @ script"
  shows "handle_exec_script x data (st, c) =
    (case run_script x script st of
       (Inl e, st) \<Rightarrow> (Inl e, (st, c))
     | (Inr out, st) \<Rightarrow> (case send_output out c of (r, c) \<Rightarrow> (r, (st, c))))"
proof -
  have n: "length script < 4294967296" using assms(1) by (simp add: MAX_FRAME_def)
  have d: "data = [OP_EXEC_SCRIPT] @ u32_to_be (of_nat (length script)) @ script"
    using assms(3) by simp
  have "take 4 (drop 1 data) = u32_to_be (of_nat (length script))"
    unfolding d by simp
  moreover have "drop 5 data = script"
    unfolding d by (metis append_assoc append_eq_conv_conj length_append length_Cons list.size(3)
        length_to_be(2) add.commute add_Suc plus_nat.add_0 eval_nat_numeral(3))
  moreover have "length data = 5 + length script" unfolding d by simp
  ultimately show ?thesis using n assms(2)
    by (simp add: handle_exec_script_def unat_u32 lossy_valid Let_def)
qed

text \<open>The client's side, for what the server answers.\<close>

lemma exec_client_run:
  assumes "length script + 5 \<le> MAX_FRAME" and "c_cap c = None" and "output_ok out"
    and "c_in c = concat (map frame (exec_frames out)) @ frame [] @ rest"
  shows "exec_script_on_conn script c =
    (Inr (lossy (o_stdout out @ o_stderr out), case o_code out of Some n \<Rightarrow> n | None \<Rightarrow> 1),
     conn_put (frame (OP_EXEC_SCRIPT # u32_to_be (of_nat (length script)) @ script)) (c\<lparr>c_in := rest\<rparr>))"
proof -
  let ?f = "OP_EXEC_SCRIPT # u32_to_be (of_nat (length script)) @ script"
  have f: "frame_ok ?f" using assms(1) by (simp add: frame_ok_def)
  have w: "write_frame ?f c = (Inr (), conn_put (frame ?f) c)"
    using f assms(2) by (simp add: write_frame_unlimited)
  have "recv_frames (conn_put (frame ?f) c) = (Inr (exec_frames out), conn_put (frame ?f) (c\<lparr>c_in := rest\<rparr>))"
    using recv_frames_at [OF exec_frames_ok [OF assms(3)], where c = "conn_put (frame ?f) c" and rest = rest] assms(4)
    by simp
  with w show ?thesis by (simp add: exec_script_on_conn_def Let_def) (simp add: exec_frames_def)
qed

text \<open>A script the client sends is run, as sent, by the server, and the client gets the
  command's standard output followed by its standard error (decoded lossily) and its exit code,
  1 when a signal ended it; nothing after the reply is consumed on either side.\<close>

theorem exec_end_to_end:
  assumes "utf8_valid script" and "length script + 5 \<le> MAX_FRAME" and "fresh c" and "fresh s"
    and "exec_script_on_conn script c = (rc, c')" and "read_frame s = (Inr data, s1)"
    and "handle_exec_script x data (st, s1) = (rs, (st', s'))"
    and "c_in s = c_out c' @ later_s" and "c_in c = c_out s' @ later_c"
    and "run_script x script st = (Inr out, st1)" and "output_ok out"
  shows "rs = Inr () \<and> st' = st1 \<and>
    rc = Inr (lossy (o_stdout out @ o_stderr out), case o_code out of Some n \<Rightarrow> n | None \<Rightarrow> 1) \<and>
    c_in c' = later_c \<and> c_in s' = later_s"
proof -
  let ?f = "OP_EXEC_SCRIPT # u32_to_be (of_nat (length script)) @ script"
  have f: "frame_ok ?f" using assms(2) by (simp add: frame_ok_def)
  from exec_client_out [OF f assms(3)] assms(5) have co: "c_out c' = frame ?f" by simp
  with assms(8) read_frame_at [OF f, of s later_s] assms(6)
  have d: "data = ?f" and s1: "s1 = s\<lparr>c_in := later_s\<rparr>" by simp_all
  from handle_exec_run [OF assms(2,1) d, of x st s1] assms(7,10)
    send_output_run [OF assms(11), of s1] assms(4) s1
  have srv: "rs = Inr ()" "st' = st1"
    "s' = conn_put (concat (map frame (exec_frames out @ [[]]))) s1"
    by (simp_all add: fresh_def)
  with assms(4) s1 have so: "c_out s' = concat (map frame (exec_frames out)) @ frame []"
    by (simp add: fresh_def)
  from exec_client_run [OF assms(2) _ assms(11), of c later_c] so assms(3,5,9)
  have "rc = Inr (lossy (o_stdout out @ o_stderr out), case o_code out of Some n \<Rightarrow> n | None \<Rightarrow> 1)"
    "c_in c' = later_c" by (auto simp: fresh_def)
  with srv s1 show ?thesis by simp
qed

definition demo_exec :: "cmd_output io \<Rightarrow> exec_env" where
  "demo_exec r = \<lparr>x_unix = True, x_pid = 1, x_run = (\<lambda>p args h. (r, h))\<rparr>"

lemma demo_exec_run [simp]: "run_script (demo_exec r) script st = (r, st)"
  by (simp add: run_script_def demo_exec_def)

definition demo_out :: cmd_output where
  "demo_out = \<lparr>o_stdout = [104, 105], o_stderr = [33], o_code = Some 3\<rparr>"

lemma demo_out_ok [simp]: "output_ok demo_out"
  by (simp add: output_ok_def demo_out_def frame_ok_small)

theorem exec_end_to_end_witness:
  "\<exists>c c'. exec_script_on_conn [108, 115] c = (Inr ([104, 105, 33], 3), c')"
proof -
  let ?f = "OP_EXEC_SCRIPT # u32_to_be (of_nat (length [108 :: u8, 115])) @ [108, 115]"
  define c where "c = endpoint (concat (map frame (exec_frames demo_out)) @ frame [])"
  define s where "s = endpoint (frame ?f)"
  obtain rc c' where c: "exec_script_on_conn [108, 115] c = (rc, c')" by fastforce
  have f: "frame_ok ?f" by (simp add: frame_ok_small)
  have "fresh c" "fresh s" by (simp_all add: c_def s_def)
  have r: "read_frame s = (Inr ?f, endpoint [])"
    using read_frame_at [OF f, of s "[]"] by (simp add: s_def)
  have len: "length [108 :: u8, 115] + 5 \<le> MAX_FRAME" by (simp add: MAX_FRAME_def)
  have utf: "utf8_valid [108, 115]" by (rule utf8_valid_ascii) simp
  define s' where "s' = conn_put (concat (map frame (exec_frames demo_out @ [[]]))) (endpoint [])"
  have h: "handle_exec_script (demo_exec (Inr demo_out)) ?f (undefined, endpoint []) = (Inr (), (undefined, s'))"
    using handle_exec_run [OF len utf refl] send_output_run [OF demo_out_ok, of "endpoint []"]
    by (simp add: s'_def)
  have "c_in s = c_out c' @ []"
    using exec_client_out [OF f \<open>fresh c\<close>] c by (simp add: s_def)
  moreover have "c_in c = c_out s' @ []" by (simp add: c_def s'_def)
  ultimately have "rc = Inr (lossy [104, 105, 33], 3)"
    using exec_end_to_end [OF utf len \<open>fresh c\<close> \<open>fresh s\<close> c r h _ _ demo_exec_run demo_out_ok]
    by (simp add: demo_out_def)
  moreover have "lossy [104, 105, 33] = [104, 105, 33]"
    by (rule lossy_valid, rule utf8_valid_ascii) simp
  ultimately show ?thesis using c by auto
qed

text \<open>When the server cannot start the command (a configured shell that does not exist), it
  writes no reply at all: the client waits for a first frame and ends with whatever ends its
  stream, a read timeout, never with the reason.\<close>

theorem exec_spawn_failure_silent:
  assumes "utf8_valid script" and "length script + 5 \<le> MAX_FRAME" and "fresh c" and "fresh s"
    and "exec_script_on_conn script c = (rc, c')" and "read_frame s = (Inr data, s1)"
    and "handle_exec_script x data (st, s1) = (rs, (st', s'))"
    and "c_in s = c_out c'" and "c_in c = c_out s'"
    and "run_script x script st = (Inl e, st1)"
  shows "rs = Inl e \<and> c_out s' = [] \<and> rc = Inl (c_end c)"
proof -
  let ?f = "OP_EXEC_SCRIPT # u32_to_be (of_nat (length script)) @ script"
  have f: "frame_ok ?f" using assms(2) by (simp add: frame_ok_def)
  from exec_client_out [OF f assms(3)] assms(5) have "c_out c' = frame ?f" by simp
  with assms(8) read_frame_at [OF f, of s "[]"] assms(6)
  have d: "data = ?f" and s1: "s1 = s\<lparr>c_in := []\<rparr>" by simp_all
  with handle_exec_run [OF assms(2,1) d, of x st s1] assms(4,7,10)
  have srv: "rs = Inl e" "c_out s' = []" by (auto simp: fresh_def)
  have w: "write_frame ?f c = (Inr (), conn_put (frame ?f) c)"
    using f assms(3) by (simp add: write_frame_unlimited fresh_def)
  have "c_in (conn_put (frame ?f) c) = []" using srv(2) assms(9) by simp
  then have "fst (recv_frames (conn_put (frame ?f) c)) = Inl (c_end c)"
    by (subst recv_frames.simps) (simp add: gen_read_frame_def read_exact_def)
  with w assms(5) srv show ?thesis
    by (cases "recv_frames (conn_put (frame ?f) c)") (auto simp: exec_script_on_conn_def)
qed

theorem exec_spawn_failure_silent_witness:
  "\<exists>c. fst (exec_script_on_conn [108, 115] c) = Inl (IoError UnexpectedEof []) \<and>
     fst (handle_exec_script (demo_exec (Inl (IoError NotFound [1])))
       (OP_EXEC_SCRIPT # u32_to_be 2 @ [108, 115]) (undefined, endpoint [])) = Inl (IoError NotFound [1])"
proof -
  let ?f = "OP_EXEC_SCRIPT # u32_to_be (of_nat (length [108 :: u8, 115])) @ [108, 115]"
  define s where "s = endpoint (frame ?f)"
  obtain rc c' where c: "exec_script_on_conn [108, 115] (endpoint []) = (rc, c')" by fastforce
  have f: "frame_ok ?f" by (simp add: frame_ok_small)
  have "fresh (endpoint [])" "fresh s" by (simp_all add: s_def)
  have r: "read_frame s = (Inr ?f, endpoint [])"
    using read_frame_at [OF f, of s "[]"] by (simp add: s_def)
  have len: "length [108 :: u8, 115] + 5 \<le> MAX_FRAME" by (simp add: MAX_FRAME_def)
  have utf: "utf8_valid [108, 115]" by (rule utf8_valid_ascii) simp
  have h: "handle_exec_script (demo_exec (Inl (IoError NotFound [1]))) ?f (undefined, endpoint []) =
      (Inl (IoError NotFound [1]), (undefined, endpoint []))"
    using handle_exec_run [OF len utf refl] by simp
  have "c_in s = c_out c'"
    using exec_client_out [OF f \<open>fresh (endpoint [])\<close>] c by (simp add: s_def)
  then have "rc = Inl (c_end (endpoint []))"
    using exec_spawn_failure_silent [OF utf len \<open>fresh (endpoint [])\<close> \<open>fresh s\<close> c r h _ _ demo_exec_run]
    by simp
  then show ?thesis using c h by (intro exI [of _ "endpoint []"]) (simp add: endpoint_def)
qed

section \<open>The interactive shell\<close>

text \<open>A session that was opened has both halves: the handler's errors about a missing one, and the
  frames sent before the second, are unreachable.\<close>

lemma pty_new_halves:
  "pty_new unix y cols rows h = Inr s \<Longrightarrow> pt_reader s = Some () \<and> pt_writer s = Some ()"
  by (auto simp: pty_new_def try_io_def Let_def split: sum.splits prod.splits)

text \<open>The terminal is opened at the client's size, and the shell of the server's environment started
  in the directory of the server.\<close>

lemma pty_new_Inr:
  "pty_new unix y cols rows h = Inr s \<longleftrightarrow>
     (\<exists>p p1 p2. y_openpty y (pty_size rows cols) = Inr p \<and>
        y_spawn y (default_shell unix h) (case h_cwd h of Inl _ \<Rightarrow> None | Inr d \<Rightarrow> Some d) p = (Inr (), p1) \<and>
        y_clone_reader y p1 = (Inr (), p2) \<and> y_take_writer y p2 = (Inr (), pt_master s) \<and>
        pt_reader s = Some () \<and> pt_writer s = Some ())"
  by (cases s)
    (auto simp: pty_new_def other_err_def try_io_def Let_def map_sum_def prod_eq_iff
      split: sum.splits prod.splits)

text \<open>A terminal that keeps running and takes all input; what one client frame does to it.\<close>

definition steady :: "'p pty_sys \<Rightarrow> bool" where
  "steady y \<longleftrightarrow> (\<forall>p. y_try_wait y p = (Inr None, p) \<and> (\<forall>d. fst (y_write y d p) = Inr ()) \<and>
     fst (y_flush y p) = Inr ())"

definition feed :: "'p pty_sys \<Rightarrow> bytes \<Rightarrow> 'p \<Rightarrow> 'p" where
  "feed y f p =
     (if f ! 0 = OP_RESIZE
      then (case parse_size f of Inl _ \<Rightarrow> p | Inr (cols, rows) \<Rightarrow> snd (y_resize y (pty_size rows cols) p))
      else snd (y_flush y (snd (y_write y f p))))"

lemma shell_loop_run:
  assumes "steady y"
  shows "\<forall>f \<in> set fs. frame_ok f \<and> f \<noteq> [] \<Longrightarrow>
     shell_loop y s (c\<lparr>c_in := concat (map frame fs) @ frame [] @ rest\<rparr>) =
       (Inr (), (s\<lparr>pt_master := fold (feed y) fs (pt_master s)\<rparr>, c\<lparr>c_in := rest\<rparr>))"
proof (induction fs arbitrary: s)
  case Nil
  have "pty_try_wait y s = (Inr None, s)"
    using assms by (simp add: steady_def pty_try_wait_def on_master_def other_err_def)
  then show ?case by (subst shell_loop.simps) (simp add: read_frame_conn)
next
  case (Cons f fs)
  let ?s = "s\<lparr>pt_master := feed y f (pt_master s)\<rparr>"
  have w: "pty_try_wait y s = (Inr None, s)"
    using assms by (simp add: steady_def pty_try_wait_def on_master_def other_err_def)
  have io: "on_master (y_write y d) q = (Inr (), q\<lparr>pt_master := snd (y_write y d (pt_master q))\<rparr>)"
    "on_master (y_flush y) q = (Inr (), q\<lparr>pt_master := snd (y_flush y (pt_master q))\<rparr>)" for d q
    using assms by (simp_all add: steady_def on_master_def case_prod_beta')
  have step: "shell_loop y s (c\<lparr>c_in := concat (map frame (f # fs)) @ frame [] @ rest\<rparr>) =
      shell_loop y ?s (c\<lparr>c_in := concat (map frame fs) @ frame [] @ rest\<rparr>)"
  proof (cases "f ! 0 = OP_RESIZE")
    case True
    have "snd (pty_resize y cols rows s) = s\<lparr>pt_master := snd (y_resize y (pty_size rows cols) (pt_master s))\<rparr>"
      for cols rows by (simp add: pty_resize_def on_master_def other_err_def)
    with True show ?thesis using Cons.prems w
      by (subst shell_loop.simps) (simp add: read_frame_conn feed_def split: sum.splits)
  next
    case False
    then show ?thesis using Cons.prems w
      by (subst shell_loop.simps) (simp add: io read_frame_conn feed_def)
  qed
  show ?case unfolding step using Cons by simp
qed

lemma pump_output_run:
  "\<forall>d \<in> set ds. frame_ok d \<and> d \<noteq> [] \<Longrightarrow> c_cap c = None \<Longrightarrow>
     pump_output (map Inr ds) c = conn_put (concat (map frame ds)) c"
  by (induction ds arbitrary: c) (simp_all add: write_frame_unlimited tcp.put_put)

text \<open>An interactive session until the client detaches: the child gets the client's frames in
  order, resize frames as resizes and all others as typed bytes, the terminal's output chunks
  become frames in order, and the handler stops at the client's empty frame. If the child has
  closed the terminal the handler returns; if it is still running the handler never returns,
  although the client asked to leave.\<close>

theorem shell_session:
  assumes "steady y" and "parse_size data = Inr (cols, rows)"
    and "pty_new unix y cols rows h = Inr p" and "c_clone c = None"
    and "\<forall>f \<in> set fs. frame_ok f \<and> f \<noteq> []" and "c_in c = concat (map frame fs) @ frame [] @ rest"
    and "fresh c" and "y_output y (fold (feed y) fs (pt_master p)) = map Inr ds"
    and "\<forall>d \<in> set ds. frame_ok d \<and> d \<noteq> []"
  shows "handle_shell_open unix y data (h, c) =
    (if y_closed y (fold (feed y) fs (pt_master p))
     then Some (Inr (), (h, conn_put (concat (map frame ds)) (c\<lparr>c_in := rest\<rparr>)))
     else None)"
proof -
  let ?p = "p\<lparr>pt_reader := None, pt_writer := None\<rparr>"
  have "c = c\<lparr>c_in := concat (map frame fs) @ frame [] @ rest\<rparr>" using assms(6) by (cases c) simp
  with shell_loop_run [OF assms(1,5), where c = c and rest = rest and s = ?p]
  have "shell_loop y ?p c = (Inr (), (?p\<lparr>pt_master := fold (feed y) fs (pt_master p)\<rparr>, c\<lparr>c_in := rest\<rparr>))"
    by simp
  then show ?thesis
    using assms pump_output_run [OF assms(9), of "c\<lparr>c_in := rest\<rparr>"] pty_new_halves [OF assms(3)]
    by (simp add: handle_shell_open_def fresh_def take_reader_def take_writer_def try_clone_def)
qed

text \<open>A terminal that echoes its input and stays open until an end-of-file byte is typed.\<close>

definition echo_pty :: "(bytes \<times> pty_size) pty_sys" where
  "echo_pty = \<lparr>y_openpty = (\<lambda>sz. Inr ([], sz)), y_spawn = (\<lambda>_ _ p. (Inr (), p)),
     y_clone_reader = (\<lambda>p. (Inr (), p)), y_take_writer = (\<lambda>p. (Inr (), p)),
     y_try_wait = (\<lambda>p. (Inr None, p)), y_wait = (\<lambda>p. None),
     y_resize = (\<lambda>sz p. (Inr (), (fst p, sz))),
     y_write = (\<lambda>d p. (Inr (), (fst p @ d, snd p))), y_flush = (\<lambda>p. (Inr (), p)),
     y_output = (\<lambda>p. if fst p = [] then [] else [Inr (fst p)]),
     y_closed = (\<lambda>p. 4 \<in> set (fst p))\<rparr>"

lemma echo_steady: "steady echo_pty"
  by (simp add: steady_def echo_pty_def)

lemma echo_opens:
  "pty_new unix echo_pty cols rows h =
     Inr \<lparr>pt_master = ([], pty_size rows cols), pt_reader = Some (), pt_writer = Some ()\<rparr>"
  by (simp add: pty_new_def echo_pty_def other_err_def)

theorem shell_session_witness:
  "\<forall>h. handle_shell_open True echo_pty [OP_SHELL_OPEN, 0, 80, 0, 24]
     (h, endpoint (frame [108] @ frame [OP_RESIZE, 0, 100, 0, 40] @ frame [115] @ frame [])) = None"
proof
  fix h
  let ?d = "[OP_SHELL_OPEN, 0, 80, 0, 24]" and ?fs = "[[108], [OP_RESIZE, 0, 100, 0, 40], [115]]"
  let ?c = "endpoint (frame [108] @ frame [OP_RESIZE, 0, 100, 0, 40] @ frame [115] @ frame [])"
  let ?p = "([] :: bytes, pty_size 24 80)"
  have d: "parse_size ?d = Inr (80, 24)"
    by (simp add: parse_size_def u16_of_be_def unbe_Cons)
  have f: "\<forall>f \<in> set ?fs. frame_ok f \<and> f \<noteq> []" by (simp add: frame_ok_small)
  have cl: "c_clone ?c = None" by (simp add: endpoint_def)
  have p: "fold (feed echo_pty) ?fs ?p = ([108, 115], pty_size 40 100)"
    by (simp add: feed_def echo_pty_def parse_size_def OP_RESIZE_def u16_of_be_def unbe_Cons)
  have out: "y_output echo_pty (fold (feed echo_pty) ?fs ?p) = map Inr [[108, 115]]"
    unfolding p by (simp add: echo_pty_def)
  show "handle_shell_open True echo_pty ?d (h, ?c) = None"
    using shell_session [OF echo_steady d echo_opens cl f, where rest = "[]" and ds = "[[108, 115]]"] out
    unfolding pty_session.simps p by (simp add: echo_pty_def frame_ok_small)
qed

end
