(* ===== verification/Auth_Spec.thy ===== *)
theory Auth_Spec
  imports Auth
begin

text \<open>
  Correctness of sessions and authentication: the digest comparison decides equality, what each
  side of the handshake does on any input, the two sides composed (each reads what the other
  wrote), the dependence of the client on its password, and the session file's round trip.
\<close>

section \<open>Digest comparison\<close>

lemma xor_zero_iff: "xor a b = (0 :: 'a::len word) \<longleftrightarrow> a = b"
  by (metis xor.left_neutral xor.assoc xor.right_neutral xor_self_eq)

lemma or_xor_fold:
  "foldl (\<lambda>diff (x, y). or diff (xor x y)) d ps = (0 :: u8) \<longleftrightarrow>
     d = 0 \<and> (\<forall>p \<in> set ps. fst p = snd p)"
  by (induction ps arbitrary: d) (auto simp: or_eq_0_iff xor_zero_iff)

lemma zip_all_eq:
  "length a = length b \<Longrightarrow> (\<forall>p \<in> set (zip a b). fst p = snd p) \<longleftrightarrow> a = b"
  by (induction rule: list_induct2) auto

lemma constant_time_eq_iff [simp]: "constant_time_eq a b \<longleftrightarrow> a = b"
  using or_xor_fold [of 0 "zip a b"] zip_all_eq [of a b]
  by (auto simp: constant_time_eq_def)

section \<open>Each side of the handshake\<close>

lemma frame_ok_auth: "length x = 32 \<Longrightarrow> frame_ok (t # x)" "length x = 16 \<Longrightarrow> frame_ok (t # x)"
  "frame_ok [t]"
  by (simp_all add: frame_ok_def MAX_FRAME_def)

text \<open>The frame that answers a received one, and the result.\<close>

definition auth_verdict :: "hash \<Rightarrow> rstr \<Rightarrow> bytes \<Rightarrow> bytes \<Rightarrow> bool" where
  "auth_verdict sha pw nonce f \<longleftrightarrow>
     33 \<le> length f \<and> f ! 0 = AUTH_PASS \<and> take 32 (drop 1 f) = sha (pw @ nonce)"

lemma auth_server_run:
  assumes "length nonce = 16" and "c_cap s = None" and "c_in s = frame f @ rest" and "frame_ok f"
  shows "auth_server sha nonce (Some pw) s =
    (Inr (auth_verdict sha pw nonce f),
     conn_put (frame [if auth_verdict sha pw nonce f then AUTH_OK else AUTH_FAIL])
       (conn_put (frame (AUTH_REQUIRED # nonce)) (s\<lparr>c_in := rest\<rparr>)))"
proof -
  have w: "write_frame (AUTH_REQUIRED # nonce) s = (Inr (), conn_put (frame (AUTH_REQUIRED # nonce)) s)"
    using assms by (simp add: write_frame_unlimited frame_ok_auth)
  have r: "read_frame (conn_put (frame (AUTH_REQUIRED # nonce)) s) =
      (Inr f, conn_put (frame (AUTH_REQUIRED # nonce)) (s\<lparr>c_in := rest\<rparr>))"
    using read_frame_at [OF assms(4), of "conn_put (frame (AUTH_REQUIRED # nonce)) s" rest] assms(3)
    by simp
  let ?c = "conn_put (frame (AUTH_REQUIRED # nonce)) (s\<lparr>c_in := rest\<rparr>)"
  have "c_cap ?c = None" using assms by simp
  then have a: "write_frame [t] ?c = (Inr (), conn_put (frame [t]) ?c)" for t
    by (simp add: write_frame_unlimited frame_ok_auth)
  show ?thesis
    by (auto simp: auth_server_def w r a auth_verdict_def compute_auth_hash_def AUTH_HASH_LEN_def Let_def)
qed

lemma auth_server_open:
  "c_cap s = None \<Longrightarrow> auth_server sha nonce None s = (Inr True, conn_put (frame [AUTH_NONE]) s)"
  by (simp add: auth_server_def write_frame_unlimited frame_ok_auth)

text \<open>Whatever it is sent, the server starts with its challenge.\<close>

lemma auth_server_out:
  assumes "length nonce = 16" and "c_cap s = None" and "c_out s = []"
  shows "\<exists>x. c_out (snd (auth_server sha nonce (Some pw) s)) = frame (AUTH_REQUIRED # nonce) @ x"
proof -
  let ?c = "conn_put (frame (AUTH_REQUIRED # nonce)) s"
  have w: "write_frame (AUTH_REQUIRED # nonce) s = (Inr (), ?c)"
    using assms by (simp add: write_frame_unlimited frame_ok_auth)
  obtain r t where rt: "read_frame ?c = (r, t)" by fastforce
  show ?thesis
  proof (cases r)
    case (Inl e)
    with rt w have "auth_server sha nonce (Some pw) s = (Inl e, t)" by (simp add: auth_server_def)
    then show ?thesis using assms(3) read_frame_keeps_out [OF rt] by simp
  next
    case (Inr f)
    with rt obtain rest where "frame_ok f" "c_in s = frame f @ rest"
      by (auto simp: read_frame_Inr_iff)
    then show ?thesis using assms by (simp add: auth_server_run)
  qed
qed

lemma auth_answer_run:
  assumes "length (sha (pw @ nonce)) = 32" and "c_cap c = None" and "c_in c = frame [st] @ rest"
  shows "auth_answer sha pw nonce c =
    ((if st = AUTH_OK then Inr (True, Some pw) else if st = AUTH_FAIL then Inr (False, None)
      else Inl (IoError OtherKind (lit ''invalid auth response''))),
     conn_put (frame (AUTH_PASS # sha (pw @ nonce))) (c\<lparr>c_in := rest\<rparr>))"
proof -
  let ?f = "frame (AUTH_PASS # sha (pw @ nonce))"
  have w: "write_frame (AUTH_PASS # sha (pw @ nonce)) c = (Inr (), conn_put ?f c)"
    using assms by (simp add: write_frame_unlimited frame_ok_auth)
  have "read_frame (conn_put ?f c) = (Inr [st], conn_put ?f (c\<lparr>c_in := rest\<rparr>))"
    using read_frame_at [OF frame_ok_auth(3), of "conn_put ?f c" st rest] assms(3) by simp
  with w show ?thesis by (simp add: auth_answer_def compute_auth_hash_def)
qed

lemma auth_answer_out:
  assumes "length (sha (pw @ nonce)) = 32" and "c_cap c = None"
  shows "c_out (snd (auth_answer sha pw nonce c)) = c_out c @ frame (AUTH_PASS # sha (pw @ nonce))"
proof -
  let ?c = "conn_put (frame (AUTH_PASS # sha (pw @ nonce))) c"
  have w: "write_frame (AUTH_PASS # sha (pw @ nonce)) c = (Inr (), ?c)"
    using assms by (simp add: write_frame_unlimited frame_ok_auth)
  obtain r t where rt: "read_frame ?c = (r, t)" by fastforce
  with w have "snd (auth_answer sha pw nonce c) = t"
    by (cases r) (simp_all add: auth_answer_def compute_auth_hash_def)
  then show ?thesis using read_frame_keeps_out [OF rt] by simp
qed

lemma auth_client_challenge:
  assumes "length nonce = 16" and "c_in c = frame (AUTH_REQUIRED # nonce) @ rest"
  shows "auth_client sha (Some pw) i (h, c) =
    (case auth_answer sha pw nonce (c\<lparr>c_in := rest\<rparr>) of (r, c) \<Rightarrow> (r, (h, c)))"
proof -
  have "read_frame c = (Inr (AUTH_REQUIRED # nonce), c\<lparr>c_in := rest\<rparr>)"
    using assms by (simp add: read_frame_Inr_iff frame_ok_auth)
  then show ?thesis
    using assms(1) by (simp add: auth_client_def AUTH_NONCE_LEN_def AUTH_REQUIRED_def AUTH_NONE_def)
qed

lemma auth_client_open:
  assumes "c_in c = frame [AUTH_NONE] @ rest"
  shows "auth_client sha pw i (h, c) = (Inr (True, None), (h, c\<lparr>c_in := rest\<rparr>))"
proof -
  have "read_frame c = (Inr [AUTH_NONE], c\<lparr>c_in := rest\<rparr>)"
    using assms by (simp add: read_frame_Inr_iff frame_ok_auth)
  then show ?thesis by (simp add: auth_client_def)
qed

section \<open>The two sides composed\<close>

text \<open>
  \<open>later_s\<close> and \<open>later_c\<close> are what each side sends after the handshake; each side's input is what
  the other wrote during it, and then that.
\<close>

lemma handshake_password:
  assumes n: "length nonce = 16" and d: "length (sha (cpw @ nonce)) = 32"
    and s: "fresh s" and c: "fresh c"
    and rs: "auth_server sha nonce (Some pw) s = (rs, s')"
    and rc: "auth_client sha (Some cpw) i (h, c) = (rc, (h', c'))"
    and si: "c_in s = c_out c' @ later_s" and ci: "c_in c = c_out s' @ later_c"
  shows "rs = Inr (sha (cpw @ nonce) = sha (pw @ nonce)) \<and>
    rc = Inr (if sha (cpw @ nonce) = sha (pw @ nonce) then (True, Some cpw) else (False, None)) \<and>
    h' = h \<and> c_in s' = later_s \<and> c_in c' = later_c \<and> c_cap s' = None \<and> c_cap c' = None"
proof -
  let ?p = "AUTH_PASS # sha (cpw @ nonce)" and ?q = "frame (AUTH_REQUIRED # nonce)"
  let ?ok = "sha (cpw @ nonce) = sha (pw @ nonce)"
  from s c have caps: "c_cap s = None" "c_cap c = None" "c_out s = []" "c_out c = []"
    by (simp_all add: fresh_def)
  from auth_server_out [OF n caps(1,3), of sha pw] rs obtain x where "c_out s' = ?q @ x" by auto
  with ci have inc: "c_in c = ?q @ x @ later_c" by simp
  let ?c = "c\<lparr>c_in := x @ later_c\<rparr>"
  have cl: "(case auth_answer sha cpw nonce ?c of (r, c) \<Rightarrow> (r, (h, c))) = (rc, (h', c'))"
    using auth_client_challenge [OF n inc] rc by simp
  then have "h' = h" and ans: "auth_answer sha cpw nonce ?c = (rc, c')"
    by (simp_all split: prod.splits)
  moreover have "c_out c' = frame ?p"
    using auth_answer_out [of sha cpw nonce ?c, OF d] ans caps by simp
  then have ins: "c_in s = frame ?p @ later_s" using si by simp
  have v: "auth_verdict sha pw nonce ?p \<longleftrightarrow> ?ok"
    using d by (auto simp: auth_verdict_def)
  let ?t = "if ?ok then AUTH_OK else AUTH_FAIL"
  have srv: "(rs, s') = (Inr ?ok, conn_put (frame [?t]) (conn_put ?q (s\<lparr>c_in := later_s\<rparr>)))"
    using auth_server_run [OF n caps(1) ins] d rs v by (simp add: frame_ok_auth)
  then have "x = frame [?t]"
    using \<open>c_out s' = ?q @ x\<close> caps(3) by simp
  then have "(rc, c') = (if ?t = AUTH_OK then Inr (True, Some cpw) else if ?t = AUTH_FAIL then Inr (False, None)
      else Inl (IoError OtherKind (lit ''invalid auth response'')),
     conn_put (frame ?p) (c\<lparr>c_in := later_c\<rparr>))"
    using auth_answer_run [of sha cpw nonce ?c ?t later_c, OF d] ans caps by simp
  moreover have "AUTH_FAIL \<noteq> AUTH_OK" by (simp add: auth_defs)
  ultimately show ?thesis using srv caps by auto
qed

lemma handshake_open:
  assumes s: "fresh s" and c: "fresh c"
    and rs: "auth_server sha nonce None s = (rs, s')"
    and rc: "auth_client sha cpw i (h, c) = (rc, (h', c'))"
    and si: "c_in s = c_out c' @ later_s" and ci: "c_in c = c_out s' @ later_c"
  shows "rs = Inr True \<and> rc = Inr (True, None) \<and>
    h' = h \<and> c_in s' = later_s \<and> c_in c' = later_c \<and> c_cap s' = None \<and> c_cap c' = None"
proof -
  from s c have caps: "c_cap s = None" "c_cap c = None" "c_out s = []" "c_out c = []"
    by (simp_all add: fresh_def)
  with rs have srv: "rs = Inr True" "s' = conn_put (frame [AUTH_NONE]) s"
    by (simp_all add: auth_server_open)
  with ci caps have "c_in c = frame [AUTH_NONE] @ later_c" by simp
  from auth_client_open [OF this] rc caps si srv show ?thesis by auto
qed

text \<open>C15: the handshake, both sides composed, each reading what the other writes: they agree. With
  a server password the server admits the client, and the client knows it, exactly when the
  digests of the two passwords with the server's nonce are equal; the client then caches its
  password. Without one every client is admitted and caches none. Neither side consumes a byte of
  what follows.\<close>

theorem handshake_agrees:
  assumes "length nonce = 16" and "\<And>x. length (sha x) = 32" and "fresh s" and "fresh c"
    and "auth_server sha nonce password s = (rs, s')"
    and "auth_client sha (Some cpw) i (h, c) = (rc, (h', c'))"
    and "c_in s = c_out c' @ later_s" and "c_in c = c_out s' @ later_c"
  shows "(case password of
       None \<Rightarrow> rs = Inr True \<and> rc = Inr (True, None)
     | Some pw \<Rightarrow>
         if sha (cpw @ nonce) = sha (pw @ nonce)
         then rs = Inr True \<and> rc = Inr (True, Some cpw)
         else rs = Inr False \<and> rc = Inr (False, None))
     \<and> c_in s' = later_s \<and> c_in c' = later_c"
  using handshake_password [OF assms(1) assms(2) assms(3,4) _ assms(6-8)]
    handshake_open [OF assms(3,4) _ assms(6-8)] assms(5)
  by (cases password) auto

definition demo_host :: host where
  "demo_host = \<lparr>h_env = Map.empty, h_tmp = lit ''/tmp'', h_cwd = Inr [], h_files = Map.empty, h_dirs = (\<lambda>_. False),
     h_read_err = Map.empty, h_write_err = Map.empty,
     h_append_err = Map.empty, h_tty = False, h_stdin = [], h_events = [],
     h_events_end = IoError OtherKind [], h_raw = Inr (), h_is_raw = False, h_out = [],
     h_spawned = [], h_killed = []\<rparr>"

definition demo_sha :: hash where
  "demo_sha x = take 32 (x @ replicate 32 0)"

definition demo_nonce :: bytes where
  "demo_nonce = replicate 16 7"

lemma demo_sha_length [simp]: "length (demo_sha x) = 32"
  by (simp add: demo_sha_def)

text \<open>The streams of a completed handshake, for every pair of passwords.\<close>

lemma demo_handshake:
  fixes pw cpw :: rstr
  defines "p \<equiv> AUTH_PASS # demo_sha (cpw @ demo_nonce)"
    and "q \<equiv> frame (AUTH_REQUIRED # demo_nonce)"
    and "t \<equiv> (if demo_sha (cpw @ demo_nonce) = demo_sha (pw @ demo_nonce) then AUTH_OK else AUTH_FAIL)"
  assumes s: "fresh s" "c_in s = frame p @ later_s" and c: "fresh c" "c_in c = q @ frame [t] @ later_c"
  shows "\<exists>rs s' rc c'. auth_server demo_sha demo_nonce (Some pw) s = (rs, s') \<and>
     auth_client demo_sha (Some cpw) i (h, c) = (rc, (h, c')) \<and>
     c_in s = c_out c' @ later_s \<and> c_in c = c_out s' @ later_c"
proof -
  have n: "length demo_nonce = 16" by (simp add: demo_nonce_def)
  have caps: "c_cap s = None" "c_cap c = None" "c_out s = []" "c_out c = []"
    using s c by (simp_all add: fresh_def)
  have v: "auth_verdict demo_sha pw demo_nonce p \<longleftrightarrow>
      demo_sha (cpw @ demo_nonce) = demo_sha (pw @ demo_nonce)"
    by (auto simp: auth_verdict_def p_def)
  have "frame_ok p" by (simp add: p_def frame_ok_auth)
  then have "c_out (snd (auth_server demo_sha demo_nonce (Some pw) s)) = q @ frame [t]"
    using auth_server_run [OF n caps(1) s(2), of demo_sha pw] v caps(3)
    by (auto simp: q_def t_def)
  moreover have "auth_client demo_sha (Some cpw) i (h, c) =
      (case auth_answer demo_sha cpw demo_nonce (c\<lparr>c_in := frame [t] @ later_c\<rparr>) of
         (r, c) \<Rightarrow> (r, (h, c)))"
    using auth_client_challenge [OF n] c(2) by (simp add: q_def)
  moreover have "c_out (snd (auth_answer demo_sha cpw demo_nonce (c\<lparr>c_in := frame [t] @ later_c\<rparr>))) = frame p"
    using auth_answer_out [of demo_sha cpw demo_nonce "c\<lparr>c_in := frame [t] @ later_c\<rparr>"] caps
    by (simp add: p_def)
  ultimately show ?thesis using s(2) c(2)
    by (cases "auth_server demo_sha demo_nonce (Some pw) s";
        cases "auth_answer demo_sha cpw demo_nonce (c\<lparr>c_in := frame [t] @ later_c\<rparr>)")
      auto
qed

theorem handshake_agrees_witness:
  "\<exists>s c h s' c'. auth_server demo_sha demo_nonce (Some [1]) s = (Inr False, s') \<and>
     auth_client demo_sha (Some [2]) False (h, c) = (Inr (False, None), (h, c'))"
proof -
  define s where "s = endpoint (frame (AUTH_PASS # demo_sha ([2] @ demo_nonce)))"
  define c where "c = endpoint (frame (AUTH_REQUIRED # demo_nonce) @ frame [AUTH_FAIL])"
  have d: "demo_sha ([2] @ demo_nonce) \<noteq> demo_sha ([1] @ demo_nonce)"
    by (simp add: demo_sha_def)
  have f: "fresh s" "fresh c" by (simp_all add: s_def c_def)
  have i: "c_in s = frame (AUTH_PASS # demo_sha ([2] @ demo_nonce)) @ []"
    "c_in c = frame (AUTH_REQUIRED # demo_nonce) @ frame [if demo_sha ([2] @ demo_nonce) =
       demo_sha ([1] @ demo_nonce) then AUTH_OK else AUTH_FAIL] @ []"
    using d by (simp_all add: s_def c_def)
  obtain rs s' rc c' where
    r: "auth_server demo_sha demo_nonce (Some [1]) s = (rs, s')"
      "auth_client demo_sha (Some [2]) False (demo_host, c) = (rc, (demo_host, c'))"
      "c_in s = c_out c' @ []" "c_in c = c_out s' @ []"
    using demo_handshake [OF f(1) i(1) f(2) i(2)] by blast
  have "length demo_nonce = 16" by (simp add: demo_nonce_def)
  then have "rs = Inr False \<and> rc = Inr (False, None)"
    using handshake_agrees [OF _ demo_sha_length f r(1,2,3,4)] d by simp
  with r(1,2) show ?thesis by blast
qed

section \<open>What the server admits, what the client reveals\<close>

lemma try_frame_False: "fst (try_io r (\<lambda>_ c. (Inr False, c))) \<noteq> Inr True"
  by (cases r; cases "fst r") (auto simp: try_io_def)

text \<open>C16: on any connection, failing ones included, a server with a password admits a peer only
  after reading a frame that starts with \<open>AUTH_PASS\<close> and the digest of its own password and the
  nonce it drew; any other frame is answered with \<open>AUTH_FAIL\<close> and the peer is refused.\<close>

theorem auth_server_admits:
  "(fst (auth_server sha nonce (Some pw) c) = Inr True \<longrightarrow>
      (\<exists>f rest. c_in c = frame f @ rest \<and> 33 \<le> length f \<and> f ! 0 = AUTH_PASS \<and>
         take 32 (drop 1 f) = sha (pw @ nonce)))
   \<and> (length nonce = 16 \<longrightarrow> c_cap c = None \<longrightarrow> frame_ok f \<longrightarrow> c_in c = frame f @ rest \<longrightarrow>
      \<not> (33 \<le> length f \<and> f ! 0 = AUTH_PASS \<and> take 32 (drop 1 f) = sha (pw @ nonce)) \<longrightarrow>
      auth_server sha nonce (Some pw) c =
        (Inr False, conn_put (frame [AUTH_FAIL])
           (conn_put (frame (AUTH_REQUIRED # nonce)) (c\<lparr>c_in := rest\<rparr>))))"
proof (intro conjI impI)
  assume "fst (auth_server sha nonce (Some pw) c) = Inr True"
  then obtain t where "auth_server sha nonce (Some pw) c = (Inr True, t)"
    by (cases "auth_server sha nonce (Some pw) c") auto
  then obtain c1 f c2 where w: "write_frame (AUTH_REQUIRED # nonce) c = (Inr (), c1)"
    and r: "read_frame c1 = (Inr f, c2)"
    and k: "33 \<le> length f" "f ! 0 = AUTH_PASS" "take 32 (drop 1 f) = sha (pw @ nonce)"
    by (auto simp: auth_server_def try_io_Inr_iff Let_def compute_auth_hash_def AUTH_HASH_LEN_def
        split: if_splits)
  from r obtain rest where "c_in c1 = frame f @ rest" by (auto simp: read_frame_Inr_iff)
  moreover have "c_in c1 = c_in c" using write_frame_c_in [of "AUTH_REQUIRED # nonce" c] w by simp
  ultimately show "\<exists>f rest. c_in c = frame f @ rest \<and> 33 \<le> length f \<and> f ! 0 = AUTH_PASS \<and>
         take 32 (drop 1 f) = sha (pw @ nonce)" using k by auto
next
  assume "length nonce = 16" "c_cap c = None" "frame_ok f" "c_in c = frame f @ rest"
    "\<not> (33 \<le> length f \<and> f ! 0 = AUTH_PASS \<and> take 32 (drop 1 f) = sha (pw @ nonce))"
  then show "auth_server sha nonce (Some pw) c =
        (Inr False, conn_put (frame [AUTH_FAIL])
           (conn_put (frame (AUTH_REQUIRED # nonce)) (c\<lparr>c_in := rest\<rparr>)))"
    by (auto simp: auth_server_run auth_verdict_def)
qed

theorem auth_server_admits_witness:
  "fst (auth_server demo_sha demo_nonce (Some [1])
     (endpoint (frame (AUTH_PASS # demo_sha ([2] @ demo_nonce))))) = Inr False"
proof -
  let ?f = "AUTH_PASS # demo_sha ([2] @ demo_nonce)"
  have "length demo_nonce = 16" by (simp add: demo_nonce_def)
  moreover have "frame_ok ?f" by (simp add: frame_ok_auth)
  moreover have "c_cap (endpoint (frame ?f)) = None" by (simp add: endpoint_def)
  moreover have "take 32 (drop 1 ?f) \<noteq> demo_sha ([1] @ demo_nonce)"
    by (simp add: demo_sha_def)
  ultimately show ?thesis
    using auth_server_admits [of demo_sha demo_nonce "[1]" "endpoint (frame ?f)" ?f "[]"]
    by (simp del: One_nat_def)
qed

text \<open>C17: the password itself is not sent: two passwords with the same digest under the received
  nonce make the client send the same bytes and reach the same connection state, whatever the
  server answers.\<close>

theorem password_only_hashed:
  assumes "sha (pwa @ take 16 (drop 1 f)) = sha (pwb @ take 16 (drop 1 f))"
    and "frame_ok f" and "c_in c = frame f @ rest"
  shows "snd (auth_client sha (Some pwa) i (h, c)) = snd (auth_client sha (Some pwb) i (h, c))"
proof -
  have "read_frame c = (Inr f, c\<lparr>c_in := rest\<rparr>)" using assms by (simp add: read_frame_at)
  moreover have "snd (auth_answer sha pwa n d) = snd (auth_answer sha pwb n d)"
    if "sha (pwa @ n) = sha (pwb @ n)" for n d
  proof -
    obtain r t where "write_frame (AUTH_PASS # sha (pwb @ n)) d = (r, t)" by fastforce
    moreover obtain r' t' where "read_frame t = (r', t')" by fastforce
    ultimately show ?thesis using that
      by (cases r; cases r') (simp_all add: auth_answer_def compute_auth_hash_def)
  qed
  ultimately have "snd (case auth_answer sha pwa (take 16 (drop 1 f)) (c\<lparr>c_in := rest\<rparr>) of (r, c) \<Rightarrow> (r, (h, c))) =
      snd (case auth_answer sha pwb (take 16 (drop 1 f)) (c\<lparr>c_in := rest\<rparr>) of (r, c) \<Rightarrow> (r, (h, c)))"
    using assms(1) by (simp add: case_prod_beta)
  with \<open>read_frame c = _\<close> show ?thesis by (simp add: auth_client_def Let_def AUTH_NONCE_LEN_def)
qed

theorem password_only_hashed_witness:
  "\<forall>h. c_out (snd (snd (auth_client demo_sha (Some (replicate 32 5 @ [1])) False
      (h, endpoint (frame (AUTH_REQUIRED # demo_nonce)))))) =
   c_out (snd (snd (auth_client demo_sha (Some (replicate 32 5 @ [2])) False
      (h, endpoint (frame (AUTH_REQUIRED # demo_nonce))))))"
proof -
  let ?f = "AUTH_REQUIRED # demo_nonce"
  have "frame_ok ?f" by (simp add: frame_ok_auth demo_nonce_def)
  moreover have "demo_sha ((replicate 32 5 @ [1]) @ take 16 (drop 1 ?f)) =
      demo_sha ((replicate 32 5 @ [2]) @ take 16 (drop 1 ?f))" by (simp add: demo_sha_def)
  ultimately show ?thesis
    using password_only_hashed [where f = ?f and c = "endpoint (frame ?f)" and rest = "[]"
        and sha = demo_sha and pwa = "replicate 32 5 @ [1]" and pwb = "replicate 32 5 @ [2]"]
    by simp
qed

section \<open>The cached session\<close>

text \<open>A string that survives as one line of the file.\<close>

definition line_ok :: "rstr \<Rightarrow> bool" where
  "line_ok x \<longleftrightarrow> utf8_valid x \<and> 10 \<notin> set x \<and> (x = [] \<or> last x \<noteq> 13)"

lemma lines_of_two:
  assumes "line_ok a" and "line_ok b"
  shows "lines_of (a @ [10] @ b @ [10]) = [a, b]"
  using assms
  by (auto simp: lines_of_def line_ok_def split_on_append_sep Let_def strip_cr_def)

lemma length_bom [simp]: "length bom = 3"
  by (simp add: bom_def)

lemma starts_with_bom_append:
  assumes "starts_with bom (a @ 10 # r)" shows "starts_with bom a"
proof (cases "3 \<le> length a")
  case True
  with assms show ?thesis by (simp add: starts_with_def)
next
  case False
  then have "(10 :: u8) \<in> set (take 3 (a @ 10 # r))"
    by (cases "3 - length a") auto
  moreover have "take 3 (a @ 10 # r) = bom" using assms by (simp add: starts_with_def)
  moreover have "10 \<notin> set bom" by (simp add: bom_def)
  ultimately show ?thesis by metis
qed

lemma load_saved:
  assumes "save_session addr pw h = (Inr (), h')" and "h_read_err h (session_file h) = None"
    and addr: "line_ok addr" "\<not> starts_with bom addr"
    and pw: "\<forall>p. pw = Some p \<longrightarrow> line_ok p \<and> p \<noteq> []"
  shows "load_session h' = Some (addr, pw)"
proof -
  let ?p = "case pw of Some p \<Rightarrow> p | None \<Rightarrow> []"
  let ?t = "addr @ [10] @ ?p @ [10]"
  have p: "line_ok ?p" using pw by (auto simp: line_ok_def split: option.splits)
  have "utf8_valid [10]" by (simp add: utf8_valid_ascii)
  with addr(1) p have "utf8_valid ?t"
    unfolding line_ok_def by (intro utf8_valid_append) blast+
  moreover have f: "fst (fs_write (session_file h) ?t h) = Inr ()" and h': "h' = snd (fs_write (session_file h) ?t h)"
    using assms(1) by (simp_all add: save_session_def)
  moreover have "session_file h' = session_file h" by (simp add: h' session_file_def)
  ultimately have "read_to_string (session_file h') h' = Inr ?t"
    using fs_write_read [OF f assms(2)] by simp
  moreover have "strip_prefix bom ?t = None"
    using starts_with_bom_append [of addr "?p @ [10]"] addr(2) by (auto simp: strip_prefix_def)
  ultimately show ?thesis
    using lines_of_two [OF addr(1) p] pw by (auto simp: load_session_def split: option.splits)
qed

lemma take_flag_absent: "flag \<notin> set args \<Longrightarrow> take_flag flag v args = (v, args)"
  by (induction flag v args rule: take_flag.induct) auto

text \<open>C18: a saved session is loaded back: an address and a password of one line each (valid
  UTF-8, no line break at the end or inside, the address not starting with a byte-order mark, the
  password not empty), or no password.\<close>

theorem session_roundtrip:
  assumes "save_session addr pw h = (Inr (), h')" and "h_read_err h (session_file h) = None"
    and "line_ok addr" and "\<not> starts_with bom addr"
    and "\<forall>p. pw = Some p \<longrightarrow> line_ok p \<and> p \<noteq> []"
  shows "load_session h' = Some (addr, pw) \<and> session_password h' = pw \<and>
    resolve_addr [] port h' = (addr, [])"
  using load_saved [OF assms] by (simp add: session_password_def resolve_addr_def)

lemma demo_host_save:
  "save_session a p demo_host = (Inr (), demo_host\<lparr>h_files := (h_files demo_host)
     (session_file demo_host \<mapsto> a @ [10] @ (case p of Some p \<Rightarrow> p | None \<Rightarrow> []) @ [10])\<rparr>)"
  by (simp add: save_session_def fs_write_def demo_host_def)

lemma line_ok_ascii: "\<forall>b \<in> set s. b < 0x80 \<and> b \<noteq> 10 \<and> b \<noteq> 13 \<Longrightarrow> line_ok s"
  by (auto simp: line_ok_def intro!: utf8_valid_ascii)

theorem session_roundtrip_witness:
  "load_session (snd (save_session [104, 58, 49] (Some [112]) demo_host)) =
     Some ([104, 58, 49], Some [112])"
proof -
  have "h_read_err demo_host (session_file demo_host) = None" by (simp add: demo_host_def)
  moreover have "line_ok [104, 58, 49]" "line_ok [112]" by (simp_all add: line_ok_ascii)
  moreover have "\<not> starts_with bom [104, 58, 49]" by (simp add: starts_with_def bom_def)
  ultimately show ?thesis
    using session_roundtrip [OF demo_host_save [of "[104, 58, 49]" "Some [112]"]]
    by (simp add: demo_host_save)
qed

text \<open>A command run after a session was cached opens an authenticated connection: it dials
  the cached address, sends the cached password's digest, and hands over a connection on which
  nothing after the handshake is consumed, when the server holds the same password and each side
  reads what the other writes.\<close>

theorem cached_session_opens:
  assumes "save_session addr (Some pw) h0 = (Inr (), h)" and "h_read_err h0 (session_file h0) = None"
    and "line_ok addr" and "\<not> starts_with bom addr" and "line_ok pw" and "pw \<noteq> []"
    and "lit ''--connect'' \<notin> set args" and "connect t addr = Inr c"
    and "length nonce = 16" and "\<And>x. length (sha x) = 32" and "fresh s" and "fresh c"
    and "auth_server sha nonce (Some pw) s = (rs, s')"
    and "auth_client sha (Some pw) False (h, c\<lparr>c_timeout := Some READ_TIMEOUT\<rparr>) = (rc, (h', c'))"
    and "c_in s = c_out c' @ later_s" and "c_in c = c_out s' @ later_c"
  shows "open_session sha t args port h = (Done (c', addr, args), h) \<and> rs = Inr True \<and>
    c_in c' = later_c \<and> c_in s' = later_s"
proof -
  have load: "load_session h = Some (addr, Some pw)"
    using load_saved [OF assms(1-4)] assms(5,6) by simp
  have "resolve_addr args port h = (addr, args)"
    using take_flag_absent [OF assms(7)] load by (simp add: resolve_addr_def)
  moreover have "session_password h = Some pw" using load by (simp add: session_password_def)
  moreover have "set_read_timeout (Some READ_TIMEOUT) c = (Inr (), c\<lparr>c_timeout := Some READ_TIMEOUT\<rparr>)"
    by (simp add: set_read_timeout_def READ_TIMEOUT_def)
  moreover have "fresh (c\<lparr>c_timeout := Some READ_TIMEOUT\<rparr>)" using assms(12) by (simp add: fresh_def)
  with handshake_password [OF assms(9,10,11) _ assms(13,14,15)] assms(16)
  have "rs = Inr True" "rc = Inr (True, Some pw)" "h' = h" "c_in s' = later_s" "c_in c' = later_c"
    by auto
  ultimately show ?thesis using assms(8,14) by (simp add: open_session_def)
qed

theorem cached_session_opens_witness:
  "\<exists>t h c' s s'. open_session demo_sha t [] 61696 h = (Done (c', [104, 58, 49], []), h) \<and>
     auth_server demo_sha demo_nonce (Some [112]) s = (Inr True, s')"
proof -
  let ?pw = "[112 :: u8]" and ?addr = "[104 :: u8, 58, 49]"
  let ?c = "\<lambda>i. (endpoint i)\<lparr>c_timeout := Some READ_TIMEOUT\<rparr>"
  define h where "h = snd (save_session ?addr (Some ?pw) demo_host)"
  define s where "s = endpoint (frame (AUTH_PASS # demo_sha (?pw @ demo_nonce)))"
  define c where "c = endpoint (frame (AUTH_REQUIRED # demo_nonce) @ frame [AUTH_OK])"
  define t where "t = \<lparr>t_connect = (\<lambda>_. Inr c), t_bind = (\<lambda>_. Inr [])\<rparr>"
  obtain rs s' rc c' where r: "auth_server demo_sha demo_nonce (Some ?pw) s = (rs, s')"
    "auth_client demo_sha (Some ?pw) False (h, c\<lparr>c_timeout := Some READ_TIMEOUT\<rparr>) = (rc, (h, c'))"
    "c_in s = c_out c' @ []" "c_in c = c_out s' @ []"
    using demo_handshake [where cpw = ?pw and pw = ?pw and i = False and h = h and later_s = "[]"
        and later_c = "[]" and s = s and c = "c\<lparr>c_timeout := Some READ_TIMEOUT\<rparr>"]
    by (auto simp: s_def c_def fresh_def endpoint_def)
  have 1: "save_session ?addr (Some ?pw) demo_host = (Inr (), h)"
    by (simp add: h_def demo_host_save)
  have 2: "h_read_err demo_host (session_file demo_host) = None" by (simp add: demo_host_def)
  have 3: "line_ok ?addr" "line_ok ?pw" "?pw \<noteq> []" by (simp_all add: line_ok_ascii)
  have 4: "\<not> starts_with bom ?addr" by (simp add: starts_with_def bom_def)
  have 5: "connect t ?addr = Inr c" by (simp add: t_def connect_def)
  have 6: "length demo_nonce = 16" by (simp add: demo_nonce_def)
  have 7: "fresh s" "fresh c" "lit ''--connect'' \<notin> set []" by (simp_all add: s_def c_def)
  have "open_session demo_sha t [] 61696 h = (Done (c', ?addr, []), h) \<and> rs = Inr True"
    using cached_session_opens [OF 1 2 3(1) 4 3(2,3) 7(3) 5 6 demo_sha_length 7(1,2) r, of 61696]
    by blast
  with r(1) show ?thesis by blast
qed

end
