(* ===== verification/Browse_Spec.thy ===== *)
theory Browse_Spec
  imports Browse Reverse_Spec Auth_Spec
begin

text \<open>
  Correctness of the device list and the menus: the list the server sends is the list the client
  shows, no key drives an index out of range, what is chosen can be chosen, the recursive
  download ends whatever the peer lists; and two consequences of trusting names.
\<close>

section \<open>The device list as a code\<close>

definition info_bytes :: "device_info \<Rightarrow> bytes" where
  "info_bytes i =
     di_kind i # str_field (di_name i) @ str_field (di_user i) @ str_field (di_addr i) @
       u64_to_be (di_connected_at i) @ [if di_active i then 1 else 0]"

definition info_ok :: "device_info \<Rightarrow> bool" where
  "info_ok i \<longleftrightarrow> str_ok (di_name i) \<and> str_ok (di_user i) \<and> str_ok (di_addr i)"

lemma dec_device_info: "info_ok i \<Longrightarrow> dec_device (info_bytes i @ rest) = Some (i, rest)"
  by (simp add: info_ok_def info_bytes_def dec_device_def read_str_field Let_def)

interpretation device_code: codec_loop info_bytes dec_device info_ok parse_devices
  by unfold_locales (auto simp: dec_device_info parse_devices.simps dest: dec_device_shorter)

definition info_of :: "device \<Rightarrow> device_info" where
  "info_of d = \<lparr>di_kind = 1, di_name = dv_name d, di_user = dv_user d, di_addr = dv_addr d,
     di_connected_at = unix_secs (dv_connected_at d), di_active = dv_active d\<rparr>"

definition server_info :: "rstr \<Rightarrow> rstr \<Rightarrow> u64 \<Rightarrow> device_info" where
  "server_info user addr started = \<lparr>di_kind = 0, di_name = server_name, di_user = user,
     di_addr = addr, di_connected_at = started, di_active = True\<rparr>"

lemma device_entry_info: "device_entry = info_bytes \<circ> info_of"
  by (rule ext) (simp add: device_entry_def info_bytes_def info_of_def push_append)

lemma server_entry_info: "server_entry u a s = info_bytes (server_info u a s)"
  by (simp add: server_entry_def info_bytes_def server_info_def push_append)

lemma server_name_ok [simp]: "str_ok server_name"
  by (rule str_ok_ascii) (simp_all add: server_name_def lit_def)

text \<open>C28: the device list reaches the client as the server holds it: the server itself first, then
  every record in order, with its name, user, address, first connection time and whether it is
  active, when the reply fits in a frame.\<close>

theorem device_list_end_to_end:
  assumes "\<forall>d \<in> set devs. str_ok (dv_name d) \<and> str_ok (dv_user d) \<and> str_ok (dv_addr d)"
    and "str_ok user" and "str_ok addr" and "fresh s"
    and "frame_ok (ST_OK # server_entry user addr started @ concat (map device_entry devs))"
    and "c_in c = c_out (handle_device_list devs user addr started s) @ rest"
  shows "\<exists>f. read_frame c = (Inr f, c\<lparr>c_in := rest\<rparr>) \<and>
    parse_device_list f = server_info user addr started # map info_of devs"
proof -
  let ?is = "server_info user addr started # map info_of devs"
  let ?f = "ST_OK # concat (map info_bytes ?is)"
  have f: "ST_OK # server_entry user addr started @ concat (map device_entry devs) = ?f"
    by (simp add: server_entry_info device_entry_info)
  with assms(4,5) have "c_out (handle_device_list devs user addr started s) = frame ?f"
    by (simp add: handle_device_list_def reply_def write_frame_unlimited fresh_def)
  with assms(6) have "read_frame c = (Inr ?f, c\<lparr>c_in := rest\<rparr>)"
    using assms(5) f by (intro read_frame_at) simp_all
  moreover have "\<forall>i \<in> set ?is. info_ok i"
    using assms(1-3) by (auto simp: info_ok_def server_info_def info_of_def)
  then have "parse_devices (concat (map info_bytes ?is)) = ?is"
    using device_code.parse_stream_stop [of ?is "[]"] by (simp add: dec_device_def)
  then have "parse_device_list ?f = ?is" by (simp add: parse_device_list_def)
  ultimately show ?thesis by blast
qed

theorem device_list_end_to_end_witness:
  "\<exists>c f c'. read_frame c = (Inr f, c') \<and> parse_device_list f =
     [server_info [114] [49] 5, info_of (demo_device [112] [117] 0)]"
proof -
  let ?devs = "[demo_device [112] [117] 0]"
  define c where "c = endpoint (c_out (handle_device_list ?devs [114] [49] 5 (endpoint [])))"
  have d: "\<forall>d \<in> set ?devs. str_ok (dv_name d) \<and> str_ok (dv_user d) \<and> str_ok (dv_addr d)"
    by (simp add: str_ok_ascii) (simp add: demo_device_def str_ok_ascii)
  have s: "str_ok [114]" "str_ok [49]" by (simp_all add: str_ok_ascii)
  have f: "frame_ok (ST_OK # server_entry [114] [49] 5 @ concat (map device_entry ?devs))"
    by (rule frame_ok_small)
      (simp add: server_entry_def device_entry_def push_append server_name_def lit_def demo_device_def)
  have i: "c_in c = c_out (handle_device_list ?devs [114] [49] 5 (endpoint [])) @ []"
    by (simp add: c_def)
  from device_list_end_to_end [OF d s _ f i] show ?thesis by auto
qed

section \<open>Menus\<close>

lemma position_bound: "position P xs = Some i \<Longrightarrow> i < length xs \<and> P (xs ! i)"
  by (induction xs arbitrary: i) (auto split: if_splits)

definition menu_ok :: "device_info list \<Rightarrow> (device_info \<Rightarrow> bool) \<Rightarrow> nat option outcome \<Rightarrow> bool" where
  "menu_ok devs ok r \<longleftrightarrow> r \<noteq> Panic \<and> (\<forall>i. r = Done (Some i) \<longrightarrow> i < length devs \<and> ok (devs ! i))"

lemma menu_ok_simps [simp]:
  "menu_ok devs ok (Fail e)" "menu_ok devs ok (Done None)"
  "menu_ok devs ok (Done (Some i)) \<longleftrightarrow> i < length devs \<and> ok (devs ! i)"
  by (auto simp: menu_ok_def)

lemma menu_loop_safe: "sel < length devs \<Longrightarrow> menu_ok devs ok (fst (menu_loop devs ok draw sel evs h))"
proof (induction evs arbitrary: sel h)
  case (Cons r evs)
  show ?case
  proof (cases r)
    case (Inr ev)
    show ?thesis
    proof (cases ev)
      case (KeyEv key)
      with Inr Cons show ?thesis by (cases "k_code key") (auto simp: Let_def)
    qed (use Inr Cons in \<open>simp_all add: Let_def\<close>)
  qed simp
qed simp

definition browser_ok :: "browser \<Rightarrow> bool" where
  "browser_ok b \<longleftrightarrow> b_sel b < length (b_entries b) \<or> (b_entries b = [] \<and> b_sel b = 0)"

lemma reload_ok:
  "reload p b s = (Done b', s') \<Longrightarrow> browser_ok b' \<and> b_confirm b' = b_confirm b"
  by (auto simp: reload_def then_do_def browser_ok_def split: prod.splits outcome.splits)

lemma reload_no_panic: "fst (reload p b s) \<noteq> Panic"
  by (auto simp: reload_def then_do_def on_conn_def of_io_def split: prod.splits outcome.splits sum.splits)

lemma confirmed_ok: "confirmed d item b s = (Done b', s') \<Longrightarrow> browser_ok b'"
  by (auto simp: confirmed_def Let_def then_do_def split: prod.splits outcome.splits dest: reload_ok)

lemma confirmed_no_panic: "fst (confirmed d item b s) \<noteq> Panic"
  using reload_no_panic
  by (auto simp: confirmed_def fetch_item_def Let_def then_do_def of_io_def split: prod.splits outcome.splits sum.splits)

text \<open>A key's outcome is safe when it is no panic and leaves a well-formed browser.\<close>

definition key_ok :: "browser option outcome \<times> (host \<times> conn) \<Rightarrow> bool" where
  "key_ok r \<longleftrightarrow> fst r \<noteq> Panic \<and> (\<forall>b. fst r = Done (Some b) \<longrightarrow> browser_ok b)"

lemma key_ok_Done [simp]: "key_ok (Done None, s)" "key_ok (Done (Some b), s) \<longleftrightarrow> browser_ok b"
  by (simp_all add: key_ok_def)

lemma key_ok_then:
  "fst r \<noteq> Panic \<Longrightarrow> (\<And>b s. r = (Done b, s) \<Longrightarrow> browser_ok b) \<Longrightarrow>
     key_ok (then_do r (\<lambda>b s. (Done (Some b), s)))"
  by (cases r; cases "fst r") (auto simp: key_ok_def)

lemma browse_plain_safe:
  assumes "browser_ok b"
  shows "fst (browse_plain code b s) \<noteq> Panic \<and>
    (\<forall>b' s'. browse_plain code b s = (Done b', s') \<longrightarrow> browser_ok b')"
proof (cases code)
  case KUp
  with assms show ?thesis by (auto simp: browse_plain_def browser_ok_def)
next
  case KDown
  with assms show ?thesis by (auto simp: browse_plain_def browser_ok_def)
next
  case KLeft
  with assms show ?thesis
    by (auto simp: browse_plain_def Let_def reload_no_panic dest: reload_ok split: if_splits)
next
  case KBackspace
  with assms show ?thesis
    by (auto simp: browse_plain_def Let_def reload_no_panic dest: reload_ok split: if_splits)
next
  case KRight
  with assms reload_no_panic show ?thesis
    by (auto simp: browse_plain_def Let_def browser_ok_def [of b] dest: reload_ok split: if_splits)
next
  case KEnter
  with assms show ?thesis by (auto simp: browse_plain_def Let_def browser_ok_def)
qed (use assms in \<open>simp_all add: browse_plain_def\<close>)

lemma browse_key_safe:
  assumes "browser_ok b" shows "key_ok (browse_key d key b s)"
proof -
  have c: "browser_ok (b\<lparr>b_confirm := x\<rparr>)" for x using assms by (simp add: browser_ok_def)
  have "key_ok (then_do (confirmed d item (b\<lparr>b_confirm := None\<rparr>) s) (\<lambda>b s. (Done (Some b), s)))" for item
    by (rule key_ok_then) (auto simp: confirmed_no_panic dest: confirmed_ok)
  moreover have "key_ok (then_do (browse_plain (k_code key) b s) (\<lambda>b s. (Done (Some b), s)))"
    using browse_plain_safe [OF assms, of "k_code key" s] by (intro key_ok_then) blast+
  ultimately show ?thesis using assms c
    by (cases "b_confirm b") (auto simp: browse_key_def Let_def)
qed

lemma browse_loop_safe: "browser_ok b \<Longrightarrow> fst (browse_loop l d evs b s) \<noteq> Panic"
proof (induction l d evs b s rule: browse_loop.induct)
  case (3 l d ev evs b s)
  show ?case
  proof (cases ev)
    case (KeyEv key)
    obtain r t where r: "browse_key d key b (drawn l b s) = (r, t)"
      by (cases "browse_key d key b (drawn l b s)")
    from browse_key_safe [OF 3(4), of d key "drawn l b s"] r have "r \<noteq> Panic"
      "\<And>b'. r = Done (Some b') \<Longrightarrow> browser_ok b'" by (auto simp: key_ok_def)
    with 3(1) [OF KeyEv] r KeyEv show ?thesis
      by (cases r) (auto split: option.splits)
  qed (use 3 in simp_all)
qed simp_all

text \<open>C29: no sequence of keys makes a menu panic on an index: the device menu, on a non-empty list,
  ends with an index in range of a device that is active and not this one, or without a choice;
  the file browser never leaves its list, whatever directories it is sent.\<close>

theorem menus_never_panic:
  assumes "devs \<noteq> []"
  shows "fst (select_device_interactive devs self_name self_user now h) \<noteq> Panic \<and>
    (\<forall>i h'. select_device_interactive devs self_name self_user now h = (Done (Some i), h') \<longrightarrow>
       i < length devs \<and> selectable self_name self_user (devs ! i)) \<and>
    fst (fetch2_interactive local_dir label s) \<noteq> Panic"
proof -
  let ?ok = "selectable self_name self_user"
  let ?sel = "case position ?ok devs of Some i \<Rightarrow> i | None \<Rightarrow> 0"
  have "?sel < length devs"
    using assms position_bound [of ?ok devs] by (auto split: option.splits)
  then have m: "menu_ok devs ?ok (fst (menu_loop devs ?ok draw ?sel evs h))" for draw evs h
    by (rule menu_loop_safe)
  have "menu_ok devs ?ok (fst (select_device_interactive devs self_name self_user now h))"
    using m by (auto simp: select_device_interactive_def on_alt_screen_def Let_def
        split: prod.splits sum.splits) (metis fst_conv)
  moreover have "fst (fetch2_interactive local_dir label s) \<noteq> Panic"
  proof -
    have "browser_ok \<lparr>b_remote = dot, b_entries = es, b_sel = 0, b_confirm = None\<rparr>" for es
      by (simp add: browser_ok_def)
    from browse_loop_safe [OF this] show ?thesis
      by (auto simp: fetch2_interactive_def then_do_def on_conn_def of_io_def Let_def
          split: prod.splits outcome.splits sum.splits) (metis fst_conv)
  qed
  ultimately show ?thesis by (auto simp: menu_ok_def)
qed

definition press :: "key_code \<Rightarrow> term_event io" where
  "press k = Inr (KeyEv \<lparr>k_code = k, k_kind = Press, k_ctrl = False, k_alt = False\<rparr>)"

theorem menus_never_panic_witness:
  "fst (select_device_interactive [server_info [114] [49] 5, info_of (demo_device [112] [117] 0)] [112] [117] 9
     (demo_host\<lparr>h_events := [press KDown, press KEnter, press KUp, press KEnter]\<rparr>)) \<noteq> Panic"
  using menus_never_panic [of "[server_info [114] [49] 5, info_of (demo_device [112] [117] 0)]" "[112]" "[117]"]
  by simp

section \<open>Selecting the server\<close>

lemma set_target_parse:
  "str_ok name \<Longrightarrow> str_ok user \<Longrightarrow> parse_two_strings (set_target_frame name user) = Some (name, user)"
  using parse_two_fields [of name user OP_SET_TARGET "[]"] by (simp add: set_target_frame_def push_append)

lemma set_target_frame_ok:
  "str_ok name \<Longrightarrow> str_ok user \<Longrightarrow> frame_ok (set_target_frame name user)"
  by (simp add: frame_ok_def MAX_FRAME_def set_target_frame_def push_append str_ok_def)

text \<open>The entry the server lists for itself can be chosen in the menu but not used: the client
  asks for it with the server's user name, the server accepts its own name only without a user,
  and the command ends with an error.\<close>

theorem own_server_entry_refused:
  assumes "str_ok user" and "user \<noteq> []" and "length user < 1000"
    and "\<not> list_ex (is_device server_name user) devs" and "fresh s" and "fresh c"
    and "handle_set_target (set_target_frame server_name user) devs (s, t) = (s', t')"
    and "c_in c = c_out s'"
    and "choose_device dir (server_info user addr started) (h, c) = (r, (h', c'))"
  shows "c_out c' = frame (set_target_frame server_name user) \<and> t' = t \<and> r = Exit 1 \<and>
    (self_name \<noteq> server_name \<or> self_user \<noteq> user \<longrightarrow>
       selectable self_name self_user (server_info user addr started))"
proof -
  let ?f = "set_target_frame server_name user"
  let ?e = "reverse_err (not_found_msg server_name user)"
  have ok: "frame_ok ?f" by (rule set_target_frame_ok [OF server_name_ok assms(1)])
  have caps: "c_cap s = None" "c_cap c = None" "c_out s = []" "c_out c = []"
    using assms(5,6) by (simp_all add: fresh_def)
  have e: "frame_ok ?e"
    by (rule frame_ok_small) (use assms(3) in \<open>simp add: reverse_err_def not_found_msg_def server_name_def lit_def\<close>)
  have s': "s' = conn_put (frame ?e) s" "t' = t"
    using assms(2,4,7) caps e
    by (auto simp: handle_set_target_def set_target_parse [OF server_name_ok assms(1)] reply_def
        write_frame_unlimited)
  have w: "write_frame ?f c = (Inr (), conn_put (frame ?f) c)"
    using ok caps by (simp add: write_frame_unlimited)
  have rd: "read_frame (conn_put (frame ?f) c) = (Inr ?e, conn_put (frame ?f) (c\<lparr>c_in := []\<rparr>))"
    using read_frame_at [OF e, of "conn_put (frame ?f) c" "[]"] assms(8) s' caps by simp
  have "?e \<noteq> []" "?e ! 0 \<noteq> ST_OK" by (simp_all add: reverse_err_def status_defs)
  with assms(9) w rd caps s'(2) show ?thesis
    by (auto simp: choose_device_def on_conn_def server_info_def selectable_def)
qed

theorem own_server_entry_refused_witness:
  "\<exists>c. fst (choose_device [46] (server_info [114] [49] 5) (demo_host, c)) = Exit 1"
proof -
  let ?f = "set_target_frame server_name [114]"
  obtain s' t' where s: "handle_set_target ?f [] (endpoint [], None) = (s', t')" by fastforce
  define c where "c = endpoint (c_out s')"
  obtain r h' c' where ch: "choose_device [46] (server_info [114] [49] 5) (demo_host, c) = (r, (h', c'))"
    by (metis prod.exhaust)
  have u: "str_ok [114]" by (simp add: str_ok_ascii)
  have "fresh c" "c_in c = c_out s'" by (simp_all add: c_def)
  with own_server_entry_refused [OF u _ _ _ _ _ s _ ch] have "r = Exit 1" by simp
  then show ?thesis using ch by (intro exI [of _ c]) simp
qed

section \<open>The recursive download\<close>

lemma call_fs_c_in: "call_on_conn_fs f c = (r, c') \<Longrightarrow> length (c_in c') \<le> length (c_in c) \<and>
    ((\<exists>g. r = Inr g) \<longrightarrow> length (c_in c') < length (c_in c))"
proof -
  assume a: "call_on_conn_fs f c = (r, c')"
  obtain w c1 where w: "write_frame f c = (w, c1)" by fastforce
  then have "c_in c1 = c_in c" by (rule write_frame_keeps_in)
  with a w read_frame_c_in_le [of c1] read_frame_shrinks [of c1 _ c'] show ?thesis
    by (cases w) (auto simp: call_on_conn_fs_def)
qed

lemma ls_c_in: "ls_on_conn path c = (r, c') \<Longrightarrow> length (c_in c') \<le> length (c_in c) \<and>
    ((\<exists>es. r = Inr es) \<longrightarrow> length (c_in c') < length (c_in c))"
proof -
  assume a: "ls_on_conn path c = (r, c')"
  obtain q c1 where q: "call_on_conn_fs (req_fs OP_LS path) c = (q, c1)" by fastforce
  from call_fs_c_in [OF q] a q show ?thesis
    by (cases q; cases "check_status (projr q)") (auto simp: ls_on_conn_def)
qed

lemma recv_loop_c_in: "length (c_in (fst (snd (recv_loop wr c w)))) \<le> length (c_in c)"
proof (induction wr c w rule: recv_loop.induct)
  case (1 wr c w)
  obtain r c' where r: "read_frame c = (r, c')" by fastforce
  then have le: "length (c_in c') \<le> length (c_in c)" using read_frame_c_in_le [of c] by simp
  show ?case
  proof (cases "\<exists>f u w'. r = Inr f \<and> f \<noteq> [] \<and> wr f w = (Inr u, w')")
    case True
    then obtain f u w' where f: "r = Inr f" "f \<noteq> []" "wr f w = (Inr u, w')" by blast
    with 1 [OF r [symmetric] f(1,2) f(3) [symmetric]] r le show ?thesis
      by (subst recv_loop.simps) simp
  next
    case False
    with r le show ?thesis by (subst recv_loop.simps) (auto split: sum.splits prod.splits)
  qed
qed

lemma download_file_c_in:
  "length (c_in (snd (snd (download_file remote p (h, c))))) \<le> length (c_in c)"
proof -
  obtain q c1 where q: "call_on_conn_fs (req_fs OP_GET_fs remote) c = (q, c1)" by fastforce
  have "length (c_in (fst (snd (get_on_conn_fs wr remote c w)))) \<le> length (c_in c)" for wr and w :: host
    using call_fs_c_in [OF q] q recv_loop_c_in [of wr c1 w]
    by (cases "recv_loop wr c1 w") (auto simp: get_on_conn_fs_def try_io_def split: sum.splits prod.splits)
  then show ?thesis
    by (auto simp: download_file_def split: prod.splits sum.splits) (metis fst_conv snd_conv)
qed

text \<open>With a recursive call that is total up to an input of length \<open>m\<close>, so is the loop.\<close>

lemma entries_loop_total:
  assumes "\<And>n s. length (c_in (snd s)) \<le> m \<Longrightarrow>
     \<exists>r s'. rec n s = Some (r, s') \<and> length (c_in (snd s')) \<le> length (c_in (snd s)) \<and> rec' n s = rec n s"
  shows "length (c_in (snd s)) \<le> m \<Longrightarrow>
     \<exists>r s'. entries_loop rec rd ld es s = Some (r, s') \<and>
       length (c_in (snd s')) \<le> length (c_in (snd s)) \<and>
       entries_loop rec' rd ld es s = entries_loop rec rd ld es s"
proof (induction es arbitrary: s)
  case (Cons e es)
  obtain h c where s: "s = (h, c)" by (cases s)
  show ?case
  proof (cases "fe_is_dir e")
    case True
    from assms [OF Cons.prems, of "fe_name e"] obtain r s' where
      r: "rec (fe_name e) s = Some (r, s')" "length (c_in (snd s')) \<le> length (c_in (snd s))"
        "rec' (fe_name e) s = rec (fe_name e) s" by blast
    with Cons.prems Cons.IH [of s'] True show ?thesis
      by (cases r) (auto intro: order_trans)
  next
    case False
    let ?d = "download_file (rd @ [47] @ fe_name e) (path_join ld (fe_name e)) s"
    obtain r s' where d: "?d = (r, s')" by (cases ?d)
    then have "length (c_in (snd s')) \<le> length (c_in (snd s))"
      using download_file_c_in [of "rd @ [47] @ fe_name e" "path_join ld (fe_name e)" h c] s by simp
    with Cons.prems Cons.IH [of s'] False d show ?thesis
      by (cases r) (auto intro: order_trans)
  qed
qed simp

lemma download_dir_fuel:
  "length (c_in (snd s)) < k \<Longrightarrow> length (c_in (snd s)) < k' \<Longrightarrow>
     \<exists>r s'. download_dir k base name root s = Some (r, s') \<and>
       length (c_in (snd s')) \<le> length (c_in (snd s)) \<and>
       download_dir k' base name root s = download_dir k base name root s"
proof (induction k arbitrary: k' base name root s)
  case (Suc k)
  obtain h c where s: "s = (h, c)" by (cases s)
  obtain j where k': "k' = Suc j" using Suc.prems(2) by (cases k') auto
  let ?rd = "trim_slashes base @ [47] @ name" and ?ld = "path_join root name"
  obtain q h1 where q: "create_dir_all ?ld h = (q, h1)" by fastforce
  obtain l c1 where l: "ls_on_conn ?rd c = (l, c1)" by fastforce
  note le = ls_c_in [OF l]
  show ?case
  proof (cases "\<exists>u es. q = Inr u \<and> l = Inr es")
    case False
    with s k' q l le show ?thesis by (cases q; cases l) (auto simp: Let_def)
  next
    case True
    then obtain u es where ok: "q = Inr u" "l = Inr es" by blast
    with le have lt: "length (c_in c1) < length (c_in c)" by simp
    have "\<exists>r s'. entries_loop (\<lambda>n. download_dir k ?rd n ?ld) ?rd ?ld es (h1, c1) = Some (r, s') \<and>
        length (c_in (snd s')) \<le> length (c_in (snd (h1, c1))) \<and>
        entries_loop (\<lambda>n. download_dir j ?rd n ?ld) ?rd ?ld es (h1, c1) =
          entries_loop (\<lambda>n. download_dir k ?rd n ?ld) ?rd ?ld es (h1, c1)"
    proof (rule entries_loop_total [where m = "length (c_in c1)"])
      fix n and t :: "host \<times> conn"
      assume "length (c_in (snd t)) \<le> length (c_in c1)"
      then show "\<exists>r s'. download_dir k ?rd n ?ld t = Some (r, s') \<and>
          length (c_in (snd s')) \<le> length (c_in (snd t)) \<and>
          download_dir j ?rd n ?ld t = download_dir k ?rd n ?ld t"
        using Suc.prems lt s k' by (intro Suc.IH) simp_all
    qed simp
    with s k' q l ok lt show ?thesis by (auto simp: Let_def)
  qed
qed simp


section \<open>Names from the peer\<close>

lemma recv_loop_file:
  "\<forall>d \<in> set ds. d \<noteq> [] \<and> frame_ok d \<Longrightarrow> h_append_err h p = None \<Longrightarrow> h_files h p = Some b \<Longrightarrow>
     \<exists>h'. recv_loop (file_append p) (c\<lparr>c_in := concat (map frame ds) @ frame [] @ rest\<rparr>) h =
       (Inr (), (c\<lparr>c_in := rest\<rparr>, h')) \<and> h_files h' p = Some (b @ concat ds)"
proof (induction ds arbitrary: h b)
  case Nil
  then show ?case
    by (subst recv_loop.simps) (simp add: read_frame_conn)
next
  case (Cons d ds)
  let ?h = "h\<lparr>h_files := (h_files h)(p := Some (b @ d))\<rparr>"
  have w: "file_append p d h = (Inr (), ?h)" using Cons.prems by (simp add: file_append_def)
  from Cons.IH [of ?h "b @ d"] Cons.prems obtain h' where
    "recv_loop (file_append p) (c\<lparr>c_in := concat (map frame ds) @ frame [] @ rest\<rparr>) ?h =
       (Inr (), (c\<lparr>c_in := rest\<rparr>, h'))" "h_files h' p = Some (b @ d @ concat ds)" by auto
  with Cons.prems w show ?case
    by (subst recv_loop.simps) (simp add: read_frame_conn)
qed

lemma get_file_run:
  assumes "length remote < 65536" and "c_cap c = None" and "\<forall>d \<in> set ds. d \<noteq> [] \<and> frame_ok d"
    and "h_append_err h p = None" and "h_files h p = Some b"
    and "c_in c = frame (push_u64 [ST_OK] sz) @ concat (map frame ds) @ frame [] @ rest"
  shows "\<exists>h'. get_on_conn_fs (file_append p) remote c h =
      (Inr sz, (conn_put (frame (req_fs OP_GET_fs remote)) (c\<lparr>c_in := rest\<rparr>), h')) \<and>
    h_files h' p = Some (b @ concat ds)"
proof -
  let ?q = "frame (req_fs OP_GET_fs remote)" and ?in = "concat (map frame ds) @ frame [] @ rest"
  have "c = c\<lparr>c_in := frame (push_u64 [ST_OK] sz) @ ?in\<rparr>" using assms(6) by (cases c) simp
  then have call: "call_on_conn_fs (req_fs OP_GET_fs remote) c =
      (Inr (push_u64 [ST_OK] sz), conn_put ?q (c\<lparr>c_in := ?in\<rparr>))"
    using call_on_conn_fs_reply [OF frame_ok_req_fs [OF assms(1)] header_frame_ok [of sz] assms(2), where rest = ?in]
    by metis
  obtain h' where "recv_loop (file_append p) (conn_put ?q c\<lparr>c_in := ?in\<rparr>) h =
      (Inr (), (conn_put ?q c\<lparr>c_in := rest\<rparr>, h'))" "h_files h' p = Some (b @ concat ds)"
    using recv_loop_file [OF assms(3-5), where c = "conn_put ?q c" and rest = rest] by blast
  with call show ?thesis by (simp add: get_on_conn_fs_def header_status header_parse)
qed

text \<open>C31: a recursive download trusts the names the peer lists: an entry whose name is an absolute
  path is written to that path, outside the directory the user chose.\<close>

theorem absolute_name_escapes:
  assumes "str_ok name" and "hd name = 47" and "name \<noteq> []" and "c_cap c = None"
    and "length (trim_slashes base @ [47] @ dir_name) + length name + 1 < 65536"
    and "h_write_err h (path_join root dir_name) = None"
    and "h_write_err h name = None" and "h_append_err h name = None"
    and "\<forall>d \<in> set ds. d \<noteq> [] \<and> frame_ok d"
    and "c_in c = frame (ST_OK # item_bytes \<lparr>fe_name = name, fe_is_dir = False\<rparr>) @
           frame (push_u64 [ST_OK] sz) @ concat (map frame ds) @ frame [] @ rest"
  shows "fst (download_dir_recursive base dir_name root (h, c)) = Inr () \<and>
    h_files (fst (snd (download_dir_recursive base dir_name root (h, c)))) name = Some (concat ds)"
proof -
  let ?rd = "trim_slashes base @ [47] @ dir_name" and ?ld = "path_join root dir_name"
  let ?i = "\<lparr>fe_name = name, fe_is_dir = False\<rparr>" and ?k = "length (c_in c)"
  let ?in = "frame (push_u64 [ST_OK] sz) @ concat (map frame ds) @ frame [] @ rest"
  let ?h = "h\<lparr>h_dirs := (h_dirs h)(?ld := True)\<rparr>" and ?c = "conn_put (frame (req_fs OP_LS ?rd)) (c\<lparr>c_in := ?in\<rparr>)"
  let ?h2 = "?h\<lparr>h_files := (h_files h)(name := Some [])\<rparr>"
  have g: "frame_ok (ST_OK # item_bytes ?i)"
    using assms(1) by (simp add: frame_ok_def MAX_FRAME_def item_bytes_def push_append str_ok_def)
  have "c = c\<lparr>c_in := frame (ST_OK # item_bytes ?i) @ ?in\<rparr>" using assms(10) by (cases c) simp
  then have call: "call_on_conn_fs (req_fs OP_LS ?rd) c = (Inr (ST_OK # item_bytes ?i), ?c)"
    using call_on_conn_fs_reply [OF frame_ok_req_fs g assms(4), where rest = ?in] assms(5) by simp
  have "parse_ls (item_bytes ?i) = [?i]"
    using ls_code.parse_stream_stop [of "[?i]" "[]"] assms(1) by (simp add: dec_ls_entry_def)
  with call have ls: "ls_on_conn ?rd c = (Inr [?i], ?c)"
    by (simp add: ls_on_conn_def check_status_def)
  have mk: "create_dir_all ?ld h = (Inr (), ?h)" using assms(6) by (simp add: create_dir_all_def)
  have join: "path_join ?ld name = name" using assms(2,3) by (simp add: path_join_def)
  have cr: "file_create name ?h = (Inr (), ?h2)" using assms(7) by (simp add: file_create_def fs_write_def)
  have "length (?rd @ [47] @ name) < 65536" "c_cap ?c = None" "h_append_err ?h2 name = None"
    "h_files ?h2 name = Some []" "c_in ?c = ?in" using assms(4,5,8) by simp_all
  from get_file_run [OF this(1,2) assms(9) this(3,4), where sz = sz and rest = rest] this(5) obtain h' c' where
    get: "get_on_conn_fs (file_append name) (?rd @ [47] @ name) ?c ?h2 = (Inr sz, (c', h'))"
      "h_files h' name = Some (concat ds)" by auto
  have "download_dir (Suc ?k) base dir_name root (h, c) = Some (Inr (), (h', c'))"
    using mk ls join cr get(1) by (simp add: download_file_def)
  then show ?thesis using get(2) by (simp add: download_dir_recursive_def)
qed

theorem absolute_name_escapes_witness:
  "\<exists>c. h_files (fst (snd (download_dir_recursive [46] [100] [46] (demo_host, c)))) [47, 120] = Some [8, 9]"
proof -
  define c where "c = endpoint (frame (ST_OK # item_bytes \<lparr>fe_name = [47, 120], fe_is_dir = False\<rparr>) @
    frame (push_u64 [ST_OK] 2) @ concat (map frame [[8, 9]]) @ frame [] @ [])"
  have n: "str_ok [47, 120]" by (simp add: str_ok_ascii)
  have p: "h_write_err demo_host q = None" "h_append_err demo_host q = None" for q
    by (simp_all add: demo_host_def)
  have d: "\<forall>d \<in> set [[8, 9]]. d \<noteq> [] \<and> frame_ok d" by (simp add: frame_ok_small)
  have l: "length (trim_slashes [46] @ [47] @ [100]) + length [47 :: u8, 120] + 1 < 65536"
    by (simp add: trim_slashes_def)
  have c: "c_cap c = None" "c_in c = frame (ST_OK # item_bytes \<lparr>fe_name = [47, 120], fe_is_dir = False\<rparr>) @
    frame (push_u64 [ST_OK] 2) @ concat (map frame [[8, 9]]) @ frame [] @ []" by (simp_all add: c_def)
  from absolute_name_escapes [OF n _ _ c(1) l p(1) p(1) p(2) d c(2)] show ?thesis
    by (intro exI [of _ c]) simp
qed

end
