(* ===== verification/Fetch_Spec.thy ===== *)
theory Fetch_Spec
  imports Browse_Spec
begin

text \<open>
  Correctness of the non-interactive download (\<^theory_text>\<open>echo path | thru fetch2 dir\<close>): what the local file
  holds afterwards, when the transfer succeeds and when the peer refuses it.
\<close>

section \<open>Selecting the device\<close>

text \<open>The path read, the device asked for and the local file of one run.\<close>

definition fetched_path :: "host \<Rightarrow> rstr" where
  "fetched_path h = stdin_path (take (length (takeWhile (\<lambda>b. b \<noteq> 10) (h_stdin h)) + 1) (h_stdin h))"

definition local_name :: "rstr \<Rightarrow> rstr \<Rightarrow> rstr" where
  "local_name dir remote = path_join dir (case path_file_name remote of Some n \<Rightarrow> n | None \<Rightarrow> lit ''download'')"

definition selection :: "host \<Rightarrow> bytes \<Rightarrow> bytes" where
  "selection h devs = (case default_device h (parse_device_list devs) of (name, user) \<Rightarrow> set_target_frame name user)"

lemma on_conn_write:
  "frame_ok f \<Longrightarrow> c_cap c = None \<Longrightarrow> on_conn (write_frame f) (h, c) = (Done (), (h, conn_put (frame f) c))"
  by (simp add: on_conn_def write_frame_unlimited)

lemma on_conn_read:
  "frame_ok f \<Longrightarrow> c_in c = frame f @ rest \<Longrightarrow> on_conn read_frame (h, c) = (Done f, (h, c\<lparr>c_in := rest\<rparr>))"
  using read_frame_at [of f c rest] by (simp add: on_conn_def)

lemma session_selects:
  assumes "\<not> h_tty h" and "c_cap c = None" and "frame_ok devs" and "frame_ok ack" and "frame_ok (selection h devs)"
    and "c_in c = frame devs @ frame ack @ answer"
  shows "fetch2_session dir (h, c) =
    fetch2_piped dir (h, conn_put (frame [OP_DEVICE_LIST] @ frame (selection h devs)) (c\<lparr>c_in := answer\<rparr>))"
proof -
  obtain name user where d: "default_device h (parse_device_list devs) = (name, user)" by fastforce
  then have sel: "selection h devs = set_target_frame name user" by (simp add: selection_def)
  let ?c1 = "conn_put (frame [OP_DEVICE_LIST]) c"
  let ?c2 = "conn_put (frame (selection h devs)) (?c1\<lparr>c_in := frame ack @ answer\<rparr>)"
  have 1: "on_conn (write_frame [OP_DEVICE_LIST]) (h, c) = (Done (), (h, ?c1))"
    by (rule on_conn_write) (simp_all add: assms(2) frame_ok_small)
  have 2: "on_conn read_frame (h, ?c1) = (Done devs, (h, ?c1\<lparr>c_in := frame ack @ answer\<rparr>))"
    by (rule on_conn_read) (simp_all add: assms(3,6))
  have 3: "on_conn (write_frame (selection h devs)) (h, ?c1\<lparr>c_in := frame ack @ answer\<rparr>) = (Done (), (h, ?c2))"
    by (rule on_conn_write) (simp_all add: assms(2,5))
  have 4: "on_conn read_frame (h, ?c2) = (Done ack, (h, ?c2\<lparr>c_in := answer\<rparr>))"
    by (rule on_conn_read) (simp_all add: assms(4))
  have 5: "?c2\<lparr>c_in := answer\<rparr> =
      conn_put (frame [OP_DEVICE_LIST] @ frame (selection h devs)) (c\<lparr>c_in := answer\<rparr>)"
    using assms(2) by (simp add: conn_put_def)
  show ?thesis
    unfolding fetch2_session_def
    using 1 2 3 4 5 d sel assms(1) by (simp add: Let_def)
qed

section \<open>The transfer\<close>

lemma read_line_path:
  assumes "utf8_valid (takeWhile (\<lambda>b. b \<noteq> 10) (h_stdin h))"
  shows "\<exists>line h'. read_line h = (Inr line, h') \<and> stdin_path line = fetched_path h \<and>
    h' = h\<lparr>h_stdin := drop (length (takeWhile (\<lambda>b. b \<noteq> 10) (h_stdin h)) + 1) (h_stdin h)\<rparr>"
  using assms by (simp add: read_line_def Let_def fetched_path_def)



end
