(* ===== verification/Screen_Spec.thy ===== *)
theory Screen_Spec
  imports Browse_Spec
begin

text \<open>
  The terminal is left as it was found: the menu and the browser print nothing before they switch
  to the alternate screen, and leave it again on every path out of them.
\<close>

section \<open>What the parts print\<close>

lemma file_create_out [simp]: "h_out (snd (file_create p h)) = h_out h"
  by (simp add: file_create_def fs_write_def split: option.splits)

lemma file_append_out [simp]: "h_out (snd (file_append p d h)) = h_out h"
  by (simp add: file_append_def split: option.splits)

lemma create_dir_all_out [simp]: "h_out (snd (create_dir_all p h)) = h_out h"
  by (simp add: create_dir_all_def split: option.splits)

lemma file_keeps_out:
  "file_create p h = (r, h') \<Longrightarrow> h_out h' = h_out h"
  "file_append p d h = (r, h') \<Longrightarrow> h_out h' = h_out h"
  "create_dir_all p h = (r, h') \<Longrightarrow> h_out h' = h_out h"
  using file_create_out [of p h] file_append_out [of p d h] create_dir_all_out [of p h] by simp_all

lemma put_out_out [simp]: "h_out (put_out b h) = h_out h @ b"
  by (simp add: put_out_def)

lemma on_conn_host [simp]: "fst (snd (on_conn f s)) = fst s"
  by (simp add: on_conn_def split: prod.splits)

lemma recv_loop_out: "h_out (snd (snd (recv_loop (file_append p) c h))) = h_out h"
proof (induction "file_append p" c h rule: recv_loop.induct)
  case (1 c h)
  obtain r c' where r: "read_frame c = (r, c')" by fastforce
  show ?case
  proof (cases "\<exists>f u h'. r = Inr f \<and> f \<noteq> [] \<and> file_append p f h = (Inr u, h')")
    case True
    then obtain f u h' where f: "r = Inr f" "f \<noteq> []" "file_append p f h = (Inr u, h')" by blast
    with 1 [OF r [symmetric] f(1,2) f(3) [symmetric]] r file_append_out [of p f h] show ?thesis
      by (subst recv_loop.simps) simp
  next
    case False
    with r show ?thesis
      by (subst recv_loop.simps) (auto split: sum.splits prod.splits dest: file_keeps_out)
  qed
qed

lemma get_file_out:
  "get_on_conn_fs (file_append p) remote c h = (r, (c', h')) \<Longrightarrow> h_out h' = h_out h"
proof -
  assume a: "get_on_conn_fs (file_append p) remote c h = (r, (c', h'))"
  obtain q c1 where q: "call_on_conn_fs (req_fs OP_GET_fs remote) c = (q, c1)" by fastforce
  obtain r2 c2 h2 where l: "recv_loop (file_append p) c1 h = (r2, (c2, h2))"
    by (metis prod.exhaust)
  then have "h_out h2 = h_out h" using recv_loop_out [of p c1 h] by simp
  with a q l show ?thesis
    by (cases q; cases r2) (auto simp: get_on_conn_fs_def split: sum.splits)
qed

lemma download_file_out: "download_file remote p s = (r, s') \<Longrightarrow> h_out (fst s') = h_out (fst s)"
  by (auto simp: download_file_def dest!: file_keeps_out get_file_out split: prod.splits sum.splits)

lemma entries_loop_out:
  "(\<And>n s r s'. rec n s = Some (r, s') \<Longrightarrow> h_out (fst s') = h_out (fst s)) \<Longrightarrow>
     entries_loop rec rd ld es s = Some (r, s') \<Longrightarrow> h_out (fst s') = h_out (fst s)"
proof (induction es arbitrary: s)
  case (Cons e es)
  show ?case
  proof (cases "fe_is_dir e")
    case True
    then show ?thesis using Cons.prems Cons.IH [OF Cons.prems(1)]
      by (auto split: option.splits prod.splits sum.splits)
  next
    case False
    then show ?thesis
      using Cons.prems Cons.IH [OF Cons.prems(1)]
      by (auto dest!: download_file_out split: prod.splits sum.splits)
  qed
qed simp

lemma download_dir_out:
  "download_dir k base name root s = Some (r, s') \<Longrightarrow> h_out (fst s') = h_out (fst s)"
proof (induction k arbitrary: base name root s r s')
  case (Suc k)
  obtain h c where s: "s = (h, c)" by (cases s)
  with Suc.prems show ?case
    by (auto simp: Let_def split: prod.splits sum.splits
        dest!: file_keeps_out entries_loop_out [rotated] Suc.IH)
qed simp

section \<open>The browser\<close>

text \<open>A part of the program that only adds to the output.\<close>

definition prints :: "('a \<times> (host \<times> conn)) \<Rightarrow> host \<times> conn \<Rightarrow> bool" where
  "prints r s \<longleftrightarrow> (\<exists>x. h_out (fst (snd r)) = h_out (fst s) @ x)"

lemma prints_same: "h_out (fst (snd r)) = h_out (fst s) \<Longrightarrow> prints r s"
  by (simp add: prints_def)

lemma prints_Pair [simp]: "prints (a, s) s"
  by (simp add: prints_def)

lemma prints_then:
  "prints r s \<Longrightarrow> (\<And>x t. r = (Done x, t) \<Longrightarrow> prints (k x t) t) \<Longrightarrow> prints (then_do r k) s"
  by (cases r; cases "fst r") (fastforce simp: prints_def)+

lemma reload_prints: "prints (reload p b s) s"
  by (auto simp: reload_def prints_def then_do_def on_conn_def split: prod.splits outcome.splits)

lemma prints_from: "prints r t \<Longrightarrow> h_out (fst t) = h_out (fst s) @ y \<Longrightarrow> prints r s"
  by (auto simp: prints_def)

lemma download_dir_prints: "prints (of_io (fst r), snd r) s" if "r = download_dir_recursive base name root s"
proof -
  obtain q s' where "download_dir (Suc (length (c_in (snd s)))) base name root s = Some (q, s')"
    using download_dir_fuel [of s "Suc (length (c_in (snd s)))" "Suc (length (c_in (snd s)))"] by blast
  with download_dir_out [OF this] that show ?thesis
    by (simp add: download_dir_recursive_def prints_same del: download_dir.simps)
qed

lemma download_file_prints:
  "prints (case download_file remote p s of
     (Inl e, s) \<Rightarrow> (Fail e, s)
   | (Inr sz, (h, c)) \<Rightarrow> (Done (), (put_out (msg sz) h, c))) s"
  by (auto simp: prints_def split: prod.splits sum.splits dest!: download_file_out)

lemma fetch_item_prints: "prints (fetch_item d item b s) s"
proof (cases item)
  case (Pair name is_dir)
  show ?thesis
  proof (cases is_dir)
    case True
    have "fetch_item d item b s = (of_io (fst (download_dir_recursive (b_remote b) name d s)),
        snd (download_dir_recursive (b_remote b) name d s))"
      using Pair True by (simp add: fetch_item_def case_prod_beta')
    then show ?thesis using download_dir_prints [OF refl] by simp
  next
    case False
    with Pair show ?thesis by (simp add: fetch_item_def download_file_prints del: append.simps)
  qed
qed

lemma confirmed_prints: "prints (confirmed d item b s) s"
  unfolding confirmed_def Let_def
  by (rule prints_from [OF prints_then [OF fetch_item_prints reload_prints]]) simp

lemma browse_key_prints: "prints (browse_key d key b s) s"
proof -
  have "prints (browse_plain code b s) s" for code
    by (simp add: browse_plain_def Let_def reload_prints)
  then show ?thesis
    by (auto simp: browse_key_def Let_def intro!: prints_then confirmed_prints split: option.splits)
qed

lemma browse_loop_prints: "prints (browse_loop l d evs b s) s"
proof (induction l d evs b s rule: browse_loop.induct)
  case (3 l d ev evs b s)
  have dr: "h_out (fst (drawn l b s)) = h_out (fst s) @
      browse_screen l (b_remote b) (b_entries b) (b_sel b) (b_confirm b)"
    by (simp add: drawn_def)
  show ?case
  proof (cases ev)
    case (KeyEv key)
    from 3(1) [OF KeyEv] KeyEv show ?thesis
      by (auto intro!: prints_from [OF prints_then dr] browse_key_prints split: option.splits)
  qed (use 3 dr in \<open>auto intro: prints_from\<close>)
qed (auto simp: prints_def drawn_def)

section \<open>The menu\<close>

lemma menu_loop_prints: "\<exists>x. h_out (snd (menu_loop devs ok draw sel evs h)) = h_out h @ x"
proof (induction evs arbitrary: sel h)
  case (Cons r evs)
  have "\<exists>x. h_out (snd (menu_loop devs ok draw i evs (put_out y (h\<lparr>h_events := z\<rparr>)))) = h_out h @ x" for i y z
    using Cons.IH [of i "put_out y (h\<lparr>h_events := z\<rparr>)"] by auto
  then show ?case
    by (cases r) (auto simp: Let_def split: term_event.splits)
qed simp

section \<open>Raw mode\<close>

lemma raw_mode_new_cases:
  "(case raw_mode_new h of (Inl e, h) \<Rightarrow> f e h | (Inr _, h) \<Rightarrow> g h) =
     (case h_raw h of Inl e \<Rightarrow> f e h | Inr _ \<Rightarrow> g (h\<lparr>h_is_raw := True\<rparr>))"
  by (simp add: raw_mode_new_def split: sum.split)

lemma raw_mode_drop_simps [simp]:
  "h_is_raw (raw_mode_drop h) = False" "h_out (raw_mode_drop h) = h_out h"
  by (simp_all add: raw_mode_drop_def)

lemma put_out_raw [simp]: "h_is_raw (put_out b h) = h_is_raw h" "h_raw (put_out b h) = h_raw h"
  by (simp_all add: put_out_def)

text \<open>Every part that enters raw mode leaves it, so at most a raw terminal stays raw.\<close>

lemma read_password_raw: "h_is_raw (snd (read_password h)) \<le> h_is_raw h"
  by (simp add: read_password_def raw_mode_new_cases split: sum.split prod.split)

lemma remote_shell_raw: "h_is_raw (fst (snd (remote_shell_interactive win (h, c)))) \<le> h_is_raw h"
  by (simp add: remote_shell_interactive_def raw_mode_new_cases Let_def split: sum.split prod.split)

lemma on_alt_screen_raw: "h_is_raw (snd (on_alt_screen f h)) \<le> h_is_raw h"
  by (simp add: on_alt_screen_def raw_mode_new_cases Let_def split: sum.split prod.split)

lemma fetch2_raw: "h_is_raw (fst (snd (fetch2_interactive d l s))) \<le> h_is_raw (fst s)"
proof -
  obtain r1 s1 where 1: "on_conn (set_read_timeout None) s = (r1, s1)" by (metis prod.exhaust)
  obtain r2 s2 where 2: "on_conn (ls_on_conn dot) s1 = (r2, s2)" by (metis prod.exhaust)
  have "fst s1 = fst s" "fst s2 = fst s"
    using on_conn_host [of "set_read_timeout None" s] on_conn_host [of "ls_on_conn dot" s1] 1 2 by simp_all
  with 1 2 show ?thesis
    by (cases r1; cases r2; cases "h_raw (fst s)")
      (simp_all add: fetch2_interactive_def raw_mode_new_cases Let_def split: prod.split)
qed

section \<open>The terminal is restored\<close>

text \<open>C34: the parts of the program that take over the terminal give it back as they found it. Whatever
  happens in the device menu or the file browser, an event error, a failed request, a panic or a
  normal end, what they print is enclosed between entering the alternate screen and leaving it
  (the browser prints nothing when its first listing fails); and they, the remote shell and the
  password prompt never leave a terminal in raw mode that was not.\<close>

theorem screen_restored:
  "(\<exists>x. h_out (snd (select_device_interactive devs self_name self_user now h)) =
      h_out h @ alt_on @ x @ alt_off) \<and>
   (\<exists>x. h_out (fst (snd (fetch2_interactive local_dir label s))) = h_out (fst s) @ x \<and>
      (x = [] \<or> (\<exists>y. x = alt_on @ y @ alt_off))) \<and>
   h_is_raw (snd (select_device_interactive devs self_name self_user now h)) \<le> h_is_raw h \<and>
   h_is_raw (fst (snd (fetch2_interactive local_dir label s))) \<le> h_is_raw (fst s) \<and>
   h_is_raw (fst (snd (remote_shell_interactive win (h, c)))) \<le> h_is_raw h \<and>
   h_is_raw (snd (read_password h)) \<le> h_is_raw h"
proof (intro conjI fetch2_raw remote_shell_raw read_password_raw)
  show "h_is_raw (snd (select_device_interactive devs self_name self_user now h)) \<le> h_is_raw h"
    unfolding select_device_interactive_def Let_def by (rule on_alt_screen_raw)
  show "\<exists>x. h_out (snd (select_device_interactive devs self_name self_user now h)) =
      h_out h @ alt_on @ x @ alt_off"
  proof (cases "h_raw h")
    case (Inr u)
    let ?ok = "selectable self_name self_user" and ?h = "(put_out alt_on h)\<lparr>h_is_raw := True\<rparr>"
    let ?sel = "case position ?ok devs of Some i \<Rightarrow> i | None \<Rightarrow> 0"
    let ?draw = "device_screen (unix_secs now) devs self_name self_user"
    obtain r h2 where m: "menu_loop devs ?ok ?draw ?sel (h_events ?h) ?h = (r, h2)" by fastforce
    with menu_loop_prints [of devs ?ok ?draw ?sel "h_events ?h" ?h] obtain x where
      "h_out h2 = h_out ?h @ x" by auto
    with Inr m show ?thesis
      by (simp add: select_device_interactive_def on_alt_screen_def raw_mode_new_cases Let_def)
  qed (simp add: select_device_interactive_def on_alt_screen_def raw_mode_new_cases Let_def exI [of _ "[]"])
next
  show "\<exists>x. h_out (fst (snd (fetch2_interactive local_dir label s))) = h_out (fst s) @ x \<and>
      (x = [] \<or> (\<exists>y. x = alt_on @ y @ alt_off))"
  proof -
    obtain r1 s1 where 1: "on_conn (set_read_timeout None) s = (r1, s1)" by (metis prod.exhaust)
    obtain r2 s2 where 2: "on_conn (ls_on_conn dot) s1 = (r2, s2)" by (metis prod.exhaust)
    have same: "fst s1 = fst s" "fst s2 = fst s"
      using on_conn_host [of "set_read_timeout None" s] on_conn_host [of "ls_on_conn dot" s1] 1 2 by simp_all
    show ?thesis
    proof (cases "\<exists>u es v. r1 = Done u \<and> r2 = Done es \<and> h_raw (fst s) = Inr v")
      case True
      then obtain u es v where ok: "r1 = Done u" "r2 = Done es" "h_raw (fst s) = Inr v"
        by blast
      let ?h = "(put_out alt_on (fst s))\<lparr>h_is_raw := True\<rparr>"
      let ?b = "\<lparr>b_remote = dot, b_entries = es, b_sel = 0, b_confirm = None\<rparr>"
      obtain r h c where l: "browse_loop label local_dir (h_events ?h) ?b (?h, snd s2) = (r, (h, c))"
        by (metis prod.exhaust)
      with browse_loop_prints [of label local_dir "h_events ?h" ?b "(?h, snd s2)"] obtain x where
        "h_out h = h_out (fst s) @ alt_on @ x" by (auto simp: prints_def)
      with 1 2 same ok l show ?thesis by (auto simp: fetch2_interactive_def raw_mode_new_cases Let_def)
    next
      case False
      with 1 2 same show ?thesis
        by (cases r1; cases r2; cases "h_raw (fst s)")
          (auto simp: fetch2_interactive_def raw_mode_new_cases Let_def intro: exI [of _ "alt_on @ alt_off"])
    qed
  qed
qed

end
