(* ===== verification/Server_Life.thy ===== *)
theory Server_Life
  imports Cli Auth_Spec
begin

text \<open>
  The life of a background server as its commands see it: started, found running, stopped. The
  pid file is what connects the commands.
\<close>

section \<open>Pids in files\<close>

lemma starts_with_hd: "starts_with (w # ws) s \<Longrightarrow> s \<noteq> [] \<Longrightarrow> w = hd s"
  by (cases s) (simp_all add: starts_with_def)

lemma digit_no_space:
  assumes "s \<noteq> []" and "48 \<le> hd s" and "hd s \<le> 57"
  shows "find (\<lambda>w. starts_with w s) white_space = None" "find (\<lambda>w. starts_with w s) (map rev white_space) = None"
proof -
  have w: "\<forall>w \<in> set white_space \<union> set (map rev white_space). w \<noteq> [] \<and> \<not> (48 \<le> hd w \<and> hd w \<le> 57)"
    by (simp add: white_space_def)
  have "\<not> starts_with w s" if "w \<in> set white_space \<union> set (map rev white_space)" for w
  proof
    assume "starts_with w s"
    moreover from w that have "w \<noteq> []" "\<not> (48 \<le> hd w \<and> hd w \<le> 57)" by blast+
    ultimately have "hd w = hd s" using starts_with_hd [of "hd w" "tl w" s] assms(1) by simp
    with \<open>\<not> (48 \<le> hd w \<and> hd w \<le> 57)\<close> assms(2,3) show False by simp
  qed
  then show "find (\<lambda>w. starts_with w s) white_space = None"
    "find (\<lambda>w. starts_with w s) (map rev white_space) = None"
    unfolding find_None_iff by blast+
qed

lemma trim_digits:
  assumes "s \<noteq> []" and "\<forall>b \<in> set s. 48 \<le> b \<and> b \<le> 57"
  shows "trim s = s"
proof -
  have "trim_front white_space n s = s" for n
    using assms digit_no_space(1) [of s] by (cases n) (auto simp: hd_in_set)
  moreover have "trim_front (map rev white_space) n (rev s) = rev s" for n
    using assms digit_no_space(2) [of "rev s"] hd_in_set [of "rev s"] by (cases n) auto
  ultimately show ?thesis by (simp add: trim_def trim_start_def trim_end_def)
qed

lemma trim_decimal [simp]: "trim (decimal n) = decimal n"
  by (rule trim_digits) (auto dest: set_decimal)

lemma read_pid_file:
  assumes "h_files h p = Some (decimal n)" and "h_read_err h p = None" and "n < 2 ^ 32"
  shows "read_to_string p h = Inr (decimal n)" "read_pid p h = Some n"
proof -
  have "utf8_valid (decimal n)"
  proof (rule utf8_valid_ascii, rule ballI)
    fix b assume "b \<in> set (decimal n)"
    then have "b \<le> 57" using set_decimal by blast
    then show "b < 0x80" by (rule le_less_trans) simp
  qed
  with assms show "read_to_string p h = Inr (decimal n)" by (simp add: read_to_string_def)
  with assms(3) show "read_pid p h = Some n"
    by (simp add: read_pid_def parse_u32_def parse_uint_decimal)
qed

lemma path_join_eq:
  "a \<noteq> [] \<Longrightarrow> b \<noteq> [] \<Longrightarrow> hd a \<noteq> 47 \<Longrightarrow> hd b \<noteq> 47 \<Longrightarrow> path_join t a = path_join t b \<longleftrightarrow> a = b"
  by (simp add: path_join_def)

lemma tmp_files_distinct:
  "session_file h \<noteq> pid_file h" "reverse_pid_file h \<noteq> pid_file h"
  by (simp_all add: session_file_def pid_file_def reverse_pid_file_def path_join_eq lit_def)

section \<open>What starting and stopping change\<close>

lemma spawn_daemon_keeps:
  assumes "spawn_daemon sys args k v log h = (Inr pid, h')"
  shows "\<exists>h0. sy_spawn sys h0 = Inr pid" "h_tmp h' = h_tmp h" "h_env h' = h_env h"
    "h_read_err h' = h_read_err h" "h_dirs h' = h_dirs h" "h_spawned h' = h_spawned h @ [(args, k, v, log)]"
  using assms
  by (auto simp: spawn_daemon_def open_append_def try_io_def split: option.splits sum.splits prod.splits)

lemma fs_write_keeps:
  assumes "fs_write p b h = (Inr (), h')"
  shows "h' = h\<lparr>h_files := (h_files h)(p := Some b)\<rparr>"
  using assms by (auto simp: fs_write_def split: option.splits)

lemma save_session_keeps:
  "\<exists>f. snd (save_session a pw h) = h\<lparr>h_files := f\<rparr> \<and> (\<forall>q. q \<noteq> session_file h \<longrightarrow> f q = h_files h q)"
  by (cases "h_write_err h (session_file h)") (auto simp: save_session_def fs_write_def intro: exI [of _ "h_files h"])

lemma stop_reverse_keeps:
  "h_tmp (stop_reverse sys h) = h_tmp h" "h_dirs (stop_reverse sys h) = h_dirs h"
  "h_files h (pid_file h) = None \<Longrightarrow> h_files (stop_reverse sys h) (pid_file h) = None"
  "set (h_killed h) \<subseteq> set (h_killed (stop_reverse sys h))"
  by (auto simp: stop_reverse_def force_kill_def remove_file_def put_line_def put_out_def Let_def
      split: option.splits)

text \<open>A running server, as its commands see it.\<close>

definition running :: "nat \<Rightarrow> host \<Rightarrow> bool" where
  "running pid h \<longleftrightarrow> h_files h (pid_file h) = Some (decimal pid) \<and> h_read_err h (pid_file h) = None \<and>
     \<not> h_dirs h (pid_file h) \<and> h_env h (lit ''THRU_DAEMON'') = None \<and> pid < 2 ^ 32"

lemma run_server_ends: "run_server sys it cit now args st \<noteq> Exit n"
  by (simp add: run_server_def Let_def split: sum.split option.split)

lemma started_running:
  assumes "server_cmd sys it cit now args st = Some (Exit 0, st1)"
    and "\<And>h p. sy_spawn sys h = Inr p \<Longrightarrow> p < 2 ^ 32"
    and "h_read_err (p_host st) (pid_file (p_host st)) = None" and "\<not> h_dirs (p_host st) (pid_file (p_host st))"
  shows "\<exists>pid log. running pid (p_host st1) \<and>
    h_spawned (p_host st1) = h_spawned (p_host st) @ [(args, lit ''THRU_DAEMON'', lit ''1'', log)]"
proof -
  let ?h = "p_host st"
  have env: "h_env ?h (lit ''THRU_DAEMON'') = None"
    using assms(1) run_server_ends [of sys it cit now args st 0]
    by (auto simp: server_cmd_def Let_def split: outcome.splits if_splits)
  obtain opts where opts: "server_cmd_args \<lparr>co_port = PORT, co_password = None, co_log = None\<rparr> args = Some opts"
    using assms(1) env by (auto simp: server_cmd_def Let_def split: if_splits option.splits)
  obtain q h1 where q: "spawn_daemon sys args (lit ''THRU_DAEMON'') (lit ''1'') (co_log opts) ?h = (q, h1)"
    by (metis prod.exhaust)
  with assms(1) env opts obtain pid where s: "q = Inr pid"
    by (cases q) (auto simp: server_cmd_def Let_def split: if_splits)
  obtain u h2 where u: "fs_write (pid_file h1) (decimal pid) h1 = (u, h2)" by (metis prod.exhaust)
  with assms(1) env opts q s have w: "u = Inr ()" and
    st1: "st1 = st\<lparr>p_host := put_line (lit ''thru server started on port '' @ decimal (co_port opts) @
        lit '' (pid '' @ decimal pid @ lit '')'')
      (snd (save_session (lit ''127.0.0.1:'' @ decimal (co_port opts)) (co_password opts) h2))\<rparr>"
    by (cases u; simp add: server_cmd_def Let_def split: if_splits)+
  note s = q [unfolded s] and w = u [unfolded w]
  note k = spawn_daemon_keeps [OF s] and h2 = fs_write_keeps [OF w]
  obtain f where f: "snd (save_session (lit ''127.0.0.1:'' @ decimal (co_port opts)) (co_password opts) h2) = h2\<lparr>h_files := f\<rparr>"
    "\<And>q. q \<noteq> session_file h2 \<Longrightarrow> f q = h_files h2 q"
    using save_session_keeps by blast
  have "pid_file h2 = pid_file h1" "pid_file h1 = pid_file ?h" using k(2) h2 by (simp_all add: pid_file_def)
  moreover have "pid < 2 ^ 32" using k(1) assms(2) by blast
  moreover have "f (pid_file h2) = Some (decimal pid)"
    using f(2) [of "pid_file h2"] tmp_files_distinct(1) [of h2] h2 by (simp add: pid_file_def)
  ultimately have "running pid (p_host st1)"
    using assms(3,4) k env st1 f(1) h2 by (simp add: running_def put_line_def put_out_def pid_file_def)
  moreover have "h_spawned (p_host st1) = h_spawned ?h @ [(args, lit ''THRU_DAEMON'', lit ''1'', co_log opts)]"
    using st1 f(1) h2 k by (simp add: put_line_def put_out_def)
  ultimately show ?thesis by blast
qed

lemma stop_running:
  assumes "running pid h" and "sy_kill sys pid"
  shows "\<exists>h2. stop_server sys h = (Inr (), h2) \<and> pid \<in> set (h_killed h2) \<and> \<not> path_exists (pid_file h2) h2"
proof -
  have f: "h_files h (pid_file h) = Some (decimal pid)" "h_read_err h (pid_file h) = None" "pid < 2 ^ 32"
    "\<not> h_dirs h (pid_file h)"
    using assms(1) by (simp_all add: running_def)
  let ?h = "remove_file (pid_file h) (put_line (lit ''thru server stopped (pid '' @ decimal pid @ lit '')'')
    (h\<lparr>h_killed := h_killed h @ [pid]\<rparr>))"
  have p: "pid_file ?h = pid_file h" by (simp add: pid_file_def remove_file_def put_line_def put_out_def)
  have "stop_server sys h = (Inr (), stop_reverse sys ?h)"
    using f read_pid_file [OF f(1-3)] assms(2)
    by (simp add: stop_server_def path_exists_def force_kill_def parse_u32_def parse_uint_decimal)
  moreover have "pid \<in> set (h_killed (stop_reverse sys ?h))"
    using stop_reverse_keeps(4) [where h = ?h and sys = sys] by (auto simp: remove_file_def put_line_def put_out_def)
  moreover have "\<not> path_exists (pid_file (stop_reverse sys ?h)) (stop_reverse sys ?h)"
  proof -
    have "pid_file (stop_reverse sys ?h) = pid_file ?h"
      using stop_reverse_keeps(1) [where h = ?h and sys = sys] by (simp add: pid_file_def)
    moreover have "h_files ?h (pid_file ?h) = None" using p by (simp add: remove_file_def)
    ultimately show ?thesis
      using stop_reverse_keeps(2,3) [where h = ?h and sys = sys] p f(4)
      by (simp add: path_exists_def remove_file_def put_line_def put_out_def)
  qed
  ultimately show ?thesis by blast
qed



end
