(* ===== verification/Server_Spec.thy ===== *)
theory Server_Spec
  imports Server Dict_Spec Reverse_Spec
begin

text \<open>
  Invariants of the running server, over any interleaving of accepted connections, client rounds
  and heartbeats: the device list (\<open>dev_inv\<close>) and the table of connections. The other threads a
  handler may be interrupted by are bound by the same invariant only (rely and guarantee).
\<close>

section \<open>The device list\<close>

definition dev_key :: "device \<Rightarrow> rstr \<times> rstr" where
  "dev_key d = (dv_name d, dv_user d)"

text \<open>
  One record per name and user; a record is active exactly when it has a connection, and then a
  monitor watches that connection for that record; at most \<open>mx\<close> records are active (no limit for
  0); a connection has one monitor.
\<close>

definition dev_inv :: "nat \<Rightarrow> rworld \<Rightarrow> bool" where
  "dev_inv mx w \<longleftrightarrow>
     distinct (map dev_key (rw_devices w)) \<and>
     (\<forall>d \<in> set (rw_devices w). dv_active d \<longleftrightarrow> dv_conn d \<noteq> None) \<and>
     (0 < mx \<longrightarrow> active_count (rw_devices w) \<le> mx) \<and>
     (\<forall>d \<in> set (rw_devices w). \<forall>a. dv_conn d = Some a \<longrightarrow>
        (a, dv_name d, dv_user d) \<in> set (rw_monitors w)) \<and>
     distinct (map fst (rw_monitors w)) \<and>
     (\<forall>m \<in> set (rw_monitors w). fst m < rw_next w)"

lemma dev_inv_conns [simp]: "dev_inv mx (w\<lparr>rw_conns := x\<rparr>) = dev_inv mx w"
  by (simp add: dev_inv_def)

lemma is_device_key: "is_device name user d \<longleftrightarrow> dev_key d = (name, user)"
  by (auto simp: is_device_def dev_key_def)

lemma update_first_key:
  "(\<And>x. P x \<Longrightarrow> k (g x) = k x) \<Longrightarrow> map k (update_first P g xs) = map k xs"
  by (induction xs) auto

lemma update_first_set:
  "x \<in> set (update_first P g xs) \<Longrightarrow> (x \<in> set xs) \<or> (\<exists>y \<in> set xs. P y \<and> x = g y)"
  by (induction xs) (auto split: if_splits)

text \<open>With distinct keys the updated record is the only one with its key.\<close>

lemma update_first_distinct:
  "distinct (map k xs) \<Longrightarrow> (\<And>x. k (g x) = k x) \<Longrightarrow>
     set (update_first (\<lambda>x. k x = v) g xs) =
       {x \<in> set xs. k x \<noteq> v} \<union> g ` {x \<in> set xs. k x = v}"
proof (induction xs)
  case (Cons x xs)
  show ?case
  proof (cases "k x = v")
    case True
    with Cons.prems(1) have "\<forall>y \<in> set xs. k y \<noteq> v" by (auto simp: image_iff)
    with True show ?thesis by auto
  next
    case False
    with Cons show ?thesis by auto
  qed
qed simp

lemma is_device_fun: "is_device name user = (\<lambda>d. dev_key d = (name, user))"
  by (rule ext) (simp add: is_device_key)

lemma active_count_offline:
  "active_count (update_first P (\<lambda>d. d\<lparr>dv_active := False, dv_conn := None, dv_last_seen := now\<rparr>) xs)
     \<le> active_count xs"
  by (induction xs) (auto simp: active_count_def)

lemma active_count_update_le:
  "active_count (update_first P g xs) \<le> Suc (active_count xs)"
  by (induction xs) (auto simp: active_count_def)

lemma offline_set:
  assumes "distinct (map dev_key (rw_devices w))"
  shows "set (rw_devices (mark_device_offline now name user w)) =
     {x \<in> set (rw_devices w). dev_key x \<noteq> (name, user)} \<union>
     (\<lambda>d. d\<lparr>dv_active := False, dv_conn := None, dv_last_seen := now\<rparr>) `
       {x \<in> set (rw_devices w). dev_key x = (name, user)}"
  using update_first_distinct [OF assms, of
    "\<lambda>d. d\<lparr>dv_active := False, dv_conn := None, dv_last_seen := now\<rparr>" "(name, user)"]
  by (simp add: mark_device_offline_def is_device_fun dev_key_def)

lemma offline_inv [intro]:
  assumes "dev_inv mx w" shows "dev_inv mx (mark_device_offline now name user w)"
proof -
  from assms have d: "distinct (map dev_key (rw_devices w))" by (simp add: dev_inv_def)
  have "map dev_key (rw_devices (mark_device_offline now name user w)) = map dev_key (rw_devices w)"
    by (simp add: mark_device_offline_def update_first_key dev_key_def)
  moreover have "active_count (rw_devices (mark_device_offline now name user w)) \<le> active_count (rw_devices w)"
    by (simp add: mark_device_offline_def active_count_offline)
  ultimately show ?thesis using assms
    by (simp add: dev_inv_def offline_set [OF d] ball_Un) (auto simp: mark_device_offline_def)
qed

section \<open>What handlers keep of the device list\<close>

text \<open>
  A predicate of the shared state that does not depend on the connections and that taking a device
  offline keeps is kept by every handler, as long as the other threads keep it.
\<close>

locale world_law =
  fixes ok :: "rworld \<Rightarrow> bool"
  assumes conns [simp]: "ok (w\<lparr>rw_conns := x\<rparr>) = ok w"
    and offline [intro]: "ok w \<Longrightarrow> ok (mark_device_offline now name user w)"
begin

lemma resolve_ok:
  "obeys ok oth \<Longrightarrow> ok w \<Longrightarrow> resolve_proxy_target oth f (c, w) = (r, (c', w')) \<Longrightarrow> ok w'"
  by (auto simp: resolve_proxy_target_def Let_def obeys_def split: option.splits)

lemma send_ok:
  assumes "obeys ok oth" and "send_proxy_request oth now a n u f (c, w) = (b, (c', w'))" and "ok w"
  shows "ok w'"
  using assms by (auto simp: send_proxy_request_def device_gone_def obeys_def split: prod.splits sum.splits)

lemma proxy_ls_ok:
  assumes oth: "obeys ok oth" and w: "ok w"
  shows "ok (snd (handle_reverse_proxy_ls oth now f (c, w)))"
proof -
  obtain r c1 w1 where r: "resolve_proxy_target oth f (c, w) = (r, (c1, w1))"
    by (metis prod.exhaust)
  note w1 = resolve_ok [OF oth w r]
  show ?thesis
  proof (cases r)
    case None
    with r w1 show ?thesis by (simp add: handle_reverse_proxy_ls_def)
  next
    case (Some t)
    obtain a n u p where t: "t = (a, n, u, p)" by (metis prod.exhaust)
    obtain b c2 w2 where s: "send_proxy_request oth now a n u (req_fs OP_LS p) (c1, w1) = (b, (c2, w2))"
      by (metis prod.exhaust)
    with send_ok [OF oth s w1] r Some t oth show ?thesis
      by (auto simp: handle_reverse_proxy_ls_def device_gone_def obeys_def split: prod.splits sum.splits bool.splits)
  qed
qed

lemma proxy_get_ok:
  assumes oth: "obeys ok oth" and w: "ok w"
  shows "ok (snd (handle_reverse_proxy_get oth now f (c, w)))"
proof -
  obtain r c1 w1 where r: "resolve_proxy_target oth f (c, w) = (r, (c1, w1))"
    by (metis prod.exhaust)
  note w1 = resolve_ok [OF oth w r]
  show ?thesis
  proof (cases r)
    case None
    with r w1 show ?thesis by (simp add: handle_reverse_proxy_get_def)
  next
    case (Some t)
    obtain a n u p where t: "t = (a, n, u, p)" by (metis prod.exhaust)
    obtain b c2 w2 where s: "send_proxy_request oth now a n u (req_fs OP_GET_fs p) (c1, w1) = (b, (c2, w2))"
      by (metis prod.exhaust)
    with send_ok [OF oth s w1] r Some t oth show ?thesis
      by (auto simp: handle_reverse_proxy_get_def device_gone_def Let_def obeys_def
          split: prod.splits sum.splits bool.splits)
  qed
qed

lemma dispatch_fs_ok:
  assumes oth: "obeys ok oth" and w: "ok w"
  shows "ok (snd (fst (dispatch_fs oth fs now f ((c, w), t))))"
  using oth w proxy_ls_ok [OF oth] proxy_get_ok [OF oth]
  by (auto simp: dispatch_fs_def Let_def obeys_def split: prod.splits option.splits)

lemma serve_frame_ok:
  assumes oth: "obeys ok oth" and it: "iter_law (cf_iter cfg)"
    and inv: "dict_inv (sv_dict sv)" "ok (sv_world sv)"
    and r: "serve_frame sys cfg oth clk f (cl, sv) = Some (cl', sv')"
  shows "cl_id cl' = cl_id cl \<and> dict_inv (sv_dict sv') \<and> ok (sv_world sv') \<and>
    sv_counter sv' = sv_counter sv \<and> sv_connections sv' = sv_connections sv \<and>
    sv_clients sv' = sv_clients sv \<and> cl_hung cl' = cl_hung cl"
proof -
  have w: "ok (snd (handle_reverse_proxy_ls oth (fst clk) f (cl_conn cl, sv_world sv)))"
    "ok (snd (handle_reverse_proxy_get oth (fst clk) f (cl_conn cl, sv_world sv)))"
    "ok (snd (fst (dispatch_fs oth (sy_fs sys) (fst clk) f ((cl_conn cl, sv_world sv), cl_target cl))))"
    using proxy_ls_ok [OF oth inv(2)] proxy_get_ok [OF oth inv(2)] dispatch_fs_ok [OF oth inv(2)]
    by blast+
  have d: "dict_inv (snd (dict_handle (cf_iter cfg) (snd clk) f (sv_dict sv)))"
    using dict_handle_inv [OF inv(1) it] by blast
  from r w d inv show ?thesis
    by (auto simp: serve_frame_def dispatch_basic_def Let_def
        split: if_splits option.splits prod.splits bool.splits)
qed

lemma client_step_ok:
  assumes "obeys ok oth" and "iter_law (cf_iter cfg)"
    and inv: "dict_inv (sv_dict sv)" "ok (sv_world sv)"
    and step: "client_step sys cfg oth clk cl sv = (Goes_On cl', sv')"
  shows "cl_id cl' = cl_id cl \<and> dict_inv (sv_dict sv') \<and> ok (sv_world sv') \<and>
      sv_counter sv' = sv_counter sv \<and> sv_connections sv' = sv_connections sv \<and>
      sv_clients sv' = sv_clients sv"
proof -
  obtain r c where rc: "(case cl_pending cl of Some f \<Rightarrow> (Inr f, cl_conn cl) | None \<Rightarrow> read_frame (cl_conn cl)) = (r, c)"
    by fastforce
  let ?cl = "cl\<lparr>cl_conn := c, cl_pending := None\<rparr>"
  show ?thesis
    using step rc serve_frame_ok [OF assms(1-4), where cl = ?cl and cl' = cl' and sv' = sv' and clk = clk and sys = sys]
    by (auto simp: client_step_def split: sum.splits option.splits)
qed

end

interpretation dev: world_law "dev_inv mx" for mx
  by unfold_locales auto

text \<open>A round that does not go on changes nothing else.\<close>

lemma client_step_stops:
  "client_step sys cfg oth clk cl sv = (Ends, sv') \<Longrightarrow>
     sv' = sv\<lparr>sv_connections := hm_remove (cl_id cl) (sv_connections sv)\<rparr>"
  "client_step sys cfg oth clk cl sv = (Hangs, sv') \<Longrightarrow> sv' = sv"
  by (auto simp: client_step_def split: sum.splits option.splits prod.splits)

section \<open>Registration and heartbeats\<close>

lemma register_inv:
  assumes w: "dev_inv mx w"
  shows "dev_inv mx (snd (register_device mx now name user c w))"
proof (cases "0 < mx \<and> mx \<le> active_count (rw_devices w)")
  case True
  with w show ?thesis by (simp add: register_device_def)
next
  case full: False
  let ?a = "rw_next w" and ?r = "peer_or_unknown c"
  let ?g = "\<lambda>d. d\<lparr>dv_addr := ?r, dv_last_seen := now, dv_active := True, dv_conn := Some ?a\<rparr>"
  have d: "distinct (map dev_key (rw_devices w))" using w by (simp add: dev_inv_def)
  show ?thesis
  proof (cases "list_ex (is_device name user) (rw_devices w)")
    case True
    have "set (update_first (is_device name user) ?g (rw_devices w)) =
        {x \<in> set (rw_devices w). dev_key x \<noteq> (name, user)} \<union>
        ?g ` {x \<in> set (rw_devices w). dev_key x = (name, user)}"
      unfolding is_device_fun by (rule update_first_distinct [OF d]) (simp add: dev_key_def)
    moreover have "map dev_key (update_first (is_device name user) ?g (rw_devices w)) = map dev_key (rw_devices w)"
      by (simp add: update_first_key dev_key_def)
    ultimately show ?thesis using w full True active_count_update_le [of "is_device name user" ?g "rw_devices w"]
      by (simp add: dev_inv_def register_device_def Let_def ball_Un dev_key_def) fastforce
  next
    case False
    then have "(name, user) \<notin> dev_key ` set (rw_devices w)"
      by (force simp: list_ex_iff is_device_key)
    with w full False show ?thesis
      by (simp add: dev_inv_def register_device_def Let_def active_count_def dev_key_def) fastforce
  qed
qed

lemma distinct_fst_unique:
  "distinct (map fst xs) \<Longrightarrow> (a, b) \<in> set xs \<Longrightarrow> (a, b') \<in> set xs \<Longrightarrow> b = b'"
  by (metis map_of_is_SomeI option.inject)

lemma find_unique:
  "distinct (map k xs) \<Longrightarrow> x \<in> set xs \<Longrightarrow> k x = v \<Longrightarrow> find (\<lambda>y. k y = v) xs = Some x"
  by (induction xs) (auto simp: image_iff)

text \<open>No record keeps the connection of a monitor that stopped.\<close>

lemma heartbeat_failed:
  assumes w: "dev_inv mx w" and m: "(a, name, user) \<in> set (rw_monitors w)"
    and f: "heartbeat now a name user w = (False, w')"
  shows "dev_inv mx w' \<and> rw_monitors w' = rw_monitors w \<and> rw_next w' = rw_next w \<and>
    (\<forall>d \<in> set (rw_devices w'). dv_conn d \<noteq> Some a)"
proof -
  from f obtain c where c: "w' = (let v = w\<lparr>rw_conns := (rw_conns w)(a := c)\<rparr> in
      if (case find (is_device name user) (rw_devices v) of Some d \<Rightarrow> dv_conn d = Some a | None \<Rightarrow> False)
      then mark_device_offline now name user v else v)"
    by (auto simp: heartbeat_def Let_def split: prod.splits sum.splits if_splits)
  let ?cur = "case find (is_device name user) (rw_devices w) of Some d \<Rightarrow> dv_conn d = Some a | None \<Rightarrow> False"
  have d: "distinct (map dev_key (rw_devices w))" using w by (simp add: dev_inv_def)
  have owner: "dev_key x = (name, user)" if "x \<in> set (rw_devices w)" "dv_conn x = Some a" for x
  proof -
    from that w have "(a, dv_name x, dv_user x) \<in> set (rw_monitors w)" by (simp add: dev_inv_def)
    with m w show ?thesis using distinct_fst_unique [of "rw_monitors w" a "(name, user)"]
      by (auto simp: dev_inv_def dev_key_def)
  qed
  have none: "\<forall>x \<in> set (rw_devices w). dv_conn x \<noteq> Some a" if "\<not> ?cur"
  proof (rule ballI, rule notI)
    fix x assume x: "x \<in> set (rw_devices w)" "dv_conn x = Some a"
    have "find (is_device name user) (rw_devices w) = Some x"
      unfolding is_device_fun by (rule find_unique [OF d x(1) owner [OF x]])
    with that x(2) show False by simp
  qed
  show ?thesis
  proof (cases ?cur)
    case True
    let ?v = "w\<lparr>rw_conns := (rw_conns w)(a := c)\<rparr>"
    have w': "w' = mark_device_offline now name user ?v" using c True by (simp add: Let_def)
    have dv: "distinct (map dev_key (rw_devices ?v))" using d by simp
    have "dev_inv mx w'" unfolding w' using w by (intro offline_inv) simp
    moreover have "\<forall>x \<in> set (rw_devices w'). dv_conn x \<noteq> Some a"
      unfolding w' offline_set [OF dv] using owner by auto
    ultimately show ?thesis by (simp add: w' mark_device_offline_def)
  next
    case False
    with c none w show ?thesis by (simp add: Let_def)
  qed
qed

lemma monitor_inv:
  assumes w: "dev_inv mx w" and m: "m \<in> set (rw_monitors w)"
  shows "dev_inv mx (monitor_turn now m w)"
proof -
  obtain a name user where t: "m = (a, name, user)" by (metis prod.exhaust)
  obtain b w' where h: "heartbeat now a name user w = (b, w')" by fastforce
  show ?thesis
  proof (cases b)
    case True
    with h have "\<exists>x. w' = w\<lparr>rw_conns := x\<rparr>"
      by (auto simp: heartbeat_def Let_def split: prod.splits sum.splits)
    with w h t True show ?thesis by (auto simp: monitor_turn_def)
  next
    case False
    with heartbeat_failed [OF w, of a name user now w'] m t h
    have "dev_inv mx w'" "\<forall>d \<in> set (rw_devices w'). dv_conn d \<noteq> Some a" by auto
    then have "dev_inv mx (w'\<lparr>rw_monitors := filter (\<lambda>q. fst q \<noteq> a) (rw_monitors w')\<rparr>)"
      by (auto simp: dev_inv_def distinct_map_filter)
    with t h False show ?thesis by (simp add: monitor_turn_def)
  qed
qed

section \<open>The invariant of the server\<close>

text \<open>
  After \<open>n\<close> steps: the dictionary and the device list are well-formed; the ids handed out are
  the counter's values so far; the table of connections holds exactly the running client threads.
\<close>

definition sv_inv :: "nat \<Rightarrow> nat \<Rightarrow> server \<Rightarrow> bool" where
  "sv_inv mx n sv \<longleftrightarrow>
     dict_inv (sv_dict sv) \<and> dev_inv mx (sv_world sv) \<and>
     (\<exists>k \<le> n. sv_counter sv = of_nat k \<and> (\<forall>cl \<in> set (sv_clients sv). unat (cl_id cl) < k)) \<and>
     distinct (map cl_id (sv_clients sv)) \<and> hm_ok (sv_connections sv) \<and>
     fst ` set (sv_connections sv) = cl_id ` set (sv_clients sv)"

lemma sv_inv_new: "sv_inv mx 0 (server_new st)"
  by (simp add: sv_inv_def server_new_def dict_inv_new dev_inv_def active_count_def)

lemma sv_inv_mono: "sv_inv mx n sv \<Longrightarrow> sv_inv mx (Suc n) sv"
  by (auto simp: sv_inv_def intro: le_SucI)

lemma sv_inv_world:
  "sv_inv mx n sv \<Longrightarrow> dev_inv mx w \<Longrightarrow> sv_inv mx n (sv\<lparr>sv_world := w\<rparr>)"
  by (simp add: sv_inv_def)

lemma hm_insert_keys [simp]: "fst ` set (hm_insert k v m) = insert k (fst ` set m)"
  by (auto simp: hm_insert_def hm_remove_def image_iff)

lemma hm_remove_keys [simp]: "fst ` set (hm_remove k m) = fst ` set m - {k}"
  by (auto simp: hm_remove_def)

lemma accept_inv:
  assumes inv: "sv_inv (so_max_devices (cf_opts cfg)) n sv" and n: "n < 2 ^ 64"
  shows "sv_inv (so_max_devices (cf_opts cfg)) (Suc n) (snd (accept_conn sha cfg nonce now c sv))"
proof -
  let ?mx = "so_max_devices (cf_opts cfg)"
  have reg: "sv_inv ?mx (Suc n) (sv\<lparr>sv_world := snd (register_device ?mx now name user d (sv_world sv))\<rparr>)"
    for name user d
    by (rule sv_inv_world [OF sv_inv_mono [OF inv] register_inv]) (use inv in \<open>simp add: sv_inv_def\<close>)
  have start: "sv_inv ?mx (Suc n) (sv\<lparr>sv_counter := sv_counter sv + 1,
      sv_connections := hm_insert (sv_counter sv) r (sv_connections sv),
      sv_clients := sv_clients sv @ [\<lparr>cl_id = sv_counter sv, cl_conn = d, cl_target = None,
        cl_pending = Some f, cl_hung = False\<rparr>]\<rparr>)" for r d f
  proof -
    from inv obtain k where k: "k \<le> n" "sv_counter sv = of_nat k"
      "\<forall>cl \<in> set (sv_clients sv). unat (cl_id cl) < k" by (auto simp: sv_inv_def)
    then have u: "unat (of_nat k :: u64) = k" using n by (simp add: unat_u64)
    then have new: "(of_nat k :: u64) \<notin> cl_id ` set (sv_clients sv)" using k(3) by force
    have "\<exists>j \<le> Suc n. sv_counter sv + 1 = of_nat j \<and> unat (of_nat k :: u64) < j \<and>
        (\<forall>cl \<in> set (sv_clients sv). unat (cl_id cl) < j)"
      using k u by (intro exI [of _ "Suc k"]) (auto intro: less_SucI)
    then show ?thesis using inv new k(2) by (auto simp: sv_inv_def hm.ok_insrt)
  qed
  obtain r1 c1 where a: "auth_server sha nonce (so_password (cf_opts cfg)) c = (r1, c1)" by fastforce
  obtain r2 c2 where rd: "read_frame c1 = (r2, c2)" by fastforce
  have mono: "sv_inv ?mx (Suc n) sv" by (rule sv_inv_mono [OF inv])
  show ?thesis
  proof (cases "r1 = Inr True \<and> (\<exists>f. r2 = Inr f)")
    case False
    with a rd mono show ?thesis
      by (auto simp: accept_conn_def split: sum.splits)
  next
    case True
    then obtain f where r: "r1 = Inr True" "r2 = Inr f" by blast
    show ?thesis
    proof (cases "f \<noteq> [] \<and> hd f = OP_REVERSE_REGISTER")
      case False
      with a rd r start show ?thesis by (auto simp: accept_conn_def Let_def)
    next
      case True
      with a rd r mono reg show ?thesis
        by (auto simp: accept_conn_def split: option.splits prod.splits) (metis snd_conv)+
    qed
  qed
qed

lemma sv_step_inv:
  assumes inv: "sv_inv (so_max_devices (cf_opts cfg)) n sv" and n: "n < 2 ^ 64"
    and it: "iter_law (cf_iter cfg)"
    and step: "sv_step sys cfg (dev_inv (so_max_devices (cf_opts cfg))) sv sv'"
  shows "sv_inv (so_max_devices (cf_opts cfg)) (Suc n) sv'"
  using step
proof (cases rule: sv_step.cases)
  case (accepts nonce now c)
  with accept_inv [OF inv n] show ?thesis by simp
next
  case (serves xs cl ys oth clk cl' sv1)
  from inv have "dict_inv (sv_dict sv)" "dev_inv (so_max_devices (cf_opts cfg)) (sv_world sv)"
    by (simp_all add: sv_inv_def)
  from dev.client_step_ok [OF serves(4) it this serves(5)] inv serves(2)
  show ?thesis unfolding serves(1)
    by (intro sv_inv_mono) (auto simp: sv_inv_def set_clients_def)
next
  case (finishes xs cl ys oth clk sv1)
  from client_step_stops(1) [OF finishes(4)] inv finishes(2) show ?thesis unfolding finishes(1)
    by (intro sv_inv_mono) (auto simp: sv_inv_def set_clients_def hm.ok_remov image_iff)
next
  case (hangs xs cl ys oth clk sv1)
  from client_step_stops(2) [OF hangs(4)] inv hangs(2) show ?thesis unfolding hangs(1)
    by (intro sv_inv_mono) (auto simp: sv_inv_def set_clients_def)
next
  case (beats m now)
  with inv monitor_inv [of _ "sv_world sv" m now] show ?thesis
    by (intro sv_inv_mono) (auto simp: sv_inv_def)
qed

lemma reaches_inv:
  assumes "reaches sys cfg (dev_inv (so_max_devices (cf_opts cfg))) st n sv"
    and "n < 2 ^ 64" and "iter_law (cf_iter cfg)"
  shows "sv_inv (so_max_devices (cf_opts cfg)) n sv"
  using assms
proof (induction rule: reaches.induct)
  case initially
  show ?case by (rule sv_inv_new)
next
  case (after n sv sv')
  then show ?case using sv_step_inv [of cfg n sv sys sv'] by simp
qed


definition demo_cfg :: "nat \<Rightarrow> config" where
  "demo_cfg mx = \<lparr>cf_opts = \<lparr>so_password = None, so_port = PORT, so_max_devices = mx\<rparr>, cf_user = [],
     cf_addr = [], cf_started = 0, cf_pid = 7, cf_iter = rev, cf_conn_iter = rev\<rparr>"

definition one_client :: "exec_state \<Rightarrow> server" where
  "one_client st = (server_new st)\<lparr>sv_counter := 1, sv_connections := [(0, [])],
     sv_clients := [\<lparr>cl_id = 0, cl_conn = conn_put (frame [AUTH_NONE]) (endpoint []), cl_target = None,
       cl_pending = Some [OP_STATUS], cl_hung = False\<rparr>]\<rparr>"

lemma demo_accept:
  "accept_conn sha (demo_cfg mx) nonce now (endpoint (frame [OP_STATUS])) (server_new st) =
     (Started 0, one_client st)"
proof -
  have "read_frame (conn_put (frame [AUTH_NONE]) (endpoint (frame [OP_STATUS]))) =
      (Inr [OP_STATUS], conn_put (frame [AUTH_NONE]) (endpoint []))"
    using read_frame_at [of "[OP_STATUS]" "conn_put (frame [AUTH_NONE]) (endpoint (frame [OP_STATUS]))" "[]"]
    by (simp add: frame_ok_small)
  then show ?thesis
    by (simp add: accept_conn_def demo_cfg_def auth_server_def write_frame_unlimited frame_ok_small
        OP_STATUS_def OP_REVERSE_REGISTER_def Let_def server_new_def one_client_def peer_or_unknown_def
        peer_addr_def hm_insert_def hm_remove_def) (simp add: endpoint_def)
qed


section \<open>Reconnecting devices\<close>

lemma active_count_same:
  "distinct (map dev_key devs) \<Longrightarrow> x \<in> set devs \<Longrightarrow> dev_key x = (name, user) \<Longrightarrow> dv_active x \<Longrightarrow>
     (\<And>d. dv_active (g d)) \<Longrightarrow> active_count (update_first (is_device name user) g devs) = active_count devs"
  by (induction devs) (auto simp: active_count_def is_device_key image_iff)

text \<open>A device that reconnects while the server still counts its dead connection as active is
  refused when the limit is reached, although taking it back would leave the number of active
  devices as it is: its own stale record is counted against it.\<close>

lemma reconnect_refused_at_limit:
  assumes "dev_inv mx w" and "d \<in> set (rw_devices w)" and "dev_key d = (name, user)" and "dv_active d"
    and "0 < mx" and "active_count (rw_devices w) = mx"
  shows "register_device mx now name user c w = (Some (reply (reverse_err (max_msg mx)) c), w) \<and>
    active_count (update_first (is_device name user)
      (\<lambda>d. d\<lparr>dv_addr := r, dv_last_seen := now, dv_active := True, dv_conn := Some a\<rparr>) (rw_devices w)) = mx"
  using assms active_count_same [of "rw_devices w" d name user
      "\<lambda>d. d\<lparr>dv_addr := r, dv_last_seen := now, dv_active := True, dv_conn := Some a\<rparr>"]
  by (simp add: register_device_def dev_inv_def)

definition one_device :: "conn \<Rightarrow> rworld" where
  "one_device c = \<lparr>rw_devices = [demo_device [112] [117] 0], rw_conns = (\<lambda>_. c), rw_next = 1,
     rw_monitors = [(0, [112], [117])]\<rparr>"

lemma one_device_inv: "dev_inv mx (one_device c)"
  by (simp add: dev_inv_def one_device_def active_count_def)

lemma register_known:
  assumes "dev_inv mx w" and "d \<in> set (rw_devices w)" and "dev_key d = (name, user)"
    and "mx = 0 \<or> active_count (rw_devices w) < mx"
  shows "\<exists>g. register_device mx now name user c w =
      (None, w\<lparr>rw_devices := update_first (is_device name user) g (rw_devices w),
         rw_conns := (rw_conns w)(rw_next w := c), rw_next := rw_next w + 1,
         rw_monitors := rw_monitors w @ [(rw_next w, name, user)]\<rparr>) \<and>
      (\<forall>d. dev_key (g d) = dev_key d \<and> dv_active (g d) \<and> dv_conn (g d) = Some (rw_next w))"
proof -
  have "list_ex (is_device name user) (rw_devices w)"
    using assms(2,3) by (auto simp: list_ex_iff is_device_key)
  moreover have "\<not> (0 < mx \<and> mx \<le> active_count (rw_devices w))" using assms(4) by auto
  ultimately show ?thesis
    by (intro exI [of _ "\<lambda>d. d\<lparr>dv_addr := peer_or_unknown c, dv_last_seen := now, dv_active := True,
        dv_conn := Some (rw_next w)\<rparr>"]) (simp add: register_device_def Let_def dev_key_def)
qed

text \<open>A device's re-registration, as the other threads' action while a proxy waits for it.\<close>

definition reconnects :: "nat \<Rightarrow> int \<Rightarrow> rstr \<Rightarrow> rstr \<Rightarrow> conn \<Rightarrow> others" where
  "reconnects mx now name user c p w =
     (if p = Before_Offline then snd (register_device mx now name user c w) else w)"

lemma find_update_first:
  "find P xs = Some x \<Longrightarrow> P (g x) \<Longrightarrow> find P (update_first P g xs) = Some (g x)"
  by (induction xs) (auto split: if_splits)

lemma register_current:
  assumes "dev_inv mx w" and "d \<in> set (rw_devices w)" and "dev_key d = (name, user)"
    and "mx = 0 \<or> active_count (rw_devices w) < mx"
  shows "\<exists>d'. find (is_device name user) (rw_devices (snd (register_device mx now name user c w))) = Some d' \<and>
    dv_active d' \<and> dv_conn d' = Some (rw_next w) \<and>
    rw_conns (snd (register_device mx now name user c w)) (rw_next w) = c"
proof -
  from register_known [OF assms, of now c] obtain g where
    g: "register_device mx now name user c w =
      (None, w\<lparr>rw_devices := update_first (is_device name user) g (rw_devices w),
         rw_conns := (rw_conns w)(rw_next w := c), rw_next := rw_next w + 1,
         rw_monitors := rw_monitors w @ [(rw_next w, name, user)]\<rparr>)"
      "\<forall>d. dev_key (g d) = dev_key d \<and> dv_active (g d) \<and> dv_conn (g d) = Some (rw_next w)" by blast
  have "find (is_device name user) (rw_devices w) = Some d"
    unfolding is_device_fun using assms(1,2,3) by (intro find_unique) (auto simp: dev_inv_def)
  moreover have "is_device name user (g d)" using g(2) assms(3) by (simp add: is_device_key)
  ultimately show ?thesis using g find_update_first [of "is_device name user" "rw_devices w" d g] by simp
qed

lemma offline_current:
  assumes "find (is_device name user) (rw_devices w) = Some d"
  shows "find (is_device name user) (rw_devices (mark_device_offline now name user w)) =
    Some (d\<lparr>dv_active := False, dv_conn := None, dv_last_seen := now\<rparr>)"
  using assms find_SomeD [OF assms]
  by (simp add: mark_device_offline_def find_update_first is_device_def)

text \<open>A device that reconnects while a proxied request waits on its dead connection is marked
  offline by that request when it gives up: the new, healthy connection stays in the store and no
  record leads to it. The heartbeat of the dead connection compares connections first and leaves
  the reconnected device alone.\<close>

theorem stale_proxy_unseats_device:
  assumes "dev_inv mx w" and "routes w name user a" and "a < rw_next w"
    and "str_ok name" and "str_ok path"
    and "c_cap (rw_conns w a) = None" and "c_in (rw_conns w a) = []"
    and "mx = 0 \<or> active_count (rw_devices w) < mx"
    and "handle_reverse_proxy_ls (reconnects mx now2 name user fresh_conn) now
           (make_proxy_frame OP_REVERSE_PROXY_LS name path) (c, w) = (c', w')"
  shows "(\<exists>d. find (is_device name user) (rw_devices w') = Some d \<and> \<not> dv_active d \<and> dv_conn d = None) \<and>
    rw_conns w' (rw_next w) = fresh_conn \<and>
    (let v = snd (register_device mx now2 name user fresh_conn w)
     in rw_devices (snd (heartbeat now a name user v)) = rw_devices v)"
proof -
  let ?oth = "reconnects mx now2 name user fresh_conn" and ?q = "frame (req_fs OP_LS path)"
  from assms(2) obtain d where f: "find (\<lambda>d. dv_name d = name \<and> dv_active d) (rw_devices w) = Some d"
    and d: "dv_user d = user" "dv_conn d = Some a" by (auto simp: routes_def)
  with find_SomeD [OF f] have key: "d \<in> set (rw_devices w)" "dev_key d = (name, user)"
    by (auto simp: dev_key_def)
  have res: "resolve_proxy_target ?oth (make_proxy_frame OP_REVERSE_PROXY_LS name path) (c, w) =
      (Some (a, name, user, path), (c, w))"
    using resolve_routes_calm [OF assms(2,4,5)] by (simp add: reconnects_def)
  obtain e t where rd: "read_frame (conn_put ?q (rw_conns w a)) = (Inl e, t)"
    using assms(7) by (simp add: gen_read_frame_def read_exact_def)
  let ?w2 = "w\<lparr>rw_conns := (rw_conns w)(a := t)\<rparr>"
  have w': "w' = mark_device_offline now name user (snd (register_device mx now2 name user fresh_conn ?w2))"
    using assms(9) res rd send_proxy_ok [OF frame_ok_req_fs [OF str_ok_length [OF assms(5)]] assms(6)]
    by (simp add: handle_reverse_proxy_ls_def device_gone_def reconnects_def)
  have "dev_inv mx ?w2" "d \<in> set (rw_devices ?w2)" "mx = 0 \<or> active_count (rw_devices ?w2) < mx"
    using assms(1,8) key by simp_all
  from register_current [OF this(1,2) key(2) this(3), of now2 fresh_conn] obtain d' where
    r: "find (is_device name user) (rw_devices (snd (register_device mx now2 name user fresh_conn ?w2))) = Some d'"
      "rw_conns (snd (register_device mx now2 name user fresh_conn ?w2)) (rw_next w) = fresh_conn" by auto
  from offline_current [OF r(1), of now] w' r(2)
  have one: "(\<exists>d. find (is_device name user) (rw_devices w') = Some d \<and> \<not> dv_active d \<and> dv_conn d = None) \<and>
      rw_conns w' (rw_next w) = fresh_conn"
    by (simp add: mark_device_offline_def)
  from register_current [OF assms(1) key assms(8), of now2 fresh_conn] obtain d2 where
    "find (is_device name user) (rw_devices (snd (register_device mx now2 name user fresh_conn w))) = Some d2"
    "dv_conn d2 = Some (rw_next w)" by auto
  with assms(3) have "rw_devices (snd (heartbeat now a name user (snd (register_device mx now2 name user fresh_conn w))))
      = rw_devices (snd (register_device mx now2 name user fresh_conn w))"
    by (simp add: heartbeat_def Let_def split: prod.splits sum.splits)
  with one show ?thesis by (simp add: Let_def)
qed

theorem stale_proxy_unseats_device_witness:
  "\<exists>w'. snd (handle_reverse_proxy_ls (reconnects 0 9 [112] [117] (endpoint [1])) 10
      (make_proxy_frame OP_REVERSE_PROXY_LS [112] [47]) (endpoint [], one_device (endpoint []))) = w' \<and>
     rw_conns w' 1 = endpoint [1] \<and>
     (\<exists>d. find (is_device [112] [117]) (rw_devices w') = Some d \<and> dv_conn d = None)"
proof -
  let ?w = "one_device (endpoint [])"
  obtain c' w' where h: "handle_reverse_proxy_ls (reconnects 0 9 [112] [117] (endpoint [1])) 10
      (make_proxy_frame OP_REVERSE_PROXY_LS [112] [47]) (endpoint [], ?w) = (c', w')" by fastforce
  have "routes ?w [112] [117] 0" "(0 :: nat) < rw_next ?w" "rw_next ?w = 1"
    "c_cap (rw_conns ?w 0) = None" "c_in (rw_conns ?w 0) = []"
    by (simp_all add: routes_def one_device_def)
  moreover have "str_ok [112]" "str_ok [47]" by (simp_all add: str_ok_ascii)
  ultimately have "(\<exists>d. find (is_device [112] [117]) (rw_devices w') = Some d \<and> \<not> dv_active d \<and> dv_conn d = None) \<and>
    rw_conns w' 1 = endpoint [1]"
    using stale_proxy_unseats_device [OF one_device_inv _ _ _ _ _ _ _ h] by metis
  with h show ?thesis by auto
qed

section \<open>Status\<close>

lemma parse_peers_run:
  "\<forall>x \<in> set xs. str_ok x \<Longrightarrow> parse_peers (length xs) (concat (map str_field xs) @ rest) = xs"
  by (induction xs) (simp_all add: read_str_field)

lemma status_reply_fields:
  "status_reply cfg sv = [ST_OK] @ u32_to_be (cf_pid cfg) @ u32_to_be (of_nat (length (sv_connections sv))) @
     concat (map str_field (map snd (cf_conn_iter cfg (sv_connections sv))))"
  by (simp add: status_reply_def push_append comp_def)

lemma query_status_run:
  assumes "iter_law (cf_conn_iter cfg)" and "\<forall>p \<in> set (sv_connections sv). str_ok (snd p)"
    and "length (sv_connections sv) < 2 ^ 32" and "frame_ok (status_reply cfg sv)"
    and "c_cap c = None" and "c_in c = frame (status_reply cfg sv) @ rest"
  shows "query_server_status c =
    (Inr \<lparr>ss_pid = unat (cf_pid cfg), ss_connections = map snd (cf_conn_iter cfg (sv_connections sv))\<rparr>,
     conn_put (frame [50]) (c\<lparr>c_in := rest\<rparr>))"
proof -
  let ?r = "status_reply cfg sv" and ?ps = "map snd (cf_conn_iter cfg (sv_connections sv))"
  have w: "write_frame [50] c = (Inr (), conn_put (frame [50]) c)"
    using assms(5) by (simp add: write_frame_unlimited frame_ok_small)
  have rd: "read_frame (conn_put (frame [50]) c) = (Inr ?r, conn_put (frame [50]) (c\<lparr>c_in := rest\<rparr>))"
    using read_frame_at [OF assms(4), of "conn_put (frame [50]) c" rest] assms(6) by simp
  have "length ?r \<ge> 9" "?r ! 0 = ST_OK" by (simp_all add: status_reply_fields)
  moreover have "take 4 (drop 1 ?r) = u32_to_be (cf_pid cfg)"
    by (simp add: status_reply_fields)
  moreover have "take 4 (drop 5 ?r) = u32_to_be (of_nat (length (sv_connections sv)))"
    by (simp add: status_reply_fields drop_Cons')
  moreover have "drop 9 ?r = concat (map str_field ?ps)"
    by (simp add: status_reply_fields drop_Cons')
  moreover have "\<forall>x \<in> set ?ps. str_ok x" using assms(2) iter_set [OF assms(1)] by auto
  then have "parse_peers (length (sv_connections sv)) (concat (map str_field ?ps)) = ?ps"
    using parse_peers_run [of ?ps "[]"] iter_length [OF assms(1), of "sv_connections sv"] by simp
  moreover have "unat (of_nat (length (sv_connections sv)) :: u32) = length (sv_connections sv)"
    using assms(3) by (simp add: unat_u32)
  ultimately show ?thesis by (simp add: query_server_status_def w rd Let_def)
qed

text \<open>A status query returns the server's process id and exactly the addresses of the running
  clients, each as often as it is connected, when the reply fits in a frame.\<close>

theorem status_end_to_end:
  assumes "iter_law (cf_conn_iter cfg)" and "\<forall>p \<in> set (sv_connections sv). str_ok (snd p)"
    and "length (sv_connections sv) < 2 ^ 32" and "frame_ok (status_reply cfg sv)"
    and "fresh c" and "fresh (cl_conn cl)"
    and "query_server_status c = (r, c')"
    and "serve_frame sys cfg oth clk [OP_STATUS] (cl, sv) = Some (cl', sv')"
    and "c_in c = c_out (cl_conn cl') @ rest"
  shows "sv' = sv \<and> c_in c' = rest \<and> c_out c' = frame [OP_STATUS] \<and>
    (\<exists>st. r = Inr st \<and> ss_pid st = unat (cf_pid cfg) \<and>
       mset (ss_connections st) = mset (map snd (sv_connections sv)))"
proof -
  have "serve_frame sys cfg oth clk [OP_STATUS] (cl, sv) =
      Some (cl\<lparr>cl_conn := reply (status_reply cfg sv) (cl_conn cl)\<rparr>, sv)"
    by (simp add: serve_frame_def dispatch_basic_def OP_STATUS_def OP_GET_def OP_ALL_def OP_LS_def
        OP_GET_fs_def OP_SHELL_OPEN_def OP_EXEC_SCRIPT_def)
  with assms(8) have s: "sv' = sv" "cl_conn cl' = reply (status_reply cfg sv) (cl_conn cl)" by auto
  then have "c_out (cl_conn cl') = frame (status_reply cfg sv)"
    using assms(4,6) by (simp add: reply_def write_frame_unlimited fresh_def)
  with assms(9) have i: "c_in c = frame (status_reply cfg sv) @ rest" by simp
  have "c_cap c = None" "c_out c = []" using assms(5) by (simp_all add: fresh_def)
  with query_status_run [OF assms(1-4) _ i] assms(7) s
  show ?thesis using assms(1) by (auto simp: OP_STATUS_def iter_law_def)
qed

theorem status_end_to_end_witness:
  "\<exists>c st. fst (query_server_status c) = Inr st \<and> ss_pid st = 7 \<and> ss_connections st = [[49]]"
proof -
  define sv where "sv = (server_new undefined)\<lparr>sv_connections := [(0, [49])]\<rparr>"
  let ?cfg = "demo_cfg 3" and ?sys = "undefined :: unit system"
  define cl where "cl = \<lparr>cl_id = 0, cl_conn = endpoint [], cl_target = None, cl_pending = None, cl_hung = False\<rparr>"
  have f: "frame_ok (status_reply ?cfg sv)"
    by (rule frame_ok_small) (simp add: status_reply_fields sv_def demo_cfg_def)
  obtain cl' sv' where s: "serve_frame ?sys ?cfg alone (0, 0) [OP_STATUS] (cl, sv) = Some (cl', sv')"
    by (simp add: serve_frame_def dispatch_basic_def OP_STATUS_def OP_GET_def OP_ALL_def OP_LS_def
        OP_GET_fs_def OP_SHELL_OPEN_def OP_EXEC_SCRIPT_def)
  define c where "c = endpoint (c_out (cl_conn cl'))"
  obtain r c' where q: "query_server_status c = (r, c')" by fastforce
  have "iter_law (cf_conn_iter ?cfg)" by (simp add: demo_cfg_def iter_law_rev)
  moreover have "\<forall>p \<in> set (sv_connections sv). str_ok (snd p)" "length (sv_connections sv) < 2 ^ 32"
    by (simp_all add: sv_def str_ok_ascii)
  moreover have "fresh c" "fresh (cl_conn cl)" "c_in c = c_out (cl_conn cl') @ []"
    by (simp_all add: c_def cl_def)
  ultimately obtain st where "r = Inr st" "ss_pid st = unat (cf_pid ?cfg)"
      "mset (ss_connections st) = mset (map snd (sv_connections sv))"
    using status_end_to_end [OF _ _ _ f _ _ q s] by blast
  moreover from this(3) have "ss_connections st = [[49]]" by (simp add: sv_def)
  ultimately show ?thesis using q
    by (intro exI [of _ c] exI [of _ st]) (simp add: demo_cfg_def)
qed

end
