(* ===== verification/Server_Progress.thy ===== *)
theory Server_Progress
  imports Server_Spec
begin

text \<open>
  Progress of a client thread: no handler puts anything back on the connection it reads from, so
  every round of the thread's loop uses up a frame of the client's input; a thread whose client
  has stopped sending ends after at most that many rounds, whatever the other threads do.
\<close>

section \<open>The handlers leave the client's input alone\<close>

lemma reply_c_in [simp]: "c_in (reply f c) = c_in c"
  by (simp add: reply_def)

lemma resolve_c_in: "resolve_proxy_target oth f (c, w) = (r, (c', w')) \<Longrightarrow> c_in c' = c_in c"
  by (auto simp: resolve_proxy_target_def Let_def split: option.splits)

lemma send_proxy_c_in:
  "send_proxy_request oth now a n u f (c, w) = (b, (c', w')) \<Longrightarrow> c_in c' = c_in c"
  by (auto simp: send_proxy_request_def device_gone_def split: prod.splits sum.splits)

lemma proxy_copy_c_in: "proxy_copy rc c = (b, (rc', c')) \<Longrightarrow> c_in c' = c_in c"
proof (induction rc c arbitrary: b rc' c' rule: proxy_copy.induct)
  case (1 rc c)
  obtain r rc1 where r: "read_frame rc = (r, rc1)" by fastforce
  show ?case
  proof (cases r)
    case (Inl e)
    with r 1(2) show ?thesis by (subst (asm) proxy_copy.simps) auto
  next
    case (Inr f)
    obtain q c1 where q: "write_frame f c = (q, c1)" by fastforce
    have "proxy_copy rc c = (case q of
        Inl _ \<Rightarrow> (False, rc1, c1)
      | Inr _ \<Rightarrow> if f = [] then (False, rc1, c1) else proxy_copy rc1 c1)"
      using r Inr q by (subst proxy_copy.simps) (simp split: sum.splits)
    with 1(2) 1(1) [OF r [symmetric] Inr q [symmetric]] write_frame_keeps_in [OF q] show ?thesis
      by (cases q) (auto split: if_splits)
  qed
qed

lemma proxy_ls_c_in: "handle_reverse_proxy_ls oth now f (c, w) = (c', w') \<Longrightarrow> c_in c' = c_in c"
  by (auto simp: handle_reverse_proxy_ls_def device_gone_def
      split: prod.splits option.splits bool.splits sum.splits dest!: resolve_c_in send_proxy_c_in)

lemma proxy_get_c_in: "handle_reverse_proxy_get oth now f (c, w) = (c', w') \<Longrightarrow> c_in c' = c_in c"
  by (auto simp: handle_reverse_proxy_get_def device_gone_def Let_def
      split: prod.splits option.splits bool.splits sum.splits if_splits
      dest!: resolve_c_in send_proxy_c_in proxy_copy_c_in write_frame_keeps_in)

lemma dispatch_fs_c_in:
  "dispatch_fs oth fs now f ((c, w), t) = ((c', w'), t') \<Longrightarrow> c_in c' = c_in c"
  by (auto simp: dispatch_fs_def Let_def split: prod.splits option.splits if_splits sum.splits
      dest!: proxy_ls_c_in proxy_get_c_in)

lemma set_target_c_in: "handle_set_target f devs (c, t) = (c', t') \<Longrightarrow> c_in c' = c_in c"
  by (auto simp: handle_set_target_def Let_def split: option.splits prod.splits if_splits)

lemma exec_keeps_in: "snd (handle_exec_script x f (st, c)) = (st', c') \<Longrightarrow> c_in c' = c_in c"
  using handle_exec_c_in [of x f st c] by simp

section \<open>Every round uses up input\<close>

definition pending_work :: "client \<Rightarrow> nat" where
  "pending_work cl = length (c_in (cl_conn cl)) + (if cl_pending cl = None then 0 else 1)"

lemma dispatch_basic_c_in:
  "dispatch_basic sys cfg oth clk f (cl, sv) = Some (b, (cl', sv')) \<Longrightarrow>
     length (c_in (cl_conn cl')) \<le> length (c_in (cl_conn cl)) \<and> cl_pending cl' = cl_pending cl"
  by (auto simp: dispatch_basic_def split: if_splits prod.splits option.splits
      dest!: dispatch_fs_c_in handle_shell_c_in exec_keeps_in)

lemma serve_frame_c_in:
  "serve_frame sys cfg oth clk f (cl, sv) = Some (cl', sv') \<Longrightarrow>
     length (c_in (cl_conn cl')) \<le> length (c_in (cl_conn cl)) \<and> cl_pending cl' = cl_pending cl"
  by (auto simp: serve_frame_def Let_def handle_reverse_list_def handle_device_list_def
      split: if_splits option.splits prod.splits bool.splits
      dest!: dispatch_basic_c_in proxy_ls_c_in proxy_get_c_in set_target_c_in)

lemma client_step_progress:
  assumes "client_step sys cfg oth clk cl sv = (Goes_On cl', sv')"
  shows "pending_work cl' < pending_work cl"
proof (cases "cl_pending cl")
  case None
  with assms show ?thesis
    by (auto simp: client_step_def pending_work_def split: prod.splits sum.splits option.splits
        dest!: serve_frame_c_in read_frame_shrinks)
next
  case (Some f)
  with assms show ?thesis
    by (auto simp: client_step_def pending_work_def split: option.splits prod.splits
        dest!: serve_frame_c_in)
qed

lemma hm_gone: "(k, v) \<notin> set (hm_remove k m)"
  by (metis hm_remove_keys Diff_iff fst_conv image_eqI singletonI)



end
