(* ===== verification/Shell_Spec.thy ===== *)
theory Shell_Spec
  imports Client_Spec Exec_Spec Auth_Spec
begin

text \<open>
  The remote shell with both its ends: the client's terminal loop (\<open>remote_shell_interactive\<close>) and
  the server's handler (\<open>handle_shell_open\<close>) on the two ends of one connection.
\<close>

section \<open>The client's reader\<close>

lemma shell_reader_run:
  "\<forall>d \<in> set ds. frame_ok d \<Longrightarrow> c_in c = concat (map frame ds) \<Longrightarrow>
     shell_reader c h = (c\<lparr>c_in := []\<rparr>, h\<lparr>h_out := h_out h @ concat ds\<rparr>)"
proof (induction ds arbitrary: c h)
  case Nil
  then show ?case
    by (subst shell_reader.simps) (simp add: gen_read_frame_def read_exact_def)
next
  case (Cons d ds)
  have r: "read_frame c = (Inr d, c\<lparr>c_in := concat (map frame ds)\<rparr>)"
    using Cons.prems by (intro read_frame_at) simp_all
  with Cons.IH [of "c\<lparr>c_in := concat (map frame ds)\<rparr>" "put_out d h"] Cons.prems(1) show ?case
    by (subst shell_reader.simps) (simp add: put_out_def)
qed

section \<open>What an event does to the remote terminal\<close>

definition apply_event :: "'p pty_sys \<Rightarrow> term_event \<Rightarrow> 'p \<Rightarrow> 'p" where
  "apply_event y ev p =
     (case ev of
        KeyEv key \<Rightarrow>
          if key_to_bytes key = [] then p else snd (y_flush y (snd (y_write y (key_to_bytes key) p)))
      | Resize cols rows \<Rightarrow> snd (y_resize y (pty_size rows cols) p)
      | OtherEv \<Rightarrow> p)"

text \<open>An event that neither closes the session nor is taken for a resize.\<close>

definition passes :: "term_event \<Rightarrow> bool" where
  "passes ev \<longleftrightarrow> \<not> closes ev \<and> frame_ok (event_frame ev) \<and>
     (\<forall>key. ev = KeyEv key \<longrightarrow> key_to_bytes key \<noteq> [] \<longrightarrow> key_to_bytes key ! 0 \<noteq> OP_RESIZE)"

lemma parse_size_frame [simp]: "parse_size (t # u16_to_be cols @ u16_to_be rows) = Inr (cols, rows)"
proof -
  have two: "\<exists>x y. l = [x, y]" if "length l = 2" for l :: bytes
    using that by (cases l; cases "tl l") auto
  have "\<exists>x y. u16_to_be v = [x, y]" for v by (rule two) simp
  then obtain x y u v where xs: "u16_to_be cols = [x, y]" "u16_to_be rows = [u, v]" by blast
  then show ?thesis
    using of_be_to_be(1) [of cols] of_be_to_be(1) [of rows] by (simp add: parse_size_def)
qed

lemma feed_events:
  "\<forall>ev \<in> set evs. passes ev \<Longrightarrow>
     fold (feed y) (filter (\<lambda>f. f \<noteq> []) (map event_frame evs)) p = fold (apply_event y) evs p"
proof (induction evs arbitrary: p)
  case (Cons ev evs)
  then have "passes ev" by simp
  then have "event_frame ev \<noteq> [] \<Longrightarrow> feed y (event_frame ev) p = apply_event y ev p"
    "event_frame ev = [] \<Longrightarrow> apply_event y ev p = p"
    by (cases ev; simp add: passes_def feed_def apply_event_def OP_RESIZE_def)+
  with Cons show ?case by simp
qed simp

section \<open>Both ends\<close>

lemma client_shell_run:
  fixes win :: "(u16 \<times> u16) option"
  defines "dims \<equiv> (case win of Some cr \<Rightarrow> cr | None \<Rightarrow> (80, 24))"
  assumes "h_raw h = Inr ()" and "h_events h = map Inr evs @ Inr stop # later" and "\<forall>ev \<in> set evs. passes ev"
    and "closes stop" and "fresh c" and "c_in c = concat (map frame ds)" and "\<forall>d \<in> set ds. frame_ok d"
    and "c_clone c = None"
  shows "remote_shell_interactive win (h, c) =
    (Inr (), (h\<lparr>h_is_raw := False, h_events := later, h_out := h_out h @ concat ds\<rparr>,
      conn_put (frame (OP_SHELL_OPEN # u16_to_be (fst dims) @ u16_to_be (snd dims)) @
        concat (map frame (filter (\<lambda>f. f \<noteq> []) (map event_frame evs))) @ frame []) (c\<lparr>c_in := []\<rparr>)))"
proof -
  let ?f = "OP_SHELL_OPEN # u16_to_be (fst dims) @ u16_to_be (snd dims)"
  let ?k = "concat (map frame (filter (\<lambda>f. f \<noteq> []) (map event_frame evs)))"
  have cap: "c_cap c = None" using assms(6) by (simp add: fresh_def)
  have put: "conn_put b (conn_put a x) = conn_put (a @ b) x" if "c_cap x = None" for a b x
    using that by (simp add: conn_put_def)
  have w: "write_frame ?f c = (Inr (), conn_put (frame ?f) c)"
    by (rule write_frame_unlimited) (simp_all add: frame_ok_small cap)
  have ev: "\<forall>ev \<in> set evs. \<not> closes ev \<and> frame_ok (event_frame ev)"
    using assms(4) by (simp add: passes_def)
  have e: "shell_events (h_events h) (conn_put (frame ?f) c) = (Inr (), later, conn_put (frame ?f @ ?k) c)"
    using shell_events_sent [OF ev assms(5), of "conn_put (frame ?f) c" later] assms(3) cap put by simp
  have z: "write_frame [] (conn_put (frame ?f @ ?k) c) = (Inr (), conn_put (frame ?f @ ?k @ frame []) c)"
    using write_frame_unlimited [of "[]" "conn_put (frame ?f @ ?k) c"] cap put by simp
  let ?h = "h\<lparr>h_is_raw := True\<rparr>"
  have "shell_reader (conn_put (frame ?f @ ?k @ frame []) c) (?h\<lparr>h_events := later\<rparr>) =
      (conn_put (frame ?f @ ?k @ frame []) (c\<lparr>c_in := []\<rparr>), ?h\<lparr>h_events := later, h_out := h_out h @ concat ds\<rparr>)"
    using shell_reader_run [OF assms(8), of "conn_put (frame ?f @ ?k @ frame []) c" "?h\<lparr>h_events := later\<rparr>"] assms(7)
    by simp
  with w e z assms(2,9) show ?thesis
    unfolding remote_shell_interactive_def dims_def [symmetric]
    by (simp add: case_prod_beta' Let_def raw_mode_new_def raw_mode_drop_def try_clone_def)
qed


definition typed :: "rstr \<Rightarrow> term_event" where
  "typed ch = KeyEv \<lparr>k_code = KChar ch, k_kind = Press, k_ctrl = False, k_alt = False\<rparr>"

definition leave :: term_event where
  "leave = KeyEv \<lparr>k_code = KChar [93], k_kind = Press, k_ctrl = True, k_alt = False\<rparr>"


end
