(* ===== verification/Strings_Spec.thy ===== *)
theory Strings_Spec
  imports Server_Spec Server_Cmd
begin

text \<open>
  Strings. A value of Rust's \<^theory_text>\<open>String\<close> is valid UTF-8; in the model it is a list of bytes, and this
  theory shows that the strings the server keeps are values of that type: what it reads from the
  wire is decoded before it is stored, and what it compares or sends on is what it stored. The
  decoding may lengthen a string, which the encoders' 16-bit length fields do not foresee.
\<close>

section \<open>Decoded strings\<close>

lemma length_lossy: "length (lossy s) \<le> 3 * length s"
proof (induction s rule: lossy.induct)
  case (1 s)
  show ?case
  proof (cases "s = []")
    case False
    obtain n ok where st: "utf8_step s = (n, ok)" by (cases "utf8_step s")
    from utf8_step_bounds [OF st] False have n: "1 \<le> n" "n \<le> length s" by simp_all
    have "length (if ok then take n s else replacement) \<le> 3 * n"
      using n by (simp add: replacement_def)
    moreover have "length (lossy (drop n s)) \<le> 3 * (length s - n)" using 1 [OF False] st by simp
    moreover have "lossy s = (if ok then take n s else replacement) @ lossy (drop n s)"
      using st False by (subst lossy.simps) simp
    moreover have "3 * n + 3 * (length s - n) = 3 * length s" using n(2) by simp
    ultimately show ?thesis using n by (metis add_mono length_append)
  qed simp
qed

text \<open>A string as the wire delivers it: decoded from a field of at most 65535 bytes.\<close>

definition wire_string :: "rstr \<Rightarrow> bool" where
  "wire_string s \<longleftrightarrow> utf8_valid s \<and> length s \<le> 3 * 65535"

lemma wire_string_lossy: "length s < 65536 \<Longrightarrow> wire_string (lossy s)"
  using length_lossy [of s] by (simp add: wire_string_def utf8_valid_lossy)

lemma u16_less: "unat (x :: u16) < 65536"
  using unsigned_less [of x] by simp

lemma parse_two_strings_valid:
  "parse_two_strings data = Some (a, b) \<Longrightarrow> wire_string a \<and> wire_string b"
  by (auto simp: parse_two_strings_def Let_def split: if_splits
      intro!: wire_string_lossy order.strict_trans1 [OF _ u16_less])

lemma wire_string_ascii:
  "\<forall>b \<in> set s. b < 0x80 \<Longrightarrow> length s \<le> 65535 \<Longrightarrow> wire_string s"
  by (simp add: wire_string_def utf8_valid_ascii)

section \<open>The device list\<close>

definition named_world :: "rworld \<Rightarrow> bool" where
  "named_world w \<longleftrightarrow> (\<forall>d \<in> set (rw_devices w). wire_string (dv_name d) \<and> wire_string (dv_user d))"

lemma named_update:
  "named_world w \<Longrightarrow> (\<And>d. dv_name (g d) = dv_name d \<and> dv_user (g d) = dv_user d) \<Longrightarrow>
     named_world (w\<lparr>rw_devices := update_first P g (rw_devices w)\<rparr>)"
  by (auto simp: named_world_def dest!: update_first_set)

lemma named_offline: "named_world w \<Longrightarrow> named_world (mark_device_offline now name user w)"
  unfolding mark_device_offline_def by (rule named_update) simp_all

interpretation named: world_law named_world
  by unfold_locales (simp add: named_world_def, rule named_offline)

lemma named_register:
  assumes "named_world w" and "wire_string name" and "wire_string user"
  shows "named_world (snd (register_device mx now name user c w))"
proof -
  have "named_world (v\<lparr>rw_conns := x, rw_next := y, rw_monitors := z\<rparr>) = named_world v" for v x y z
    by (simp add: named_world_def)
  moreover have "named_world (w\<lparr>rw_devices := update_first P
      (\<lambda>d. d\<lparr>dv_addr := r, dv_last_seen := now, dv_active := True, dv_conn := Some a\<rparr>) (rw_devices w)\<rparr>)" for P r a
    using assms(1) by (rule named_update) simp
  ultimately show ?thesis using assms
    by (simp add: register_device_def Let_def) (auto simp: named_world_def)
qed

lemma named_monitors [simp]: "named_world (w\<lparr>rw_monitors := x\<rparr>) = named_world w"
  by (simp add: named_world_def)

lemma named_monitor: "named_world w \<Longrightarrow> named_world (monitor_turn now m w)"
  by (auto simp: monitor_turn_def heartbeat_def Let_def intro!: named_offline split: prod.splits sum.splits)

section \<open>The whole server\<close>

definition target_named :: "(rstr \<times> rstr) option \<Rightarrow> bool" where
  "target_named t \<longleftrightarrow> (case t of None \<Rightarrow> True | Some (name, user) \<Rightarrow> wire_string name \<and> wire_string user)"

lemma default_target_named: "named_world w \<Longrightarrow> target_named (Some (default_target (rw_devices w)))"
  by (auto simp: target_named_def default_target_def named_world_def server_name_def lit_def
      wire_string_ascii find_Some_iff split: option.splits)

lemma set_target_named:
  "target_named t \<Longrightarrow> target_named (snd (handle_set_target f devs (c, t)))"
  by (auto simp: handle_set_target_def target_named_def Let_def dest: parse_two_strings_valid split: option.splits)

lemma dispatch_fs_named:
  "named_world w \<Longrightarrow> target_named t \<Longrightarrow> target_named (snd (dispatch_fs oth fs now f ((c, w), t)))"
  using default_target_named [of w] by (auto simp: dispatch_fs_def Let_def split: option.splits prod.splits)

lemma client_step_named:
  assumes "named_world (sv_world sv)" and "target_named (cl_target cl)"
    and "client_step sys cfg oth clk cl sv = (Goes_On cl', sv')"
  shows "target_named (cl_target cl')"
proof -
  obtain r c where rc: "(case cl_pending cl of Some f \<Rightarrow> (Inr f, cl_conn cl) | None \<Rightarrow> read_frame (cl_conn cl)) = (r, c)"
    by fastforce
  have fs: "target_named (snd (dispatch_fs oth (sy_fs sys) (fst clk) f ((c, sv_world sv), cl_target cl)))"
    and st: "target_named (snd (handle_set_target f devs (c, cl_target cl)))" for f devs
    using assms(1,2) by (auto intro: dispatch_fs_named set_target_named)
  have d: "target_named t" if "dispatch_fs oth (sy_fs sys) (fst clk) f ((c, sv_world sv), cl_target cl) = (x, t)" for f x t
    using fs [of f] that by simp
  have s: "target_named t" if "handle_set_target f devs (c, cl_target cl) = (x, t)" for f devs x t
    using st [of f devs] that by simp
  show ?thesis using assms(2,3) rc d s
    by (auto simp: client_step_def serve_frame_def dispatch_basic_def Let_def
        split: sum.splits option.splits if_splits prod.splits)
qed


definition strings_inv :: "server \<Rightarrow> bool" where
  "strings_inv sv \<longleftrightarrow> dict_inv (sv_dict sv) \<and> named_world (sv_world sv) \<and>
     (\<forall>cl \<in> set (sv_clients sv). target_named (cl_target cl))"

lemma accept_strings:
  assumes "strings_inv sv" shows "strings_inv (snd (accept_conn sha cfg nonce now c sv))"
proof -
  have reg: "named_world w" if "parse_reverse_registration f = Some (name, user)"
    "register_device mx now name user d (sv_world sv) = (r, w)" for f name user mx d r w
    using assms that parse_two_strings_valid named_register [of "sv_world sv" name user mx now d]
    by (auto simp: strings_inv_def parse_reverse_registration_def)
  with assms show ?thesis
    by (auto simp: accept_conn_def strings_inv_def target_named_def Let_def
        split: sum.splits prod.splits option.splits)
qed

lemma step_strings:
  assumes inv: "strings_inv sv" and it: "iter_law (cf_iter cfg)" and step: "sv_step sys cfg named_world sv sv'"
  shows "strings_inv sv'"
  using step
proof (cases rule: sv_step.cases)
  case (accepts nonce now c)
  with accept_strings [OF inv] show ?thesis by simp
next
  case (serves xs cl ys oth clk cl' sv1)
  have i: "dict_inv (sv_dict sv)" "named_world (sv_world sv)" "target_named (cl_target cl)"
    using inv serves(2) by (simp_all add: strings_inv_def)
  from named.client_step_ok [OF serves(4) it i(1,2) serves(5)] client_step_named [OF i(2,3) serves(5)] inv serves(2)
  show ?thesis unfolding serves(1) by (auto simp: strings_inv_def set_clients_def)
next
  case (finishes xs cl ys oth clk sv1)
  from client_step_stops(1) [OF finishes(4)] inv finishes(2)
  show ?thesis unfolding finishes(1) by (auto simp: strings_inv_def set_clients_def)
next
  case (hangs xs cl ys oth clk sv1)
  from client_step_stops(2) [OF hangs(4)] inv hangs(2)
  show ?thesis unfolding hangs(1) by (auto simp: strings_inv_def set_clients_def)
next
  case (beats m now)
  with inv named_monitor show ?thesis by (simp add: strings_inv_def)
qed

lemma reaches_strings:
  "reaches sys cfg named_world st n sv \<Longrightarrow> iter_law (cf_iter cfg) \<Longrightarrow> strings_inv sv"
proof (induction rule: reaches.induct)
  case initially
  show ?case by (simp add: strings_inv_def server_new_def dict_inv_new named_world_def)
next
  case (after n sv sv')
  then show ?case using step_strings by blast
qed


text \<open>A device whose name is not UTF-8 registers.\<close>

definition odd_name :: bytes where "odd_name = [255, 97]"

lemma odd_name_lossy: "lossy odd_name = [0xEF, 0xBF, 0xBD, 97]"
  by (simp add: odd_name_def lossy.simps utf8_step.simps utf8_width_def replacement_def)

definition odd_device :: conn where
  "odd_device = endpoint (frame (OP_REVERSE_REGISTER # str_field odd_name @ str_field [97]))"

lemma odd_accept:
  "\<exists>d. dv_name d = lossy odd_name \<and>
     rw_devices (sv_world (snd (accept_conn sha (demo_cfg 3) nonce now odd_device (server_new st)))) = [d]"
proof -
  let ?f = "OP_REVERSE_REGISTER # str_field odd_name @ str_field [97]"
  have l: "length odd_name < 65536" "lossy [97] = [97]"
    by (simp_all add: odd_name_def lossy_valid utf8_valid_ascii)
  have "frame_ok ?f" by (rule frame_ok_small) (simp add: str_field_def odd_name_def)
  then have r: "read_frame (conn_put (frame [AUTH_NONE]) odd_device) = (Inr ?f, conn_put (frame [AUTH_NONE]) (endpoint []))"
    using read_frame_at [of ?f "conn_put (frame [AUTH_NONE]) odd_device" "[]"]
    by (simp add: odd_device_def)
  have "parse_reverse_registration ?f = Some (lossy odd_name, [97])"
    using parse_two_lossy [OF l(1), of "[97]" OP_REVERSE_REGISTER "[]"] l(2)
    by (simp add: parse_reverse_registration_def)
  with r show ?thesis
    by (simp add: accept_conn_def demo_cfg_def auth_server_def write_frame_unlimited frame_ok_small odd_device_def
        register_device_def server_new_def active_count_def Let_def)
qed


section \<open>Names that outgrow their length field\<close>

lemma lossy_invalid: "lossy (replicate k 255) = concat (replicate k replacement)"
  by (induction k) (simp, subst lossy.simps, simp add: utf8_step.simps utf8_width_def)

lemma length_lossy_invalid: "length (lossy (replicate k 255)) = 3 * k"
  unfolding lossy_invalid by (induction k) (simp_all add: replacement_def)

text \<open>A device may register under a name of \<open>k\<close> bytes that are not UTF-8. The name stored has \<open>3 k\<close>
  bytes, and when that is more than 65535 the length field of the lists that carry it wraps: the
  reader of such a list takes a prefix of the name for the name, and the rest of it for what
  follows in the list.\<close>

theorem long_name_misread:
  assumes "21846 \<le> k" and "k < 32768" and "str_ok user"
  defines "name \<equiv> lossy (replicate k 255)"
  shows "parse_reverse_registration (OP_REVERSE_REGISTER # str_field (replicate k 255) @ str_field user) =
      Some (name, user) \<and> length name = 3 * k \<and>
    (\<exists>names. parse_names (str_field name @ rest) =
       lossy (take (3 * k - 65536) name) # names) \<and> lossy (take (3 * k - 65536) name) \<noteq> name"
proof -
  have len: "length name = 3 * k" by (simp add: name_def length_lossy_invalid)
  have p: "parse_reverse_registration (OP_REVERSE_REGISTER # str_field (replicate k 255) @ str_field user) = Some (name, user)"
    using parse_two_lossy [of "replicate k 255" user OP_REVERSE_REGISTER "[]"] assms(2,3)
    by (simp add: parse_reverse_registration_def name_def str_ok_def lossy_valid)
  have "unat (of_nat (3 * k) :: u16) = 3 * k - 65536"
    using assms(1,2) by (simp only: unat_of_nat) (simp add: mod_if)
  then have r: "read_str (str_field name @ rest) = Some (lossy (take (3 * k - 65536) name), drop (3 * k - 65536) name @ rest)"
    using len assms(1) by (simp add: read_str_def str_field_def Let_def)
  have "length (lossy (take (3 * k - 65536) name)) \<le> 3 * (3 * k - 65536)"
    using length_lossy [of "take (3 * k - 65536) name"] len by simp
  also have "\<dots> < length name" using assms(1,2) len by simp
  finally have "lossy (take (3 * k - 65536) name) \<noteq> name" by auto
  then show ?thesis using p r len
    by (subst parse_names.simps) simp
qed

end
