(* ===== verification/Tcp_Spec.thy ===== *)
theory Tcp_Spec
  imports Tcp
begin

text \<open>
  TCP sockets refine the endpoints the rest of the development uses: \<open>stream_refinement\<close> is the
  contract, one commuting diagram per primitive, under which the frame codec cannot tell the two
  apart; \<open>socket\<close> interprets it on the library's loops over fragmented reads and partial writes.
\<close>

section \<open>Refinement of byte streams\<close>

locale stream_refinement =
  fixes rd :: "nat \<Rightarrow> 's \<Rightarrow> bytes io \<times> 's"
    and wr :: "bytes \<Rightarrow> 's \<Rightarrow> unit io \<times> 's"
    and rd_spec :: "nat \<Rightarrow> 't \<Rightarrow> bytes io \<times> 't"
    and wr_spec :: "bytes \<Rightarrow> 't \<Rightarrow> unit io \<times> 't"
    and abs :: "'s \<Rightarrow> 't"
  assumes rd_sim: "rd n s = (r, s') \<Longrightarrow> rd_spec n (abs s) = (r, abs s')"
    and wr_sim: "wr d s = (q, s') \<Longrightarrow> wr_spec d (abs s) = (q, abs s')"
begin

lemma read_frame_sim:
  "gen_read_frame rd s = (r, s') \<Longrightarrow> gen_read_frame rd_spec (abs s) = (r, abs s')"
  by (auto simp: gen_read_frame_def try_io_def Let_def split: prod.splits sum.splits if_splits
      dest!: rd_sim)

lemma write_frame_sim:
  "gen_write_frame wr f s = (r, s') \<Longrightarrow> gen_write_frame wr_spec f (abs s) = (r, abs s')"
  by (auto simp: gen_write_frame_def try_io_def split: prod.splits sum.splits if_splits
      dest!: wr_sim)

end

section \<open>The library's loops\<close>

lemma sock_conn_simps [simp]:
  "c_in (sock_conn s) = s_input s" "c_out (sock_conn s) = s_out s" "c_cap (sock_conn s) = s_cap s"
  "c_werr (sock_conn s) = s_werr s"
  by (simp_all add: sock_conn_def)

lemma sock_conn_same [simp]:
  "(sock_conn s)\<lparr>c_in := s_input s\<rparr> = sock_conn s"
  "(sock_conn s)\<lparr>c_out := s_out s\<rparr> = sock_conn s"
  "s_cap s = Some k \<Longrightarrow> (sock_conn s)\<lparr>c_out := s_out s, c_cap := Some k\<rparr> = sock_conn s"
  by (simp_all add: sock_conn_def)

lemma tcp_loops_Nil [simp]: "tcp_read_exact 0 s = (Inr [], s)" "tcp_write_all [] s = (Inr (), s)"
  by (simp_all add: tcp_read_exact.simps tcp_write_all.simps)

lemma tcp_read_exact_sim:
  "tcp_read_exact n s = (r, s') \<Longrightarrow> read_exact n (sock_conn s) = (r, sock_conn s')"
proof (induction n s arbitrary: r s' rule: tcp_read_exact.induct)
  case (1 n s)
  show ?case
  proof (cases "n = 0")
    case True
    with 1(2) show ?thesis by (auto simp: read_exact_def)
  next
    case False
    obtain q t where rd: "tcp_read n s = (q, t)" by fastforce
    show ?thesis
    proof (cases q)
      case (Inl e)
      with tcp_read_input [OF rd] 1(2) False rd show ?thesis
        by (simp add: tcp_read_exact.simps [of n] read_exact_def)
          (simp add: sock_conn_def)
    next
      case (Inr d)
      with tcp_read_input [OF rd] have i: "s_input s = d @ s_input t" "length d \<le> n"
        and z: "d = [] \<Longrightarrow> s_input s = [] \<and> s_fin s = None"
        and t: "sock_conn t = (sock_conn s)\<lparr>c_in := s_input t\<rparr>"
        using False by auto
      show ?thesis
      proof (cases "d = []")
        case True
        with 1(2) rd Inr False i z t show ?thesis
          by (simp add: tcp_read_exact.simps [of n] read_exact_def)
            (simp add: sock_conn_def)
      next
        case nonempty: False
        obtain q2 t2 where r2: "tcp_read_exact (n - length d) t = (q2, t2)" by fastforce
        from 1(1) [OF False rd [symmetric] Inr nonempty r2] i t 1(2) rd Inr False nonempty r2
        show ?thesis
          by (cases q2) (auto simp: tcp_read_exact.simps [of n] read_exact_def split: if_splits)
      qed
    qed
  qed
qed

lemma tcp_write_all_sim:
  "tcp_write_all d s = (r, s') \<Longrightarrow> write_all d (sock_conn s) = (r, sock_conn s')"
proof (induction d s arbitrary: r s' rule: tcp_write_all.induct)
  case (1 d s)
  show ?case
  proof (cases "d = []")
    case True
    with 1(2) show ?thesis
      by (cases "s_cap s") (auto simp: write_all_def)
  next
    case False
    obtain q t where w: "tcp_write d s = (q, t)" by fastforce
    show ?thesis
    proof (cases q)
      case (Inl e)
      with w False have "s_cap s = Some 0" "e = s_werr s" "t = s"
        by (auto simp: tcp_write_def Let_def min_def split: option.splits list.splits if_splits)
      with Inl w False 1(2) show ?thesis
        by (auto simp: tcp_write_all.simps [of d] write_all_def)
    next
      case (Inr m)
      with w False have m: "m \<noteq> 0" "m \<le> length d"
        and cap: "\<And>c. s_cap s = Some c \<Longrightarrow> m \<le> c"
        and t: "sock_conn t = conn_put (take m d) (sock_conn s)"
        by (auto simp: tcp_write_def sock_conn_def conn_put_def s_input_def Let_def
            split: option.splits list.splits if_splits)
      with False w Inr 1(2) have "tcp_write_all (drop m d) t = (r, s')"
        by (simp add: tcp_write_all.simps [of d])
      from 1(1) [OF False w [symmetric] Inr m(1) this]
      have "write_all (drop m d) (conn_put (take m d) (sock_conn s)) = (r, sock_conn s')"
        unfolding t .
      then show ?thesis using m(2) cap
        by (cases "s_cap s") (auto simp: write_all_def conn_put_def min_def take_add [symmetric]
            sock_conn_def split: if_splits)
    qed
  qed
qed

interpretation socket: stream_refinement tcp_read_exact tcp_write_all read_exact write_all sock_conn
  by unfold_locales (rule tcp_read_exact_sim tcp_write_all_sim, assumption)+

section \<open>The transport\<close>

lemma accepts_of_step:
  "accepts_of l = (case tcp_accept l of None \<Rightarrow> [] | Some (r, l) \<Rightarrow> map_sum id sock_conn r # accepts_of l)"
  by (rule accepts_of.simps)

lemma accept_sim:
  "server_accept \<lparr>l_queue = accepts_of l\<rparr> =
     map_option (\<lambda>(r, l). (map_sum id sock_conn r, \<lparr>l_queue = accepts_of l\<rparr>)) (tcp_accept l)"
  by (subst accepts_of_step) (simp add: server_accept_def split: option.split prod.split)

lemma bind_sim:
  "server_bind (tcp_transport net) addr =
     map_sum id (\<lambda>l. \<lparr>l_queue = accepts_of l\<rparr>) (tcp_bind net addr)"
  by (simp add: server_bind_def tcp_transport_def map_sum_def comp_def split: sum.split)

lemma connect_sim: "connect (tcp_transport net) addr = map_sum id sock_conn (tcp_connect net addr)"
  by (simp add: connect_def tcp_transport_def)

text \<open>C4: TCP may deliver a stream in pieces of any size and take any part of a write; no operation
  of the program sees it. A frame read or written on a socket through the library's loops, an
  address dialled, a listener bound and a connection accepted give what they give on the
  unfragmented endpoint, and leave the state that corresponds.\<close>

theorem fragmentation_invisible:
  "read_frame (sock_conn s) = map_prod id sock_conn (gen_read_frame tcp_read_exact s) \<and>
   write_frame f (sock_conn s) = map_prod id sock_conn (gen_write_frame tcp_write_all f s) \<and>
   connect (tcp_transport net) addr = map_sum id sock_conn (tcp_connect net addr) \<and>
   server_bind (tcp_transport net) addr =
     map_sum id (\<lambda>l. \<lparr>l_queue = accepts_of l\<rparr>) (tcp_bind net addr) \<and>
   server_accept \<lparr>l_queue = accepts_of l\<rparr> =
     map_option (\<lambda>(r, l). (map_sum id sock_conn r, \<lparr>l_queue = accepts_of l\<rparr>)) (tcp_accept l)"
proof (intro conjI accept_sim bind_sim connect_sim)
  show "read_frame (sock_conn s) = map_prod id sock_conn (gen_read_frame tcp_read_exact s)"
    using socket.read_frame_sim [OF surjective_pairing] by (simp add: map_prod_def case_prod_beta')
  show "write_frame f (sock_conn s) = map_prod id sock_conn (gen_write_frame tcp_write_all f s)"
    using socket.write_frame_sim [OF surjective_pairing] by (simp add: map_prod_def case_prod_beta')
qed

text \<open>Two sockets: the frame one writes in any number of pieces is the frame the other reads from
  whatever segments the bytes arrive in.\<close>

theorem tcp_delivers:
  assumes "gen_write_frame tcp_write_all f a = (Inr (), a')" and "s_out a = []"
    and "s_input b = s_out a' @ rest"
  shows "\<exists>b'. gen_read_frame tcp_read_exact b = (Inr f, b') \<and> s_input b' = rest"
proof -
  from socket.write_frame_sim [OF assms(1)] have w: "write_frame f (sock_conn a) = (Inr (), sock_conn a')" .
  then have ok: "frame_ok f" by (auto simp: gen_write_frame_def frame_ok_def split: if_splits)
  have room: "conn_room (4 + length f) (sock_conn a)"
    using tcp.write_frame_fail [of f "sock_conn a"] w by auto
  have "sock_conn a' = conn_put (frame f) (sock_conn a)"
    using write_frame_conn [OF ok room] w by simp
  then have "s_out a' = frame f" using assms(2) sock_conn_simps(2) [of a'] by simp
  then have i: "c_in (sock_conn b) = frame f @ rest" using assms(3) by simp
  obtain r b' where b: "gen_read_frame tcp_read_exact b = (r, b')" by fastforce
  from socket.read_frame_sim [OF b] read_frame_at [OF ok i] have
    "r = Inr f" "sock_conn b' = (sock_conn b)\<lparr>c_in := rest\<rparr>" by simp_all
  then show ?thesis using b sock_conn_simps(1) [of b'] by simp
qed

text \<open>A socket whose input arrives in one segment, for a given endpoint.\<close>

definition conn_sock :: "conn \<Rightarrow> sock" where
  "conn_sock c =
     \<lparr>s_segs = push_seg (c_in c) [], s_fin = Some (c_end c), s_out = c_out c, s_takes = [],
      s_cap = c_cap c, s_werr = c_werr c, s_timeout = c_timeout c, s_dup = c_clone c, s_peer = c_peer c\<rparr>"

lemma sock_conn_sock [simp]: "sock_conn (conn_sock c) = c"
  by (cases "c_in c") (simp_all add: sock_conn_def conn_sock_def s_input_def push_seg_def)

end
