(* ===== verification/Session_Spec.thy ===== *)
theory Session_Spec
  imports Auth_Spec Server_Spec Client Tcp_Spec
begin

text \<open>
  Opening a session, both sides, as the end-to-end properties use it: a client (or a device) that
  knows the password is admitted by the accept loop with its first frame read, and the client's
  side of the same exchange returns the open connection.
\<close>

section \<open>The server's side\<close>

lemma auth_admits:
  assumes "length nonce = 16" and "length (sha (pw @ nonce)) = 32" and "fresh s"
    and "c_in s = frame (AUTH_PASS # sha (pw @ nonce)) @ rest"
  shows "auth_server sha nonce (Some pw) s =
    (Inr True, conn_put (frame (AUTH_REQUIRED # nonce) @ frame [AUTH_OK]) (s\<lparr>c_in := rest\<rparr>))"
proof -
  let ?f = "AUTH_PASS # sha (pw @ nonce)"
  have s: "c_cap s = None" using assms(3) by (simp add: fresh_def)
  have "frame_ok ?f" using assms(2) by (simp add: frame_ok_auth)
  moreover have "auth_verdict sha pw nonce ?f" using assms(2) by (simp add: auth_verdict_def)
  ultimately show ?thesis
    using auth_server_run [OF assms(1) s assms(4), of sha pw] s by (simp add: conn_put_def)
qed

text \<open>A connection admitted with \<open>q\<close> read as its first frame.\<close>

definition admitted_conn :: "bytes \<Rightarrow> conn \<Rightarrow> conn" where
  "admitted_conn nonce s = conn_put (frame (AUTH_REQUIRED # nonce) @ frame [AUTH_OK]) (s\<lparr>c_in := []\<rparr>)"

lemma admitted_conn_simps [simp]:
  "c_in (admitted_conn nonce s) = []" "c_cap (admitted_conn nonce s) = None \<longleftrightarrow> c_cap s = None"
  "c_out (admitted_conn nonce s) = c_out s @ frame (AUTH_REQUIRED # nonce) @ frame [AUTH_OK]"
  "c_peer (admitted_conn nonce s) = c_peer s"
  by (simp_all add: admitted_conn_def conn_put_def)

lemma admitted_conn_in [simp]: "(admitted_conn nonce s)\<lparr>c_in := []\<rparr> = admitted_conn nonce s"
  by (simp add: admitted_conn_def)

lemma first_frame_read:
  assumes "length nonce = 16" and "length (sha (pw @ nonce)) = 32" and "fresh s" and "frame_ok q"
    and "c_in s = frame (AUTH_PASS # sha (pw @ nonce)) @ frame q @ later"
  shows "\<exists>t. auth_server sha nonce (Some pw) s = (Inr True, t) \<and>
    read_frame t = (Inr q, (admitted_conn nonce s)\<lparr>c_in := later\<rparr>)"
proof -
  let ?t = "conn_put (frame (AUTH_REQUIRED # nonce) @ frame [AUTH_OK]) (s\<lparr>c_in := frame q @ later\<rparr>)"
  have "read_frame ?t = (Inr q, ?t\<lparr>c_in := later\<rparr>)"
    using assms(4) by (intro read_frame_at) simp_all
  then show ?thesis using auth_admits [where sha = sha, OF assms(1,2,3,5)]
    by (simp add: admitted_conn_def)
qed

text \<open>A client: the thread starts with the frame pending.\<close>

definition new_client :: "server \<Rightarrow> bytes \<Rightarrow> conn \<Rightarrow> client" where
  "new_client sv q c = \<lparr>cl_id = sv_counter sv, cl_conn = c, cl_target = None,
     cl_pending = Some q, cl_hung = False\<rparr>"

definition started :: "bytes \<Rightarrow> conn \<Rightarrow> server \<Rightarrow> server" where
  "started q c sv = sv\<lparr>sv_counter := sv_counter sv + 1,
     sv_connections := hm_insert (sv_counter sv) (peer_or_unknown c) (sv_connections sv),
     sv_clients := sv_clients sv @ [new_client sv q c]\<rparr>"

lemma new_client_simps [simp]:
  "cl_pending (new_client sv q c) = Some q" "cl_conn (new_client sv q c) = c"
  "cl_target (new_client sv q c) = None" "cl_id (new_client sv q c) = sv_counter sv"
  by (simp_all add: new_client_def)

lemma started_simps [simp]:
  "sv_clients (started q c sv) = sv_clients sv @ [new_client sv q c]"
  "sv_dict (started q c sv) = sv_dict sv" "sv_exec (started q c sv) = sv_exec sv"
  "sv_world (started q c sv) = sv_world sv"
  "sv_connections (started q c sv) = hm_insert (sv_counter sv) (peer_or_unknown c) (sv_connections sv)"
  by (simp_all add: started_def)

lemma client_admitted:
  assumes "so_password (cf_opts cfg) = Some pw" and "length nonce = 16"
    and "length (sha (pw @ nonce)) = 32" and "fresh s" and "frame_ok q"
    and "q = [] \<or> hd q \<noteq> OP_REVERSE_REGISTER"
    and "c_in s = frame (AUTH_PASS # sha (pw @ nonce)) @ frame q @ later"
  shows "accept_conn sha cfg nonce now s sv =
    (Started (sv_counter sv), started q ((admitted_conn nonce s)\<lparr>c_in := later\<rparr>) sv)"
proof -
  from first_frame_read [where sha = sha, OF assms(2-5,7)] obtain t where
    "auth_server sha nonce (Some pw) s = (Inr True, t)"
    "read_frame t = (Inr q, (admitted_conn nonce s)\<lparr>c_in := later\<rparr>)" by blast
  with assms(1,6) show ?thesis
    by (auto simp: accept_conn_def Let_def started_def new_client_def)
qed

text \<open>The first round of its thread serves that frame; the others serve the next one.\<close>

lemma pending_round:
  "cl_pending cl = Some f \<Longrightarrow>
     client_step sys cfg oth clk cl sv =
       (case serve_frame sys cfg oth clk f (cl\<lparr>cl_pending := None\<rparr>, sv) of
          None \<Rightarrow> (Hangs, sv) | Some (cl, sv) \<Rightarrow> (Goes_On cl, sv))"
  by (simp add: client_step_def)

lemma next_round:
  assumes "cl_pending cl = None" and "frame_ok f" and "c_in (cl_conn cl) = frame f @ rest"
  shows "client_step sys cfg oth clk cl sv =
    (case serve_frame sys cfg oth clk f (cl\<lparr>cl_conn := (cl_conn cl)\<lparr>c_in := rest\<rparr>, cl_pending := None\<rparr>, sv) of
       None \<Rightarrow> (Hangs, sv) | Some (cl, sv) \<Rightarrow> (Goes_On cl, sv))"
  using read_frame_at [OF assms(2,3)] assms(1) by (simp add: client_step_def)

lemma first_round:
  assumes "so_password (cf_opts cfg) = Some pw" and "length nonce = 16"
    and "length (sha (pw @ nonce)) = 32" and "fresh s" and "frame_ok q"
    and "q = [] \<or> hd q \<noteq> OP_REVERSE_REGISTER"
    and "c_in s = frame (AUTH_PASS # sha (pw @ nonce)) @ frame q @ later"
    and "serve_frame sys cfg oth clk q
      ((new_client sv q ((admitted_conn nonce s)\<lparr>c_in := later\<rparr>))\<lparr>cl_pending := None\<rparr>,
       started q ((admitted_conn nonce s)\<lparr>c_in := later\<rparr>) sv) = Some (cl', sv')"
    and "accept_conn sha cfg nonce now s sv = (a, sv1)" and "sv_clients sv1 = sv_clients sv @ cls"
  shows "a = Started (sv_counter sv) \<and> sv1 = started q ((admitted_conn nonce s)\<lparr>c_in := later\<rparr>) sv \<and>
    client_step sys cfg oth clk (hd cls) sv1 = (Goes_On cl', sv')"
  using client_admitted [where sha = sha, OF assms(1-7), of now sv] assms(8-10)
  by (auto simp: pending_round)

text \<open>A device: its connection goes into the store.\<close>

lemma device_admitted:
  assumes "so_password (cf_opts cfg) = Some pw" and "length nonce = 16"
    and "length (sha (pw @ nonce)) = 32" and "fresh s" and "str_ok name" and "str_ok user"
    and "c_in s = frame (AUTH_PASS # sha (pw @ nonce)) @
      frame (OP_REVERSE_REGISTER # str_field name @ str_field user) @ later"
  shows "accept_conn sha cfg nonce now s sv =
    (case register_device (so_max_devices (cf_opts cfg)) now name user
        ((admitted_conn nonce s)\<lparr>c_in := later\<rparr>) (sv_world sv) of
       (Some c, w) \<Rightarrow> (Dropped c, sv\<lparr>sv_world := w\<rparr>)
     | (None, w) \<Rightarrow> (Registered, sv\<lparr>sv_world := w\<rparr>))"
proof -
  let ?q = "OP_REVERSE_REGISTER # str_field name @ str_field user"
  have "frame_ok ?q" using assms(5,6) by (simp add: frame_ok_def MAX_FRAME_def str_ok_def str_field_def)
  from first_frame_read [where sha = sha, OF assms(2-4) this assms(7)] obtain t where
    "auth_server sha nonce (Some pw) s = (Inr True, t)"
    "read_frame t = (Inr ?q, (admitted_conn nonce s)\<lparr>c_in := later\<rparr>)" by blast
  with assms(1) parse_two_fields [OF assms(5,6), of OP_REVERSE_REGISTER "[]"] show ?thesis
    by (simp add: accept_conn_def parse_reverse_registration_def)
qed

section \<open>The client's side\<close>

lemma auth_client_admitted:
  assumes "length nonce = 16" and "length (sha (pw @ nonce)) = 32" and "c_cap c = None"
    and "c_in c = frame (AUTH_REQUIRED # nonce) @ frame [AUTH_OK] @ rest"
  shows "auth_client sha (Some pw) False (h, c) =
    (Inr (True, Some pw), (h, conn_put (frame (AUTH_PASS # sha (pw @ nonce))) (c\<lparr>c_in := rest\<rparr>)))"
proof -
  have "auth_client sha (Some pw) False (h, c) =
      (case auth_answer sha pw nonce (c\<lparr>c_in := frame [AUTH_OK] @ rest\<rparr>) of (r, c) \<Rightarrow> (r, (h, c)))"
    using auth_client_challenge [OF assms(1)] assms(4) by simp
  also have "\<dots> = (Inr (True, Some pw),
      (h, conn_put (frame (AUTH_PASS # sha (pw @ nonce))) (c\<lparr>c_in := rest\<rparr>)))"
    using auth_answer_run [of sha pw nonce "c\<lparr>c_in := frame [AUTH_OK] @ rest\<rparr>" AUTH_OK rest] assms(2,3)
    by simp
  finally show ?thesis .
qed

lemma client_session:
  assumes "load_session h = Some (addr, Some pw)" and "lit ''--connect'' \<notin> set args"
    and "connect t addr = Inr c" and "fresh c" and "length nonce = 16" and "length (sha (pw @ nonce)) = 32"
    and "c_in c = frame (AUTH_REQUIRED # nonce) @ frame [AUTH_OK] @ rest"
  shows "open_session sha t args port h =
    (Done (conn_put (frame (AUTH_PASS # sha (pw @ nonce)))
       (c\<lparr>c_timeout := Some READ_TIMEOUT, c_in := rest\<rparr>), addr, args), h)"
  using auth_client_admitted [where sha = sha and c = "c\<lparr>c_timeout := Some READ_TIMEOUT\<rparr>", OF assms(5,6)] assms
    take_flag_absent [OF assms(2), of None]
  by (simp add: open_session_def resolve_addr_def session_password_def set_read_timeout_def
      READ_TIMEOUT_def fresh_def)

section \<open>Both sides\<close>

text \<open>
  A process that has a cached session with the server's password dials the server and gets \<open>c\<close>;
  the other end is \<open>s\<close>, on which it answers the challenge \<open>nonce\<close> and then sends \<open>sent\<close>.
\<close>

definition logs_in ::
    "'p system \<Rightarrow> config \<Rightarrow> bytes \<Rightarrow> exec_state \<Rightarrow> conn \<Rightarrow> conn \<Rightarrow> bytes \<Rightarrow> bool" where
  "logs_in sys cfg nonce st c s sent \<longleftrightarrow>
     (\<exists>addr pw. load_session (p_host st) = Some (addr, Some pw) \<and> so_password (cf_opts cfg) = Some pw \<and>
        connect (sy_transport sys) addr = Inr c \<and> length (sy_sha sys (pw @ nonce)) = 32 \<and>
        c_in s = frame (AUTH_PASS # sy_sha sys (pw @ nonce)) @ sent) \<and>
     fresh c \<and> fresh s \<and> length nonce = 16"

lemma logs_in_fresh: "logs_in sys cfg nonce st c s sent \<Longrightarrow> c_cap s = None \<and> c_out s = [] \<and> c_cap c = None"
  by (simp add: logs_in_def fresh_def)

lemma logs_in_client:
  assumes "logs_in sys cfg nonce st c s sent" and "lit ''--connect'' \<notin> set args"
    and "c_in c = frame (AUTH_REQUIRED # nonce) @ frame [AUTH_OK] @ rest"
  shows "\<exists>c' addr. open_session (sy_sha sys) (sy_transport sys) args port (p_host st) =
      (Done (c', addr, args), p_host st) \<and> c_in c' = rest \<and> c_cap c' = None"
proof -
  from assms(1) obtain addr pw where l: "load_session (p_host st) = Some (addr, Some pw)"
    "connect (sy_transport sys) addr = Inr c" "length (sy_sha sys (pw @ nonce)) = 32" "fresh c" "length nonce = 16"
    by (auto simp: logs_in_def)
  from client_session [where sha = "sy_sha sys" and port = port, OF l(1) assms(2) l(2,4,5,3) assms(3)] l(4)
  show ?thesis by (simp add: fresh_def)
qed

lemma logs_in_server:
  assumes "logs_in sys cfg nonce st c s (frame q @ later)" and "frame_ok q"
    and "q = [] \<or> hd q \<noteq> OP_REVERSE_REGISTER"
    and "serve_frame ssys cfg oth clk q
      ((new_client sv q ((admitted_conn nonce s)\<lparr>c_in := later\<rparr>))\<lparr>cl_pending := None\<rparr>,
       started q ((admitted_conn nonce s)\<lparr>c_in := later\<rparr>) sv) = Some (cl', sv')"
    and "accept_conn (sy_sha sys) cfg nonce now s sv = (a, sv1)" and "sv_clients sv1 = sv_clients sv @ cls"
  shows "a = Started (sv_counter sv) \<and> sv1 = started q ((admitted_conn nonce s)\<lparr>c_in := later\<rparr>) sv \<and>
    client_step ssys cfg oth clk (hd cls) sv1 = (Goes_On cl', sv')"
proof -
  from assms(1) obtain pw where l: "so_password (cf_opts cfg) = Some pw" "length (sy_sha sys (pw @ nonce)) = 32"
    "fresh s" "length nonce = 16" "c_in s = frame (AUTH_PASS # sy_sha sys (pw @ nonce)) @ frame q @ later"
    by (auto simp: logs_in_def)
  show ?thesis
    by (rule first_round [where sha = "sy_sha sys", OF l(1,4,2,3) assms(2,3) l(5) assms(4-6)])
qed

lemma logs_in_accepted:
  assumes "logs_in sys cfg nonce st c s (frame q @ later)" and "frame_ok q"
    and "q = [] \<or> hd q \<noteq> OP_REVERSE_REGISTER"
  shows "accept_conn (sy_sha sys) cfg nonce now s sv =
    (Started (sv_counter sv), started q ((admitted_conn nonce s)\<lparr>c_in := later\<rparr>) sv)"
proof -
  from assms(1) obtain pw where l: "so_password (cf_opts cfg) = Some pw" "length (sy_sha sys (pw @ nonce)) = 32"
    "fresh s" "length nonce = 16" "c_in s = frame (AUTH_PASS # sy_sha sys (pw @ nonce)) @ frame q @ later"
    by (auto simp: logs_in_def)
  show ?thesis by (rule client_admitted [where sha = "sy_sha sys", OF l(1,4,2,3) assms(2,3) l(5)])
qed

section \<open>A cached session, for the witnesses\<close>

definition demo_addr :: rstr where "demo_addr = [104, 58, 49]"
definition demo_pw :: rstr where "demo_pw = [112]"

definition session_host :: host where
  "session_host = snd (save_session demo_addr (Some demo_pw) demo_host)"

lemma session_host_load: "load_session session_host = Some (demo_addr, Some demo_pw)"
  using load_saved [of demo_addr "Some demo_pw" demo_host session_host]
    demo_host_save [of demo_addr "Some demo_pw"]
  by (simp add: session_host_def demo_addr_def demo_pw_def line_ok_ascii starts_with_def bom_def prod_eq_iff)
    (simp add: demo_host_def)

lemma session_host_env [simp]: "h_env session_host = Map.empty"
  by (simp add: session_host_def save_session_def demo_host_def Let_def)

definition pw_cfg :: config where
  "pw_cfg = (demo_cfg 3)\<lparr>cf_opts := \<lparr>so_password = Some demo_pw, so_port = PORT, so_max_devices = 3\<rparr>\<rparr>"

lemma pw_cfg_simps [simp]:
  "so_password (cf_opts pw_cfg) = Some demo_pw" "so_max_devices (cf_opts pw_cfg) = 3"
  "cf_pid pw_cfg = 7" "cf_conn_iter pw_cfg = rev" "cf_iter pw_cfg = rev"
  by (simp_all add: pw_cfg_def demo_cfg_def)

text \<open>A system whose only peer is the given connection.\<close>

definition dials :: "'p system \<Rightarrow> conn \<Rightarrow> 'p system" where
  "dials sys c = sys\<lparr>sy_sha := demo_sha,
     sy_net := \<lparr>n_bind = (\<lambda>_. Inr []), n_connect = (\<lambda>_. Inr (conn_sock c))\<rparr>\<rparr>"

lemma dials_simps [simp]:
  "connect (sy_transport (dials sys c)) x = Inr c" "sy_sha (dials sys c) = demo_sha"
  "sy_exec (dials sys c) = sy_exec sys" "sy_fs (dials sys c) = sy_fs sys"
  by (simp_all add: dials_def sy_transport_def connect_sim tcp_connect_def)

lemma demo_nonce_length [simp]: "length demo_nonce = 16"
  by (simp add: demo_nonce_def)

definition demo_server_end :: "bytes \<Rightarrow> conn" where
  "demo_server_end sent = endpoint (frame (AUTH_PASS # demo_sha (demo_pw @ demo_nonce)) @ sent)"

definition demo_client_end :: "bytes \<Rightarrow> conn" where
  "demo_client_end received = endpoint (frame (AUTH_REQUIRED # demo_nonce) @ frame [AUTH_OK] @ received)"

lemma demo_logs_in:
  assumes "load_session (p_host st) = Some (demo_addr, Some demo_pw)"
  shows "logs_in (dials sys (demo_client_end x)) pw_cfg demo_nonce st (demo_client_end x) (demo_server_end sent) sent"
  using assms by (simp add: logs_in_def demo_client_end_def demo_server_end_def)

lemma demo_ends [simp]:
  "c_in (demo_client_end x) = frame (AUTH_REQUIRED # demo_nonce) @ frame [AUTH_OK] @ x"
  "c_out (demo_server_end x) = []" "c_cap (demo_server_end x) = None"
  by (simp_all add: demo_client_end_def demo_server_end_def)

end
