(* ===== verification/Tunnel_Spec.thy ===== *)
theory Tunnel_Spec
  imports Session_Spec Daemon_Spec
begin

text \<open>
  The reverse tunnel as a whole: a device registers with the server, and a client that selected it
  lists and downloads the device's files through the server. Three processes are composed over
  two connections, each reading what the one at the other end writes.
\<close>

section \<open>What each process writes does not depend on the answer\<close>

lemma ls_on_conn_out:
  assumes "str_ok path" and "c_cap c = None"
  shows "c_out (snd (ls_on_conn path c)) = c_out c @ frame (req_fs OP_LS path)"
proof -
  have f: "frame_ok (req_fs OP_LS path)" using assms(1) by (intro frame_ok_req_fs) (simp add: str_ok_def)
  have w: "write_frame (req_fs OP_LS path) c = (Inr (), conn_put (frame (req_fs OP_LS path)) c)"
    using f assms(2) by (simp add: write_frame_unlimited)
  obtain r t where r: "read_frame (conn_put (frame (req_fs OP_LS path)) c) = (r, t)" by fastforce
  with read_frame_keeps_out [OF r] w show ?thesis
    by (simp add: ls_on_conn_def call_on_conn_fs_def try_io_def split: sum.split)
qed

lemma recv_loop_keeps_out: "c_out (fst (snd (recv_loop wr c w))) = c_out c"
proof (induction wr c w rule: recv_loop.induct)
  case (1 wr c w)
  obtain r c' where rd: "read_frame c = (r, c')" by fastforce
  with read_frame_keeps_out [OF rd] 1 [OF rd [symmetric]] show ?case
    by (subst recv_loop.simps) (simp split: sum.split prod.split)
qed

lemma get_on_conn_out:
  assumes "str_ok path" and "c_cap c = None"
  shows "c_out (fst (snd (get_on_conn_fs wr path c w))) = c_out c @ frame (req_fs OP_GET_fs path)"
proof -
  have f: "frame_ok (req_fs OP_GET_fs path)" using assms(1) by (intro frame_ok_req_fs) (simp add: str_ok_def)
  have w: "write_frame (req_fs OP_GET_fs path) c = (Inr (), conn_put (frame (req_fs OP_GET_fs path)) c)"
    using f assms(2) by (simp add: write_frame_unlimited)
  obtain r t where r: "read_frame (conn_put (frame (req_fs OP_GET_fs path)) c) = (r, t)" by fastforce
  have l: "c_out (fst s) = c_out t" if "recv_loop wr t w = (q, s)" for q s
    using recv_loop_keeps_out [of wr t w] that by simp
  from read_frame_keeps_out [OF r] w r show ?thesis
    by (auto simp: get_on_conn_fs_def call_on_conn_fs_def try_io_def split: sum.split prod.split dest: l)
qed

lemma proxy_copy_keeps_out: "c_out (fst (snd (proxy_copy rc c))) = c_out rc"
proof (induction rc c rule: proxy_copy.induct)
  case (1 rc c)
  obtain r rc' where rd: "read_frame rc = (r, rc')" by fastforce
  show ?case
  proof (cases r)
    case (Inl e)
    with rd read_frame_keeps_out [OF rd] show ?thesis by (subst proxy_copy.simps) simp
  next
    case (Inr chunk)
    obtain q c' where w: "write_frame chunk c = (q, c')" by fastforce
    show ?thesis
    proof (cases "chunk = [] \<or> (\<exists>e. q = Inl e)")
      case True
      with rd w Inr read_frame_keeps_out [OF rd] show ?thesis
        by (subst proxy_copy.simps) (auto split: sum.splits)
    next
      case False
      then obtain u where "q = Inr u" "chunk \<noteq> []" by (cases q) auto
      with 1 [OF rd [symmetric] Inr w [symmetric]] rd w Inr read_frame_keeps_out [OF rd] show ?thesis
        by (subst proxy_copy.simps) simp
    qed
  qed
qed

lemma offline_conns [simp]: "rw_conns (mark_device_offline now name user w) = rw_conns w"
  by (simp add: mark_device_offline_def)

lemma proxied_ls_request:
  assumes "routes w name user a" and "str_ok name" and "str_ok path" and "c_cap (rw_conns w a) = None"
  shows "c_out (rw_conns (snd (handle_reverse_proxy_ls alone now
      (make_proxy_frame OP_REVERSE_PROXY_LS name path) (c, w))) a) =
    c_out (rw_conns w a) @ frame (req_fs OP_LS path)"
proof -
  let ?d = "conn_put (frame (req_fs OP_LS path)) (rw_conns w a)"
  obtain r t where rd: "read_frame ?d = (r, t)" by fastforce
  with read_frame_keeps_out [OF rd] show ?thesis
    by (simp add: handle_reverse_proxy_ls_def resolve_routes [OF assms(1-3)] device_gone_def alone_def
        send_proxy_ok [OF frame_ok_req_fs [OF str_ok_length [OF assms(3)]] assms(4)] split: sum.split)
qed

lemma proxied_get_request:
  assumes "routes w name user a" and "str_ok name" and "str_ok path" and "c_cap (rw_conns w a) = None"
  shows "c_out (rw_conns (snd (handle_reverse_proxy_get alone now
      (make_proxy_frame OP_REVERSE_PROXY_GET name path) (c, w))) a) =
    c_out (rw_conns w a) @ frame (req_fs OP_GET_fs path)"
proof -
  let ?d = "conn_put (frame (req_fs OP_GET_fs path)) (rw_conns w a)"
  obtain r t where rd: "read_frame ?d = (r, t)" by fastforce
  have cp: "c_out rc = c_out t" if "proxy_copy t c2 = (b, rc, c3)" for b rc c2 c3
    using proxy_copy_keeps_out [of t c2] that by simp
  from rd read_frame_keeps_out [OF rd] show ?thesis
    by (auto simp: handle_reverse_proxy_get_def resolve_routes [OF assms(1-3)] device_gone_def alone_def Let_def
        send_proxy_ok [OF frame_ok_req_fs [OF str_ok_length [OF assms(3)]] assms(4)]
        split: sum.split prod.split dest: cp)
qed

section \<open>Server and device\<close>

text \<open>One round of a client's thread whose next frame asks for a file operation on a remote target.\<close>

lemma remote_round:
  assumes "op = OP_LS \<or> op = OP_GET_fs" and "str_ok path" and "cl_pending cl = None"
    and "c_in (cl_conn cl) = frame (req_fs op path) @ others_in" and "cl_target cl = Some t"
  shows "client_step sys cfg oth clk cl sv =
    (case dispatch_fs oth (sy_fs sys) (fst clk) (req_fs op path)
        (((cl_conn cl)\<lparr>c_in := others_in\<rparr>, sv_world sv), Some t) of
       ((c, w), t) \<Rightarrow> (Goes_On (cl\<lparr>cl_conn := c, cl_pending := None, cl_target := t\<rparr>), sv\<lparr>sv_world := w\<rparr>))"
proof -
  let ?q = "req_fs op path"
  have "frame_ok ?q" using assms(2) by (intro frame_ok_req_fs) (simp add: str_ok_def)
  then have r: "read_frame (cl_conn cl) = (Inr ?q, (cl_conn cl)\<lparr>c_in := others_in\<rparr>)"
    using assms(4) by (rule read_frame_at)
  have q: "?q \<noteq> []" "?q ! 0 = op" by (simp_all add: req_fs_def push_append)
  have op: "\<not> op \<le> OP_ALL" "OP_LS \<le> op \<and> op \<le> OP_GET_fs"
    using assms(1) by (auto simp: OP_GET_def OP_ALL_def OP_LS_def OP_GET_fs_def)
  obtain c w t' where "dispatch_fs oth (sy_fs sys) (fst clk) ?q
      (((cl_conn cl)\<lparr>c_in := others_in\<rparr>, sv_world sv), Some t) = ((c, w), t')" by (metis prod.exhaust)
  note disp = this
  have "dispatch_basic sys cfg oth clk ?q (cl\<lparr>cl_conn := (cl_conn cl)\<lparr>c_in := others_in\<rparr>, cl_pending := None\<rparr>, sv) =
      Some (True, (cl\<lparr>cl_conn := c, cl_pending := None, cl_target := t'\<rparr>, sv\<lparr>sv_world := w\<rparr>))"
    using q(2) op disp assms(5) by (simp add: dispatch_basic_def)
  then have "serve_frame sys cfg oth clk ?q (cl\<lparr>cl_conn := (cl_conn cl)\<lparr>c_in := others_in\<rparr>, cl_pending := None\<rparr>, sv) =
      Some (cl\<lparr>cl_conn := c, cl_pending := None, cl_target := t'\<rparr>, sv\<lparr>sv_world := w\<rparr>)"
    using q by (simp add: serve_frame_def)
  with r disp assms(3) show ?thesis by (simp add: client_step_def)
qed

text \<open>The request goes to the device whatever the device does.\<close>

lemma remote_forwarded:
  assumes "op = OP_LS \<or> op = OP_GET_fs" and "str_ok path" and "str_ok name" and "name \<noteq> server_name"
    and "routes (sv_world sv) name user a" and "c_cap (rw_conns (sv_world sv) a) = None"
    and "cl_pending cl = None" and "cl_target cl = Some (name, user)"
    and "c_in (cl_conn cl) = frame (req_fs op path) @ others_in"
  shows "\<exists>cl' sv'. client_step sys cfg alone clk cl sv = (Goes_On cl', sv') \<and>
    c_out (rw_conns (sv_world sv') a) = c_out (rw_conns (sv_world sv) a) @ frame (req_fs op path)"
proof -
  let ?q = "req_fs op path" and ?c = "(cl_conn cl)\<lparr>c_in := others_in\<rparr>" and ?w = "sv_world sv"
  let ?ls = "handle_reverse_proxy_ls alone (fst clk) (make_proxy_frame OP_REVERSE_PROXY_LS name path) (?c, ?w)"
  let ?get = "handle_reverse_proxy_get alone (fst clk) (make_proxy_frame OP_REVERSE_PROXY_GET name path) (?c, ?w)"
  have path: "parse_path ?q = Inr path" "?q ! 0 = op" "?q \<noteq> []"
    using assms(2) by (simp_all add: parse_path_req)
  have disp: "dispatch_fs alone (sy_fs sys) (fst clk) ?q ((?c, ?w), Some (name, user)) =
      ((if op = OP_LS then ?ls else ?get), Some (name, user))"
    using assms(1,4) path routes_conn(2) [OF assms(5)] by (auto simp: dispatch_fs_def alone_def Let_def)
  have "c_out (rw_conns (snd ?ls) a) = c_out (rw_conns ?w a) @ frame (req_fs OP_LS path)"
    "c_out (rw_conns (snd ?get) a) = c_out (rw_conns ?w a) @ frame (req_fs OP_GET_fs path)"
    by (rule proxied_ls_request [OF assms(5,3,2,6)], rule proxied_get_request [OF assms(5,3,2,6)])
  with assms(1) have sent: "c_out (rw_conns (snd (if op = OP_LS then ?ls else ?get)) a) =
      c_out (rw_conns ?w a) @ frame ?q" by auto
  obtain c2 w2 where x: "(if op = OP_LS then ?ls else ?get) = (c2, w2)" by (metis prod.exhaust)
  with remote_round [OF assms(1,2,7,9,8), of sys cfg alone clk sv] disp
  have "client_step sys cfg alone clk cl sv =
      (Goes_On (cl\<lparr>cl_conn := c2, cl_pending := None, cl_target := Some (name, user)\<rparr>), sv\<lparr>sv_world := w2\<rparr>)"
    by simp
  with sent x show ?thesis by simp
qed

text \<open>The server and the device's process together, each served by what the other writes.\<close>

lemma tunnel_answers:
  assumes "op = OP_LS \<or> op = OP_GET_fs" and "str_ok path" and "str_ok name" and "name \<noteq> server_name"
    and "routes (sv_world sv) name user a" and "c_cap (rw_conns (sv_world sv) a) = None"
    and "cl_pending cl = None" and "cl_target cl = Some (name, user)" and "c_cap (cl_conn cl) = None"
    and "c_in (cl_conn cl) = frame (req_fs op path) @ others_in"
    and "client_step sys cfg alone clk cl sv = (Goes_On cl', sv')"
    and "fresh d" and "c_out (rw_conns (sv_world sv') a) = c_out (rw_conns (sv_world sv) a) @ c_in d"
    and "daemon_loop sysd st d = Some (st', d')"
    and "c_in (rw_conns (sv_world sv) a) = c_out d' @ later"
    and "fst (fs_handle (sy_fs sysd) (req_fs op path) (endpoint [])) = Inr ()"
  shows "c_out d' = c_out (snd (fs_handle (sy_fs sysd) (req_fs op path) (endpoint []))) \<and>
    c_out (cl_conn cl') = c_out (cl_conn cl) @ c_out d' \<and> c_in (cl_conn cl') = others_in \<and>
    rw_devices (sv_world sv') = rw_devices (sv_world sv) \<and> c_in (rw_conns (sv_world sv') a) = later"
proof -
  let ?q = "req_fs op path" and ?c = "(cl_conn cl)\<lparr>c_in := others_in\<rparr>" and ?w = "sv_world sv"
  have path: "?q ! 0 = op" "?q \<noteq> []" by (simp_all add: req_fs_def push_append)
  have d: "c_in d = concat (map frame [?q])"
    using remote_forwarded [OF assms(1-8,10), of sys cfg clk] assms(11,13) by auto
  have fq: "frame_ok ?q" using assms(2) by (intro frame_ok_req_fs) (simp add: str_ok_def)
  have op: "is_fs_op ?q" "op \<noteq> OP_SHELL_OPEN" "op \<noteq> OP_EXEC_SCRIPT"
    using assms(1) path by (auto simp: is_fs_op_def OP_LS_def OP_GET_fs_def OP_SHELL_OPEN_def OP_EXEC_SCRIPT_def)
  have dd: "c_cap d = None" "c_out d = []" using assms(12) by (simp_all add: fresh_def)
  have "\<forall>f \<in> set [?q]. frame_ok f \<and> (f \<noteq> [] \<longrightarrow> f ! 0 \<noteq> OP_SHELL_OPEN \<and> f ! 0 \<noteq> OP_EXEC_SCRIPT)"
    using fq op(2,3) path by simp
  from daemon_loop_run [OF this dd(1) d, of sysd st] assms(14) dd(2) op(1)
  have out: "c_out d' = c_out (snd (fs_handle (sy_fs sysd) ?q (endpoint [])))"
    by (simp add: daemon_answer_def)
  obtain dc where dc: "fs_handle (sy_fs sysd) ?q (endpoint []) = (Inr (), dc)"
    using assms(16) by (metis prod.collapse)
  have "c_in (rw_conns ?w a) = c_out dc @ later" using assms(15) out dc by simp
  from proxy_served [OF assms(1,2,3,4,5) _ assms(6) endpoint_fresh(1) dc this, of ?c "sy_fs sys" "fst clk"]
  obtain w' where "dispatch_fs alone (sy_fs sys) (fst clk) ?q ((?c, ?w), Some (name, user)) =
      ((conn_put (c_out dc) ?c, w'), Some (name, user))"
    "rw_devices w' = rw_devices ?w" "c_in (rw_conns w' a) = later"
    using assms(9) by auto
  with remote_round [OF assms(1,2,7,10,8), of sys cfg alone clk sv] assms(11) out dc show ?thesis by auto
qed

section \<open>Client, server and device\<close>

text \<open>A client thread whose target is a remote device the server has a working connection to.\<close>

definition ready :: "rstr \<Rightarrow> rstr \<Rightarrow> nat \<Rightarrow> client \<Rightarrow> server \<Rightarrow> bool" where
  "ready name user a cl sv \<longleftrightarrow>
     str_ok name \<and> name \<noteq> server_name \<and> routes (sv_world sv) name user a \<and>
     c_cap (rw_conns (sv_world sv) a) = None \<and>
     cl_pending cl = None \<and> cl_target cl = Some (name, user) \<and> fresh (cl_conn cl)"

lemma tunnel_round:
  assumes "ready name user a cl sv" and "op = OP_LS \<or> op = OP_GET_fs" and "str_ok path" and "fresh d"
    and "client_step sys cfg alone clk cl sv = (Goes_On cl', sv')"
    and "daemon_loop sysd st d = Some (st', d')"
    and "c_in (cl_conn cl) = frame (req_fs op path)"
    and "c_out (rw_conns (sv_world sv') a) = c_out (rw_conns (sv_world sv) a) @ c_in d"
    and "c_in (rw_conns (sv_world sv) a) = c_out d' @ later"
    and "fst (fs_handle (sy_fs sysd) (req_fs op path) (endpoint [])) = Inr ()"
  shows "c_out (cl_conn cl') = c_out (snd (fs_handle (sy_fs sysd) (req_fs op path) (endpoint []))) \<and>
    rw_devices (sv_world sv') = rw_devices (sv_world sv) \<and> c_in (rw_conns (sv_world sv') a) = later"
proof -
  from assms(1) have r: "str_ok name" "name \<noteq> server_name" "routes (sv_world sv) name user a"
    "c_cap (rw_conns (sv_world sv) a) = None" "cl_pending cl = None" "cl_target cl = Some (name, user)"
    "c_cap (cl_conn cl) = None" "c_out (cl_conn cl) = []"
    by (simp_all add: ready_def fresh_def)
  have i: "c_in (cl_conn cl) = frame (req_fs op path) @ []" using assms(7) by simp
  from tunnel_answers [OF assms(2,3) r(1-7) i assms(5,4,8,6,9,10)] r(8) show ?thesis by simp
qed

definition demo_tunnel :: "bytes \<Rightarrow> server" where
  "demo_tunnel answer = (server_new undefined)\<lparr>sv_world := one_device (endpoint answer)\<rparr>"

definition demo_asker :: "u8 \<Rightarrow> client" where
  "demo_asker op = \<lparr>cl_id = 0, cl_conn = endpoint (frame (req_fs op [47])), cl_target = Some ([112], [117]),
     cl_pending = None, cl_hung = False\<rparr>"

lemma demo_ready: "ready [112] [117] 0 (demo_asker op) (demo_tunnel answer)"
  by (simp add: ready_def demo_asker_def demo_tunnel_def one_device_def routes_def str_ok_ascii
      server_name_def lit_def)

lemma demo_round:
  assumes "op = OP_LS \<or> op = OP_GET_fs"
  shows "\<exists>cl' sv'. client_step sys cfg alone clk (demo_asker op) (demo_tunnel answer) = (Goes_On cl', sv') \<and>
    c_out (rw_conns (sv_world sv') 0) = c_out (rw_conns (sv_world (demo_tunnel answer)) 0) @ frame (req_fs op [47])"
  using remote_forwarded [OF assms, of "[47]" "[112]" "demo_tunnel answer" "[117]" 0 "demo_asker op" "[]" sys cfg clk]
    demo_ready [of op answer] by (simp add: ready_def str_ok_ascii) (simp add: demo_asker_def)

lemma demo_device_answers:
  assumes "op = OP_LS \<or> op = OP_GET_fs"
  shows "\<exists>d'. daemon_loop (sys0\<lparr>sy_fs := fs\<rparr>) st (endpoint (frame (req_fs op [47]))) = Some (st, d') \<and>
    c_out d' = c_out (snd (fs_handle fs (req_fs op [47]) (endpoint [])))"
proof -
  have q: "req_fs op [47] ! 0 = op" "req_fs op [47] \<noteq> []" "frame_ok (req_fs op [47])"
    by (simp_all add: req_fs_def push_append frame_ok_small)
  with assms have "is_fs_op (req_fs op [47])" "op \<noteq> OP_SHELL_OPEN" "op \<noteq> OP_EXEC_SCRIPT"
    by (auto simp: is_fs_op_def OP_LS_def OP_GET_fs_def OP_SHELL_OPEN_def OP_EXEC_SCRIPT_def)
  then show ?thesis
    using daemon_loop_run [of "[req_fs op [47]]" "endpoint (frame (req_fs op [47]))" "sys0\<lparr>sy_fs := fs\<rparr>" st] q
    by (auto simp: daemon_answer_def)
qed

text \<open>C23: a download through the tunnel, with all three processes: the client sends the request, the
  server's thread forwards it over the device's connection, the device's process answers it from
  its own files, and the server passes the answer on. The client gets the length and exactly the
  content of the device's file; nothing is left over on either connection, and the device list
  does not change. Each process reads what its peer writes.\<close>

theorem tunnel_download:
  assumes "ready name user a cl sv" and "str_ok path" and "fresh c" and "fresh d"
    and "get_on_conn_fs vec_write path c w = (r, (c', w'))"
    and "client_step sys cfg alone clk cl sv = (Goes_On cl', sv')"
    and "daemon_loop sysd st d = Some (st', d')"
    and "c_in (cl_conn cl) = c_out c'" and "c_in c = c_out (cl_conn cl')"
    and "c_out (rw_conns (sv_world sv') a) = c_out (rw_conns (sv_world sv) a) @ c_in d"
    and "c_in (rw_conns (sv_world sv) a) = c_out d' @ later"
    and "fs_open (sy_fs sysd) path = Inr f" and "f_len f = Inr sz"
    and "read_data (f_reads f) = (content, None)"
  shows "r = Inr sz \<and> w' = w @ content \<and> c_in c' = [] \<and>
    rw_devices (sv_world sv') = rw_devices (sv_world sv) \<and> c_in (rw_conns (sv_world sv') a) = later"
proof -
  let ?q = "req_fs OP_GET_fs path"
  have c: "c_cap c = None" "c_out c = []" using assms(3) by (simp_all add: fresh_def)
  have i: "c_in (cl_conn cl) = frame ?q"
    using get_on_conn_out [OF assms(2) c(1), of vec_write w] assms(5,8) c(2) by simp
  have "snd (file_chunks f) = None" using file_chunks_data [of f] assms(14) by auto
  then have "fst (fs_handle (sy_fs sysd) ?q (endpoint [])) = Inr ()"
    using fs_handle_get_open [OF assms(2,12,13), of "endpoint []"] by simp
  from tunnel_round [OF assms(1) _ assms(2,4,6,7) i assms(10,11) this] have
    s: "c_out (cl_conn cl') = c_out (snd (fs_handle (sy_fs sysd) ?q (endpoint [])))"
      "rw_devices (sv_world sv') = rw_devices (sv_world sv)" "c_in (rw_conns (sv_world sv') a) = later"
    by simp_all
  have "c = c\<lparr>c_in := c_out (snd (fs_handle (sy_fs sysd) ?q (endpoint []))) @ []\<rparr>"
    using assms(9) s(1) by (cases c) simp
  with get_on_conn_run [OF assms(2,12,13,14) endpoint_fresh(3,4) c(1), of "[]" "[]" w]
  have "get_on_conn_fs vec_write path c w = (Inr sz, (conn_put (frame ?q) (c\<lparr>c_in := []\<rparr>), w @ content))"
    by simp
  with assms(5) s show ?thesis by auto
qed

theorem tunnel_download_witness:
  "\<forall>(sys :: unit system) cfg. \<exists>c cl' sv'.
     client_step sys cfg alone (0, 0) (demo_asker OP_GET_fs) (demo_tunnel two_byte_reply) = (Goes_On cl', sv') \<and>
     c_in c = c_out (cl_conn cl') \<and> fst (get_on_conn_fs vec_write [47] c []) = Inr 2 \<and>
     snd (snd (get_on_conn_fs vec_write [47] c [])) = [8, 9]"
proof (intro allI)
  fix sys :: "unit system" and cfg
  let ?sysd = "sys\<lparr>sy_fs := two_byte_fs\<rparr>" and ?d = "endpoint (frame (req_fs OP_GET_fs [47]))"
  let ?f = "\<lparr>f_len = Inr 2, f_reads = [Inr [8, 9]]\<rparr>"
  have p: "str_ok [47]" by (simp add: str_ok_ascii)
  from demo_round [where op = OP_GET_fs and answer = two_byte_reply] obtain cl' sv' where
    st: "client_step sys cfg alone (0, 0) (demo_asker OP_GET_fs) (demo_tunnel two_byte_reply) = (Goes_On cl', sv')"
    and o: "c_out (rw_conns (sv_world sv') 0) =
      c_out (rw_conns (sv_world (demo_tunnel two_byte_reply)) 0) @ c_in ?d" by fastforce
  from demo_device_answers [where op = OP_GET_fs and fs = two_byte_fs] obtain d' where
    dl: "daemon_loop ?sysd undefined ?d = Some (undefined, d')"
    and out: "c_out d' = two_byte_reply" using two_byte_served [OF p] by fastforce
  define c where "c = endpoint (c_out (cl_conn cl'))"
  have c: "fresh c" "c_in c = c_out (cl_conn cl')" by (simp_all add: c_def)
  obtain r c' w' where g: "get_on_conn_fs vec_write [47] c [] = (r, (c', w'))" by (metis prod.exhaust)
  have i: "c_in (cl_conn (demo_asker OP_GET_fs)) = c_out c'"
    using get_on_conn_out [OF p, of c vec_write "[]"] g by (simp add: c_def demo_asker_def)
  have a: "c_in (rw_conns (sv_world (demo_tunnel two_byte_reply)) 0) = c_out d' @ []"
    by (simp add: out demo_tunnel_def one_device_def)
  have f: "fs_open (sy_fs ?sysd) [47] = Inr ?f" "f_len ?f = Inr 2" "read_data (f_reads ?f) = ([8, 9], None)"
    by (simp_all add: two_byte_fs_def)
  from tunnel_download [OF demo_ready p c(1) endpoint_fresh(1) g st dl i c(2) o a f]
  have "r = Inr 2" "w' = [8, 9]" by simp_all
  with g st c(2) show "\<exists>c cl' sv'.
     client_step sys cfg alone (0, 0) (demo_asker OP_GET_fs) (demo_tunnel two_byte_reply) = (Goes_On cl', sv') \<and>
     c_in c = c_out (cl_conn cl') \<and> fst (get_on_conn_fs vec_write [47] c []) = Inr 2 \<and>
     snd (snd (get_on_conn_fs vec_write [47] c [])) = [8, 9]" by auto
qed

text \<open>C24: a listing through the tunnel: what the client shows are the readable entries of the device's
  directory, in order, when they fit in a frame.\<close>

theorem tunnel_listing:
  assumes "ready name user a cl sv" and "str_ok path" and "fresh c" and "fresh d"
    and "ls_on_conn path c = (r, c')"
    and "client_step sys cfg alone clk cl sv = (Goes_On cl', sv')"
    and "daemon_loop sysd st d = Some (st', d')"
    and "c_in (cl_conn cl) = c_out c'" and "c_in c = c_out (cl_conn cl')"
    and "c_out (rw_conns (sv_world sv') a) = c_out (rw_conns (sv_world sv) a) @ c_in d"
    and "c_in (rw_conns (sv_world sv) a) = c_out d' @ later"
    and "fs_read_dir (sy_fs sysd) (if path = [] then lit ''.'' else path) = Inr entries"
    and "\<forall>e \<in> set (flatten_ok entries). length (lossy (de_name e)) < 65536"
    and "frame_ok (ST_OK # concat (map ls_entry (flatten_ok entries)))"
  shows "r = Inr (map ls_item (flatten_ok entries)) \<and> c_in c' = [] \<and>
    rw_devices (sv_world sv') = rw_devices (sv_world sv) \<and> c_in (rw_conns (sv_world sv') a) = later"
proof -
  let ?q = "req_fs OP_LS path"
  have c: "c_cap c = None" "c_out c = []" using assms(3) by (simp_all add: fresh_def)
  have i: "c_in (cl_conn cl) = frame ?q"
    using ls_on_conn_out [OF assms(2) c(1)] assms(5,8) c(2) by simp
  have "fst (fs_handle (sy_fs sysd) ?q (endpoint [])) = Inr ()"
    using assms(2,12,14) by (simp add: fs_handle_def parse_path_req handle_ls_def write_frame_unlimited)
  from tunnel_round [OF assms(1) _ assms(2,4,6,7) i assms(10,11) this] have
    s: "c_out (cl_conn cl') = c_out (snd (fs_handle (sy_fs sysd) ?q (endpoint [])))"
      "rw_devices (sv_world sv') = rw_devices (sv_world sv)" "c_in (rw_conns (sv_world sv') a) = later"
    by simp_all
  have "c = c\<lparr>c_in := c_out (snd (fs_handle (sy_fs sysd) ?q (endpoint []))) @ []\<rparr>"
    using assms(9) s(1) by (cases c) simp
  with ls_on_conn_run [OF assms(2,12,13,14) endpoint_fresh(3,4) c(1), of "[]" "[]"]
  have "ls_on_conn path c = (Inr (map ls_item (flatten_ok entries)), conn_put (frame ?q) (c\<lparr>c_in := []\<rparr>))"
    by simp
  with assms(5) s show ?thesis by auto
qed

text \<open>A directory with one file.\<close>

definition one_file_fs :: fsys where
  "one_file_fs = \<lparr>fs_read_dir = (\<lambda>_. Inr [Inr \<lparr>de_name = [97], de_is_dir = Inr False\<rparr>]),
     fs_open = (\<lambda>_. Inl (IoError NotFound []))\<rparr>"

theorem tunnel_listing_witness:
  "\<forall>(sys :: unit system) cfg. \<exists>answer c cl' sv'.
     client_step sys cfg alone (0, 0) (demo_asker OP_LS) (demo_tunnel answer) = (Goes_On cl', sv') \<and>
     c_in c = c_out (cl_conn cl') \<and>
     fst (ls_on_conn [47] c) = Inr [\<lparr>fe_name = [97], fe_is_dir = False\<rparr>]"
proof (intro allI)
  fix sys :: "unit system" and cfg
  let ?sysd = "sys\<lparr>sy_fs := one_file_fs\<rparr>" and ?d = "endpoint (frame (req_fs OP_LS [47]))"
  let ?es = "[Inr \<lparr>de_name = [97], de_is_dir = Inr False\<rparr>]"
  let ?answer = "c_out (snd (fs_handle one_file_fs (req_fs OP_LS [47]) (endpoint [])))"
  have p: "str_ok [47]" by (simp add: str_ok_ascii)
  from demo_round [where op = OP_LS and answer = ?answer] obtain cl' sv' where
    st: "client_step sys cfg alone (0, 0) (demo_asker OP_LS) (demo_tunnel ?answer) = (Goes_On cl', sv')"
    and o: "c_out (rw_conns (sv_world sv') 0) =
      c_out (rw_conns (sv_world (demo_tunnel ?answer)) 0) @ c_in ?d" by fastforce
  from demo_device_answers [where op = OP_LS and fs = one_file_fs] obtain d' where
    dl: "daemon_loop ?sysd undefined ?d = Some (undefined, d')" and out: "c_out d' = ?answer" by fastforce
  define c where "c = endpoint (c_out (cl_conn cl'))"
  have c: "fresh c" "c_in c = c_out (cl_conn cl')" by (simp_all add: c_def)
  obtain r c' where g: "ls_on_conn [47] c = (r, c')" by fastforce
  have i: "c_in (cl_conn (demo_asker OP_LS)) = c_out c'"
    using ls_on_conn_out [OF p, of c] g by (simp add: c_def demo_asker_def)
  have a: "c_in (rw_conns (sv_world (demo_tunnel ?answer)) 0) = c_out d' @ []"
    by (simp add: out demo_tunnel_def one_device_def)
  have l: "lossy [97] = [97]" by (rule lossy_valid, rule utf8_valid_ascii) simp
  have f: "fs_read_dir (sy_fs ?sysd) (if [47] = [] then lit ''.'' else [47]) = Inr ?es"
    by (simp add: one_file_fs_def)
  have k: "flatten_ok ?es = [\<lparr>de_name = [97], de_is_dir = Inr False\<rparr>]" by (simp add: flatten_ok_def)
  have n: "\<forall>e \<in> set (flatten_ok ?es). length (lossy (de_name e)) < 65536"
    "frame_ok (ST_OK # concat (map ls_entry (flatten_ok ?es)))"
    unfolding k by (simp_all add: l frame_ok_small ls_entry_def push_append)
  from tunnel_listing [OF demo_ready p c(1) endpoint_fresh(1) g st dl i c(2) o a f n]
  have "r = Inr [\<lparr>fe_name = [97], fe_is_dir = False\<rparr>]" unfolding k by (simp add: ls_item_def l)
  with g st c(2) show "\<exists>answer c cl' sv'.
     client_step sys cfg alone (0, 0) (demo_asker OP_LS) (demo_tunnel answer) = (Goes_On cl', sv') \<and>
     c_in c = c_out (cl_conn cl') \<and>
     fst (ls_on_conn [47] c) = Inr [\<lparr>fe_name = [97], fe_is_dir = False\<rparr>]"
    by (intro exI [of _ ?answer] exI [of _ c] exI [of _ cl'] exI [of _ sv'] conjI) simp_all
qed

section \<open>Registration\<close>

definition identity :: "host \<Rightarrow> rstr \<times> rstr" where
  "identity h =
     (env_or h (lit ''HOSTNAME'') (lit ''COMPUTERNAME'') (lit ''anonymous''),
      env_or h (lit ''USER'') (lit ''USERNAME'') (lit ''unknown''))"

lemma registration_fields:
  "registration h = OP_REVERSE_REGISTER # str_field (fst (identity h)) @ str_field (snd (identity h))"
  by (simp add: registration_def identity_def push_append)

lemma find_append_new: "\<not> list_ex P xs \<Longrightarrow> P x \<Longrightarrow> find P (xs @ [x]) = Some x"
  by (induction xs) auto

text \<open>Below the limit a device is always taken, a known one into its old record.\<close>

lemma register_taken:
  assumes "dev_inv mx w" and "mx = 0 \<or> active_count (rw_devices w) < mx"
  shows "\<exists>w'. register_device mx now name user c w = (None, w') \<and>
    (\<exists>dv. find (is_device name user) (rw_devices w') = Some dv \<and> dv_active dv \<and> dv_conn dv = Some (rw_next w)) \<and>
    rw_conns w' (rw_next w) = c \<and> (rw_next w, name, user) \<in> set (rw_monitors w')"
proof (cases "list_ex (is_device name user) (rw_devices w)")
  case True
  then obtain d where d: "d \<in> set (rw_devices w)" "dev_key d = (name, user)"
    by (auto simp: list_ex_iff is_device_key)
  from register_known [OF assms(1) d assms(2), of now c] register_current [OF assms(1) d assms(2), of now c]
  show ?thesis by auto
next
  case False
  let ?d = "\<lparr>dv_name = name, dv_user = user, dv_addr = peer_or_unknown c, dv_connected_at = now,
    dv_last_seen = now, dv_active = True, dv_conn = Some (rw_next w)\<rparr>"
  have "find (is_device name user) (rw_devices w @ [?d]) = Some ?d"
    using False by (rule find_append_new) (simp add: is_device_def)
  moreover have "\<not> (0 < mx \<and> mx \<le> active_count (rw_devices w))" using assms(2) by auto
  ultimately show ?thesis using False by (simp add: register_device_def Let_def)
qed

lemma daemon_registers:
  assumes "load_session (p_host st) = Some (addr, Some pw)" and "lit ''--connect'' \<notin> set args"
    and "connect (sy_transport sys) addr = Inr d" and "fresh d" and "length nonce = 16"
    and "length (sy_sha sys (pw @ nonce)) = 32" and "frame_ok (registration (p_host st))"
    and "c_in d = frame (AUTH_REQUIRED # nonce) @ frame [AUTH_OK] @ rest"
  shows "run_reverse_daemon sys args st =
    (case daemon_loop sys st (conn_put (frame (AUTH_PASS # sy_sha sys (pw @ nonce)) @ frame (registration (p_host st)))
            (d\<lparr>c_timeout := None, c_in := rest\<rparr>)) of
       None \<Rightarrow> None
     | Some (st, _) \<Rightarrow>
         Some (Done (), st\<lparr>p_host := remove_file (reverse_pid_file (p_host st)) (p_host st)\<rparr>))"
proof -
  let ?p = "frame (AUTH_PASS # sy_sha sys (pw @ nonce))" and ?d = "d\<lparr>c_timeout := None\<rparr>"
  have d: "c_cap d = None" using assms(4) by (simp add: fresh_def)
  have a: "auth_client (sy_sha sys) (Some pw) False (p_host st, ?d) =
      (Inr (True, Some pw), (p_host st, conn_put ?p (?d\<lparr>c_in := rest\<rparr>)))"
    using auth_client_admitted [where sha = "sy_sha sys" and c = ?d, OF assms(5,6)] d assms(8) by simp
  have w: "write_frame (registration (p_host st)) (conn_put ?p (?d\<lparr>c_in := rest\<rparr>)) =
      (Inr (), conn_put (?p @ frame (registration (p_host st))) (?d\<lparr>c_in := rest\<rparr>))"
    using assms(7) d by (simp add: write_frame_unlimited conn_put_append)
  have r: "resolve_addr args PORT (p_host st) = (addr, args)" "session_password (p_host st) = Some pw"
    using assms(1) take_flag_absent [OF assms(2), of None] by (simp_all add: resolve_addr_def session_password_def)
  show ?thesis unfolding run_reverse_daemon_def
    using assms(3) a w by (simp add: r Let_def set_read_timeout_def)
qed



end
