(* ===== verification/Command_Spec.thy ===== *)
theory Command_Spec
  imports Session_Spec Exec_Spec Server_Life
begin

text \<open>
  Whole commands, from the arguments of the process to what it prints and how it ends, across both
  processes: the client dials the address of its cached session, the server's accept loop admits it
  and starts its thread, the thread's rounds answer it. Each side reads what the other wrote.
\<close>

section \<open>Running a command\<close>

lemma serve_exec:
  assumes "f = OP_EXEC_SCRIPT # u32_to_be (of_nat (length script)) @ script"
    and "length script + 5 \<le> MAX_FRAME" and "utf8_valid script" and "c_cap (cl_conn cl) = None"
    and "run_script (sy_exec sys) script (sv_exec sv) = (Inr out, x)" and "output_ok out"
  shows "serve_frame sys cfg oth clk f (cl, sv) =
    Some (cl\<lparr>cl_conn := conn_put (concat (map frame (exec_frames out @ [[]]))) (cl_conn cl)\<rparr>, sv\<lparr>sv_exec := x\<rparr>)"
proof -
  have "handle_exec_script (sy_exec sys) f (sv_exec sv, cl_conn cl) =
      (Inr (), (x, conn_put (concat (map frame (exec_frames out @ [[]]))) (cl_conn cl)))"
    using handle_exec_run [OF assms(2,3,1)] send_output_run [OF assms(6,4)] assms(5) by simp
  moreover have "f ! 0 = OP_EXEC_SCRIPT" "f \<noteq> []" using assms(1) by simp_all
  moreover have "\<not> OP_EXEC_SCRIPT \<le> OP_ALL" "\<not> OP_EXEC_SCRIPT \<le> OP_GET_fs" "OP_EXEC_SCRIPT \<noteq> OP_SHELL_OPEN"
    by (simp_all add: OP_EXEC_SCRIPT_def OP_ALL_def OP_GET_fs_def OP_SHELL_OPEN_def)
  ultimately show ?thesis by (simp add: serve_frame_def dispatch_basic_def)
qed

text \<open>C38: \<^theory_text>\<open>thru exec\<close> with its words, across both processes: the words, joined by blanks, are run by the
  server's shell; the command prints the standard output and then the standard error of the run,
  and exits with its exit code (1 when a signal ended it).\<close>

theorem exec_command:
  fixes sv :: server and words :: "rstr list"
  defines "script \<equiv> join [32] words"
  assumes "logs_in sys cfg nonce st c s (frame (OP_EXEC_SCRIPT # u32_to_be (of_nat (length script)) @ script))"
    and "words \<noteq> []" and "lit ''--connect'' \<notin> set words" and "utf8_valid script"
    and "length script + 5 \<le> MAX_FRAME"
    and "accept_conn (sy_sha sys) cfg nonce now s sv = (a, sv1)" and "sv_clients sv1 = sv_clients sv @ cls"
    and "client_step ssys cfg oth clk (hd cls) sv1 = (Goes_On cl, sv2)" and "c_in c = c_out (cl_conn cl)"
    and "run_script (sy_exec ssys) script (sv_exec sv) = (Inr out, x)" and "output_ok out"
  shows "main sys term it cit later (lit ''exec'' # words) st =
    Some (if (case o_code out of Some n \<Rightarrow> n | None \<Rightarrow> 1) = 0 then Done ()
          else Exit (sint (case o_code out of Some n \<Rightarrow> n | None \<Rightarrow> 1)),
          st\<lparr>p_host := put_out (lossy (o_stdout out @ o_stderr out)) (p_host st)\<rparr>) \<and>
    sv_exec sv2 = x"
proof -
  let ?f = "OP_EXEC_SCRIPT # u32_to_be (of_nat (length script)) @ script"
  let ?t = "(admitted_conn nonce s)\<lparr>c_in := []\<rparr>" and ?code = "case o_code out of Some n \<Rightarrow> n | None \<Rightarrow> 1"
  have l: "logs_in sys cfg nonce st c s (frame ?f @ [])" using assms(2) by simp
  note fr = logs_in_fresh [OF l]
  have f: "frame_ok ?f" "?f = [] \<or> hd ?f \<noteq> OP_REVERSE_REGISTER"
    using assms(6) by (simp add: frame_ok_def) (simp add: OP_EXEC_SCRIPT_def OP_REVERSE_REGISTER_def)
  have cap: "c_cap (cl_conn ((new_client sv ?f ?t)\<lparr>cl_pending := None\<rparr>)) = None" using fr by simp
  have "run_script (sy_exec ssys) script (sv_exec (started ?f ?t sv)) = (Inr out, x)" using assms(11) by simp
  from logs_in_server [OF l f serve_exec [OF refl assms(6,5) cap this assms(12)] assms(7,8), of oth clk] assms(9)
  have sv2: "sv_exec sv2 = x" and co: "c_out (cl_conn cl) =
      frame (AUTH_REQUIRED # nonce) @ frame [AUTH_OK] @ concat (map frame (exec_frames out)) @ frame []"
    using fr by auto
  then obtain c' addr where o: "open_session (sy_sha sys) (sy_transport sys) words PORT (p_host st) =
      (Done (c', addr, words), p_host st)" and c': "c_in c' = concat (map frame (exec_frames out)) @ frame []" "c_cap c' = None"
    using logs_in_client [OF l assms(4), of "concat (map frame (exec_frames out)) @ frame []" PORT] assms(10) by auto
  have "fst (exec_script_on_conn script c') = Inr (lossy (o_stdout out @ o_stderr out), ?code)"
    using exec_client_run [OF assms(6) c'(2) assms(12), of "[]"] c'(1) by simp
  with o have "exec_cmd sys words (p_host st) =
      (if ?code \<noteq> 0 then Exit (sint ?code) else Done (), put_out (lossy (o_stdout out @ o_stderr out)) (p_host st))"
    using assms(3) by (auto simp: exec_cmd_def with_session_def script_def Let_def split: prod.split)
  moreover have "main sys term it cit later (lit ''exec'' # words) st = on_host st (exec_cmd sys words (p_host st))"
    by (simp add: main_def lit_def)
  ultimately show ?thesis using sv2 by (simp add: on_host_def)
qed

theorem exec_command_witness:
  "\<forall>(sys0 :: unit system) st0. \<exists>(sys :: unit system) st.
     main sys None rev rev 0 [lit ''exec'', [108, 115]] st =
       Some (Exit 3, st\<lparr>p_host := put_out [104, 105, 33] (p_host st)\<rparr>)"
proof (intro allI)
  fix sys0 :: "unit system" and st0 :: exec_state
  define st where "st = st0\<lparr>p_host := session_host\<rparr>"
  let ?words = "[[108 :: u8, 115]]" and ?sv = "server_new st0"
  let ?script = "join [32] ?words"
  let ?f = "OP_EXEC_SCRIPT # u32_to_be (of_nat (length ?script)) @ ?script"
  let ?c = "demo_client_end (concat (map frame (exec_frames demo_out)) @ frame [])" and ?s = "demo_server_end (frame ?f)"
  let ?ssys = "sys0\<lparr>sy_exec := demo_exec (Inr demo_out)\<rparr>" and ?t = "(admitted_conn demo_nonce ?s)\<lparr>c_in := []\<rparr>"
  have l: "logs_in (dials sys0 ?c) pw_cfg demo_nonce st ?c ?s (frame ?f)"
    by (rule demo_logs_in) (simp add: st_def session_host_load)
  then have l': "logs_in (dials sys0 ?c) pw_cfg demo_nonce st ?c ?s (frame ?f @ [])" by simp
  have w: "?words \<noteq> []" "lit ''--connect'' \<notin> set ?words" by (simp_all add: lit_def)
  have u: "utf8_valid ?script" by (rule utf8_valid_ascii) simp
  have len: "length ?script + 5 \<le> MAX_FRAME" by (simp add: MAX_FRAME_def)
  have f: "frame_ok ?f" "?f = [] \<or> hd ?f \<noteq> OP_REVERSE_REGISTER"
    by (simp_all add: frame_ok_small OP_EXEC_SCRIPT_def OP_REVERSE_REGISTER_def)
  have cap: "c_cap (cl_conn ((new_client ?sv ?f ?t)\<lparr>cl_pending := None\<rparr>)) = None" by simp
  have run: "run_script (sy_exec ?ssys) ?script (sv_exec ?sv) = (Inr demo_out, sv_exec ?sv)"
    "run_script (sy_exec ?ssys) ?script (sv_exec (started ?f ?t ?sv)) = (Inr demo_out, sv_exec ?sv)" by simp_all
  note acc = logs_in_accepted [OF l' f, of 0 ?sv]
  have clients: "sv_clients (started ?f ?t ?sv) = sv_clients ?sv @ [new_client ?sv ?f ?t]" by simp
  from logs_in_server [OF l' f serve_exec [OF refl len u cap run(2) demo_out_ok] acc clients, of alone "(0, 0)"]
  obtain cl sv2 where step: "client_step ?ssys pw_cfg alone (0, 0) (hd [new_client ?sv ?f ?t]) (started ?f ?t ?sv) = (Goes_On cl, sv2)"
    and o: "c_in ?c = c_out (cl_conn cl)" by simp
  have "lossy [104, 105, 33] = [104, 105, 33]" by (rule lossy_valid, rule utf8_valid_ascii) simp
  with exec_command [OF l w u len acc clients step o run(1) demo_out_ok]
  have "main (dials sys0 ?c) None rev rev 0 (lit ''exec'' # ?words) st =
      Some (Exit 3, st\<lparr>p_host := put_out [104, 105, 33] (p_host st)\<rparr>)"
    by (simp add: demo_out_def)
  then show "\<exists>(sys :: unit system) st. main sys None rev rev 0 [lit ''exec'', [108, 115]] st =
       Some (Exit 3, st\<lparr>p_host := put_out [104, 105, 33] (p_host st)\<rparr>)" by blast
qed

section \<open>The status of the server\<close>

interpretation names_code: codec_loop str_field read_str str_ok parse_names
  by unfold_locales (simp add: parse_names.simps)

lemma serve_status:
  "serve_frame sys cfg oth clk [OP_STATUS] (cl, sv) =
     Some (cl\<lparr>cl_conn := reply (status_reply cfg sv) (cl_conn cl)\<rparr>, sv)"
  by (simp add: serve_frame_def dispatch_basic_def OP_STATUS_def OP_GET_def OP_ALL_def OP_LS_def
      OP_GET_fs_def OP_SHELL_OPEN_def OP_EXEC_SCRIPT_def)

definition active_names :: "server \<Rightarrow> rstr list" where
  "active_names sv = map dv_name (filter dv_active (rw_devices (sv_world sv)))"

definition names_reply :: "server \<Rightarrow> bytes" where
  "names_reply sv = ST_OK # concat (map str_field (active_names sv))"

lemma serve_names:
  "serve_frame sys cfg oth clk [OP_REVERSE_LIST] (cl, sv) =
     Some (cl\<lparr>cl_conn := reply (names_reply sv) (cl_conn cl)\<rparr>, sv)"
  by (simp add: serve_frame_def dispatch_basic_def handle_reverse_list_def names_reply_def active_names_def
      comp_def push_append OP_REVERSE_LIST_def OP_STATUS_def OP_GET_def OP_ALL_def OP_LS_def
      OP_GET_fs_def OP_SHELL_OPEN_def OP_EXEC_SCRIPT_def)

definition names_lines :: "rstr list \<Rightarrow> rstr list" where
  "names_lines names =
     (if names = [] then []
      else (lit ''reverse clients ('' @ decimal (length names) @ lit ''):'') # map (\<lambda>n. lit ''  '' @ n) names)"

definition peers :: "config \<Rightarrow> server \<Rightarrow> rstr list" where
  "peers cfg sv = map snd (cf_conn_iter cfg (sv_connections sv))"

text \<open>The client's side, for what the server answers.\<close>

lemma pid_prints:
  assumes "running n h" and "open_session (sy_sha sys) (sy_transport sys) [] PORT h = (Done (c, addr, []), h)"
    and "iter_law (cf_conn_iter cfg)" and "\<forall>p \<in> set (sv_connections sv). str_ok (snd p)"
    and "length (sv_connections sv) < 2 ^ 32" and "frame_ok (status_reply cfg sv)"
    and "\<forall>d \<in> set (rw_devices (sv_world sv2)). str_ok (dv_name d)" and "frame_ok (names_reply sv2)"
    and "c_cap c = None" and "c_in c = frame (status_reply cfg sv) @ frame (names_reply sv2)"
  shows "pid_cmd sys [] h = (Done (), put_lines
    (status_lines \<lparr>ss_pid = unat (cf_pid cfg), ss_connections = peers cfg sv\<rparr> @ names_lines (active_names sv2)) h)"
proof -
  let ?c1 = "conn_put (frame [50]) (c\<lparr>c_in := frame (names_reply sv2)\<rparr>)"
  let ?c2 = "conn_put (frame [OP_REVERSE_LIST]) ?c1"
  have f: "path_exists (pid_file h) h" "read_to_string (pid_file h) h = Inr (decimal n)"
    using assms(1) read_pid_file(1) [of h "pid_file h" n] by (simp_all add: running_def path_exists_def)
  have q: "query_server_status c =
      (Inr \<lparr>ss_pid = unat (cf_pid cfg), ss_connections = peers cfg sv\<rparr>, ?c1)"
    unfolding peers_def by (rule query_status_run [OF assms(3-6,9,10)])
  have w: "write_frame [OP_REVERSE_LIST] ?c1 = (Inr (), ?c2)"
    using assms(9) by (simp add: write_frame_unlimited frame_ok_small)
  have r: "read_frame ?c2 = (Inr (names_reply sv2), ?c2\<lparr>c_in := []\<rparr>)"
    using assms(8) by (intro read_frame_at) simp_all
  have "\<forall>x \<in> set (active_names sv2). str_ok x" using assms(7) by (auto simp: active_names_def)
  then have n: "parse_names (drop 1 (names_reply sv2)) = active_names sv2"
    using names_code.parse_stream_stop [of "active_names sv2" "[]"] by (simp add: names_reply_def)
  have "put_lines (a @ b) x = put_lines b (put_lines a x)" for a b x by (simp add: put_lines_def)
  moreover have "put_lines [] x = x" for x by (simp add: put_lines_def)
  ultimately show ?thesis unfolding pid_cmd_def
    using f q w r n assms(2) by (simp add: Let_def names_lines_def) (simp add: names_reply_def)
qed

text \<open>C39: \<^theory_text>\<open>thru pid\<close> beside a running server, across both processes: it prints the server's process id,
  the number of connections and the address of each, the command's own among them, and the names
  of the active devices, when there are any. Other threads may change the server between the two
  requests.\<close>

theorem pid_command:
  fixes sv sv2 :: server
  assumes "logs_in sys cfg nonce st c s (frame [OP_STATUS] @ frame [OP_REVERSE_LIST])" and "running n (p_host st)"
    and "iter_law (cf_conn_iter cfg)" and "\<forall>p \<in> set (sv_connections sv1). str_ok (snd p)"
    and "length (sv_connections sv1) < 2 ^ 32" and "frame_ok (status_reply cfg sv1)"
    and "\<forall>d \<in> set (rw_devices (sv_world sv2)). str_ok (dv_name d)" and "frame_ok (names_reply sv2)"
    and "accept_conn (sy_sha sys) cfg nonce now s sv = (a, sv1)" and "sv_clients sv1 = sv_clients sv @ cls"
    and "client_step ssys cfg oth clk (hd cls) sv1 = (Goes_On cl1, sv1')"
    and "client_step ssys cfg oth2 clk2 cl1 sv2 = (Goes_On cl2, sv2')" and "c_in c = c_out (cl_conn cl2)"
  shows "main sys term it cit later [lit ''pid''] st =
      Some (Done (), st\<lparr>p_host := put_lines
        (status_lines \<lparr>ss_pid = unat (cf_pid cfg), ss_connections = peers cfg sv1\<rparr> @
          names_lines (active_names sv2)) (p_host st)\<rparr>) \<and>
    peer_or_unknown s \<in> set (peers cfg sv1)"
proof -
  let ?t = "(admitted_conn nonce s)\<lparr>c_in := frame [OP_REVERSE_LIST]\<rparr>"
  let ?answers = "frame (status_reply cfg sv1) @ frame (names_reply sv2)"
  note fr = logs_in_fresh [OF assms(1)]
  have f: "frame_ok [OP_STATUS]" "[OP_STATUS] = [] \<or> hd [OP_STATUS] \<noteq> OP_REVERSE_REGISTER"
    by (simp_all add: frame_ok_small OP_STATUS_def OP_REVERSE_REGISTER_def)
  from logs_in_server [OF assms(1) f serve_status assms(9,10), of ssys oth clk] assms(11)
  have s1: "sv1 = started [OP_STATUS] ?t sv"
    and cl1: "cl1 = (new_client sv [OP_STATUS] ?t)\<lparr>cl_pending := None, cl_conn := reply (status_reply cfg sv1) ?t\<rparr>"
    by auto
  have cap: "c_cap ?t = None" and out: "c_out s = []" using fr by (simp_all add: admitted_conn_def)
  have r1: "reply (status_reply cfg sv1) ?t = conn_put (frame (status_reply cfg sv1)) ?t"
    using cap assms(6) by (simp add: reply_def write_frame_unlimited)
  have "c_in (cl_conn cl1) = frame [OP_REVERSE_LIST] @ []" "cl_pending cl1 = None" "c_cap (cl_conn cl1) = None"
    using cap by (simp_all add: cl1 r1)
  from next_round [OF this(2) _ this(1), of ssys cfg oth2 clk2 sv2] this(3) assms(8,12)
  have "c_out (cl_conn cl2) = c_out (cl_conn cl1) @ frame (names_reply sv2)"
    by (auto simp: serve_names frame_ok_small reply_def write_frame_unlimited)
  then have i: "c_in c = frame (AUTH_REQUIRED # nonce) @ frame [AUTH_OK] @ ?answers"
    using assms(13) out by (simp add: cl1 r1)
  obtain c' addr where o: "open_session (sy_sha sys) (sy_transport sys) [] PORT (p_host st) = (Done (c', addr, []), p_host st)"
    and c': "c_in c' = ?answers" "c_cap c' = None"
    using logs_in_client [OF assms(1) _ i, of "[]" PORT] by auto
  from pid_prints [OF assms(2) o assms(3-8) c'(2,1)]
  have "main sys term it cit later [lit ''pid''] st =
      Some (Done (), st\<lparr>p_host := put_lines
        (status_lines \<lparr>ss_pid = unat (cf_pid cfg), ss_connections = peers cfg sv1\<rparr> @
          names_lines (active_names sv2)) (p_host st)\<rparr>)"
    by (simp add: main_def on_host_def lit_def)
  moreover have "peer_or_unknown s \<in> set (peers cfg sv1)"
    using iter_set [OF assms(3), of "sv_connections sv1"]
    by (force simp: peers_def s1 hm_insert_def peer_or_unknown_def peer_addr_def)
  ultimately show ?thesis ..
qed

text \<open>A host with a cached session beside a running server.\<close>

definition server_host :: host where
  "server_host = session_host\<lparr>h_files := (h_files session_host)(lit ''/tmp/thru_server.pid'' \<mapsto> decimal 7)\<rparr>"

lemma session_host_fields:
  "h_tmp session_host = lit ''/tmp''" "h_read_err session_host = Map.empty" "h_dirs session_host = (\<lambda>_. False)"
  by (simp_all add: session_host_def save_session_def demo_host_def Let_def fs_write_def)

lemma server_host_pid: "pid_file server_host = lit ''/tmp/thru_server.pid''"
  by (simp add: pid_file_def server_host_def session_host_fields path_join_def lit_def)

lemma server_host_running: "running 7 server_host"
  by (simp add: running_def server_host_pid) (simp add: server_host_def session_host_fields)

lemma server_host_load: "load_session server_host = Some (demo_addr, Some demo_pw)"
proof -
  have "session_file server_host = session_file session_host"
    "session_file session_host \<noteq> lit ''/tmp/thru_server.pid''"
    by (simp_all add: session_file_def server_host_def session_host_fields path_join_def lit_def)
  then have "read_to_string (session_file server_host) server_host = read_to_string (session_file session_host) session_host"
    by (simp add: read_to_string_def server_host_def split: option.split)
  then show ?thesis using session_host_load by (simp add: load_session_def)
qed

theorem pid_command_witness:
  "\<forall>(sys0 :: unit system) st0. \<exists>(sys :: unit system) st.
     main sys None rev rev 0 [lit ''pid''] st =
       Some (Done (), st\<lparr>p_host := put_lines
         [lit ''server pid: '' @ decimal 7, lit ''active connections: '' @ decimal 1,
          lit ''  '' @ decimal 1 @ lit '': ''] server_host\<rparr>)"
proof (intro allI)
  fix sys0 :: "unit system" and st0 :: exec_state
  define st where "st = st0\<lparr>p_host := server_host\<rparr>"
  let ?sv = "server_new st0" and ?q = "frame [OP_STATUS] @ frame [OP_REVERSE_LIST]"
  let ?s = "demo_server_end ?q"
  let ?t = "(admitted_conn demo_nonce ?s)\<lparr>c_in := frame [OP_REVERSE_LIST]\<rparr>"
  let ?sv1 = "started [OP_STATUS] ?t ?sv"
  let ?c = "demo_client_end (frame (status_reply pw_cfg ?sv1) @ frame (names_reply ?sv1))"
  have l: "logs_in (dials sys0 ?c) pw_cfg demo_nonce st ?c ?s ?q"
    by (rule demo_logs_in) (simp add: st_def server_host_load)
  have run: "running 7 (p_host st)" by (simp add: st_def server_host_running)
  have con: "sv_connections ?sv1 = [(0, [])]"
    by (simp add: server_new_def hm_insert_def hm_remove_def peer_or_unknown_def peer_addr_def demo_server_end_def)
      (simp add: endpoint_def)
  have it: "iter_law (cf_conn_iter pw_cfg)" by (simp add: iter_law_rev)
  have ps: "\<forall>p \<in> set (sv_connections ?sv1). str_ok (snd p)" "length (sv_connections ?sv1) < 2 ^ 32"
    unfolding con by (simp_all add: str_ok_def)
  have fr: "frame_ok (status_reply pw_cfg ?sv1)" "frame_ok (names_reply ?sv1)"
    "\<forall>d \<in> set (rw_devices (sv_world ?sv1)). str_ok (dv_name d)"
    by (rule frame_ok_small, unfold status_reply_fields con, simp)
      (simp_all add: names_reply_def active_names_def server_new_def frame_ok_small)
  have f: "frame_ok [OP_STATUS]" "[OP_STATUS] = [] \<or> hd [OP_STATUS] \<noteq> OP_REVERSE_REGISTER"
    by (simp_all add: frame_ok_small OP_STATUS_def OP_REVERSE_REGISTER_def)
  note acc = logs_in_accepted [OF l f, of 0 ?sv]
  have clients: "sv_clients ?sv1 = sv_clients ?sv @ [new_client ?sv [OP_STATUS] ?t]" by simp
  let ?cl1 = "(new_client ?sv [OP_STATUS] ?t)\<lparr>cl_pending := None, cl_conn := reply (status_reply pw_cfg ?sv1) ?t\<rparr>"
  from logs_in_server [OF l f serve_status acc clients, of sys0 alone "(0, 0)"]
  have s1: "client_step sys0 pw_cfg alone (0, 0) (hd [new_client ?sv [OP_STATUS] ?t]) ?sv1 = (Goes_On ?cl1, ?sv1)"
    by simp
  have cap: "c_cap ?t = None" by (simp add: admitted_conn_def)
  have cl1: "c_in (cl_conn ?cl1) = frame [OP_REVERSE_LIST] @ []" "cl_pending ?cl1 = None" "c_cap (cl_conn ?cl1) = None"
    "c_out (cl_conn ?cl1) = frame (AUTH_REQUIRED # demo_nonce) @ frame [AUTH_OK] @ frame (status_reply pw_cfg ?sv1)"
    using cap fr(1) by (simp_all add: reply_def write_frame_unlimited)
  obtain cl2 where s2: "client_step sys0 pw_cfg alone (0, 0) ?cl1 ?sv1 = (Goes_On cl2, ?sv1)"
    and o: "c_out (cl_conn cl2) = c_out (cl_conn ?cl1) @ frame (names_reply ?sv1)"
    using next_round [OF cl1(2) _ cl1(1), of sys0 pw_cfg alone "(0, 0)" ?sv1] cl1(3) fr(2)
    by (simp add: serve_names frame_ok_small reply_def [of "names_reply ?sv1"] write_frame_unlimited)
  have out: "peers pw_cfg ?sv1 = [[]]" "active_names ?sv1 = []"
    by (unfold peers_def con) (simp_all add: active_names_def server_new_def)
  have "c_in ?c = c_out (cl_conn cl2)" using o cl1(4) by simp
  from pid_command [OF l run it ps fr(1,3,2) acc clients s1 s2 this, of None rev rev 0]
  have "main (dials sys0 ?c) None rev rev 0 [lit ''pid''] st = Some (Done (), st\<lparr>p_host := put_lines
      (status_lines \<lparr>ss_pid = 7, ss_connections = [[]]\<rparr> @ names_lines []) (p_host st)\<rparr>)"
    unfolding out by simp
  then show "\<exists>(sys :: unit system) st. main sys None rev rev 0 [lit ''pid''] st =
       Some (Done (), st\<lparr>p_host := put_lines
         [lit ''server pid: '' @ decimal 7, lit ''active connections: '' @ decimal 1,
          lit ''  '' @ decimal 1 @ lit '': ''] server_host\<rparr>)"
    by (intro exI [of _ "dials sys0 ?c"] exI [of _ st])
      (simp add: status_lines_def numbered_def names_lines_def st_def)
qed

end
