(* ===== verification/Spec2Isabelle.thy ===== *)
theory Spec2Isabelle
  imports Cli_Spec Client_Spec Daemon_Spec Exec_Spec Fetch_Spec Screen_Spec Server_Life Server_Progress Shell_Spec Strings_Spec
    Tunnel_Spec Command_Spec
begin

text \<open>
  A verification library for \<^theory_text>\<open>thru\<close>, a tool that connects machines through one server process:
  a shared dictionary, remote files, remote commands and shells, and a reverse tunnel through
  which the server reaches the machines that registered with it.

  \<^bold>\<open>The program and its model.\<close> Every message is a frame, a four-byte length and a payload whose
  first byte is an operation or a status. The theories follow the code from the wire upwards; an
  operation has the name of the function it models.

    \<^item> \<open>Thru_Prelude\<close>, \<open>Utf8\<close>, \<open>Paths\<close>: what is used of Rust's standard library (errors and
      \<^theory_text>\<open>?\<close>, number parsing, trimming, lossy UTF-8 decoding, paths of a Unix system).
    \<^item> \<open>Wire\<close>, \<open>Frame\<close>: \<^theory_text>\<open>crates/thru-core\<close>, the integer and string encodings and the frames. A
      locale \<open>codec_loop\<close> states once what a decoding loop over a list of items does.
    \<^item> \<open>Conn\<close>: \<^theory_text>\<open>crates/thru-transport\<close>. A connection endpoint is the record \<open>conn\<close>: the bytes the
      peer sends until its stream ends, the bytes written, and how many more can be. The locale
      \<open>byte_stream\<close> is the contract the frame codec needs; the record satisfies it.
    \<^item> \<open>Tcp\<close>: \<^theory_text>\<open>crates/thru-proto-tcp\<close>. A socket is the record \<open>sock\<close>: input arrives in segments, a write
      takes a part of its buffer, and the loops of the standard library stand over both. \<open>Tcp_Spec\<close>
      shows that it refines \<open>conn\<close> (locale \<open>stream_refinement\<close>), which the other theories use.
    \<^item> \<open>Hash_Map\<close>, \<open>Dict\<close>, \<open>Dict_Client\<close>: \<^theory_text>\<open>crates/thru-dict\<close>, the server's dictionary with its memory
      limit and eviction, and the client's calls.
    \<^item> \<open>Fs\<close>: \<^theory_text>\<open>crates/thru-fs\<close>, listings and downloads, both sides.
    \<^item> \<open>Host\<close>: the process a command runs in (\<^theory_text>\<open>std::env\<close>, \<^theory_text>\<open>std::fs\<close>, terminal events, output).
    \<^item> \<open>Auth\<close>: \<^theory_text>\<open>src/auth.rs\<close>, the session cache and the authentication handshake.
    \<^item> \<open>Exec\<close>: \<^theory_text>\<open>crates/thru-exec\<close>, scripts, the pseudo-terminal session and the remote shell.
    \<^item> \<open>Reverse\<close>, \<open>Daemon\<close>: \<^theory_text>\<open>src/reverse.rs\<close>, the device records and proxies in the server, and the
      registering process on the device.
    \<^item> \<open>Process\<close>, \<open>Server\<close>, \<open>Server_Cmd\<close>: \<^theory_text>\<open>src/server.rs\<close>, the accept loop, the client threads, and
      the commands that start, stop and query the server.
    \<^item> \<open>Client\<close>, \<open>Screen\<close>, \<open>Browse\<close>: \<^theory_text>\<open>src/client.rs\<close>, the client commands, what they draw, the
      device menu and the file browser.
    \<^item> \<open>Cli\<close>: \<^theory_text>\<open>src/main.rs\<close>.

  \<^bold>\<open>State and concurrency.\<close> Handlers are functions from a state to a result and a new state; the
  state is the connection, with the shared structure the handler locks. The server is the record
  \<open>server\<close> (dictionary, device records, table of connections, client threads) and moves by the
  relation \<open>sv_step\<close>: the accept loop takes a connection, a client thread makes a round, or a
  heartbeat monitor makes one. A round is one step; where a handler releases the device list and
  takes it again, the argument \<open>others\<close> is what other threads do in between, arbitrary as long as it keeps
  the invariant. The connections of devices, which several threads share, live in a store. A peer
  that answers is covered because input and output of an endpoint are related in the theorem, not
  in the model: the client's input is what the server wrote and the reverse.

  \<^bold>\<open>What is shown.\<close> \<open>Frame\<close>: a frame is read back as written, and a failing sequence of writes
  delivers a prefix. \<open>Dict_Spec\<close>: the byte count is exact and bounded, the operations implement an
  abstract map that may forget, eviction takes least recently used entries and no more than it
  needs, refused requests change nothing. \<open>Dict_Client\<close>, \<open>Fs_Spec\<close>, \<open>Exec_Spec\<close>: each client call
  composed with the server's handler returns what the server holds or did. \<open>Auth_Spec\<close>: the two
  sides of the handshake agree, nobody is admitted without the digest of the password, the
  password is sent only inside the digest, and a cached session opens. \<open>Reverse_Spec\<close>: a proxied request
  is answered as the device itself would; \<open>Daemon_Spec\<close>: the device process answers requests in
  order. \<open>Server_Spec\<close>: the invariant of every reachable state, \<open>Server_Progress\<close>: client threads
  end, \<open>Server_Life\<close>: starting and stopping. \<open>Browse_Spec\<close>, \<open>Screen_Spec\<close>: the device list arrives, no
  key makes a menu panic, a recursive download ends, the terminal is restored. \<open>Client_Spec\<close>,
  \<open>Shell_Spec\<close>: a shell with both its ends, \<open>Fetch_Spec\<close>: what a piped download saves. \<open>Cli_Spec\<close>: addresses
  and options. \<open>Strings_Spec\<close>: what the server keeps as strings is valid UTF-8. \<open>Session_Spec\<close> composes the
  two sides of opening a session (\<open>logs_in\<close>); on it rest the properties of whole commands, from the
  arguments to the printed lines across both processes: \<open>Command_Spec\<close> (exec, pid), this theory (dict
  get and set), and of the tunnel with its three processes: \<open>Tunnel_Spec\<close>. The locale \<open>world_law\<close> of
  \<open>Server_Spec\<close> states once what every handler keeps of the device list; its instances are \<open>dev_inv\<close> and
  \<open>named_world\<close>. Several theorems state where the code does not do what it
  should (a key of 64 KiB stored under another name, a device name that outgrows its length field, an APPEND that evicts its own key, a download
  without terminator, a proxy that is left half read, a shell handler that waits for ever, the
  server entry that cannot be selected, file names that leave the chosen directory).

  \<^bold>\<open>Loops and fuel.\<close> Loops over a connection's input end because each round reads a frame of at
  least four bytes; they are functions with a measure. \<open>download_dir\<close> takes a number of levels,
  one more than the bytes of input, which \<open>download_dir_fuel\<close> shows to be enough. The trimming
  loops of \<open>Thru_Prelude\<close> and \<open>Paths\<close> take the length of the string. A process or handler that never
  returns is the value \<open>None\<close>.

  \<^bold>\<open>Parameters.\<close> The digest of \<^theory_text>\<open>sha2\<close> (theorems assume that it has 32 bytes), the random nonce, the
  pseudo-terminals of \<^theory_text>\<open>portable-pty\<close>, the events of \<^theory_text>\<open>crossterm\<close>, the iteration order of the standard
  hash map, the clocks, the file system the server serves, and what a started command does.

  \<^bold>\<open>Not modelled.\<close> Messages on standard error; errors of standard output; file permissions of the
  session file; poisoned locks (no code panics while it holds one); read timeouts other than as a
  setting (a timeout is an error that ends a stream); calls interrupted by signals; paths of other systems than Unix; the
  programs under \<^theory_text>\<open>examples\<close>, which test the built program.
\<close>

section \<open>Dictionary commands\<close>

text \<open>One request of a client that was just admitted: the answer it reads, and the dictionary after it.\<close>

lemma serve_dict:
  assumes "q \<noteq> []" and "OP_GET \<le> q ! 0" and "q ! 0 \<le> OP_ALL"
  shows "serve_frame sys cfg oth clk q (cl, sv) =
    Some (cl\<lparr>cl_conn := reply (fst (dict_handle (cf_iter cfg) (snd clk) q (sv_dict sv))) (cl_conn cl)\<rparr>,
          sv\<lparr>sv_dict := snd (dict_handle (cf_iter cfg) (snd clk) q (sv_dict sv))\<rparr>)"
  using assms by (simp add: serve_frame_def dispatch_basic_def split: prod.split)

lemma dict_served:
  fixes sv :: server and cfg :: config and clk :: clock and q :: bytes
  defines "r \<equiv> dict_handle (cf_iter cfg) (snd clk) q (sv_dict sv)"
  assumes "logs_in sys cfg nonce st c s (frame q)" and "frame_ok q" and "q = req op key val"
    and "OP_GET \<le> op" and "op \<le> OP_ALL" and "frame_ok (fst r)"
  shows "\<exists>sv1 cl cl' sv2. accept_conn (sy_sha sys) cfg nonce now s sv = (Started (sv_counter sv), sv1) \<and>
    sv_clients sv1 = sv_clients sv @ [cl] \<and> client_step ssys cfg oth clk cl sv1 = (Goes_On cl', sv2) \<and>
    c_out (cl_conn cl') = frame (AUTH_REQUIRED # nonce) @ frame [AUTH_OK] @ frame (fst r) \<and>
    sv_dict sv2 = snd r"
proof -
  let ?t = "(admitted_conn nonce s)\<lparr>c_in := []\<rparr>"
  have l: "logs_in sys cfg nonce st c s (frame q @ [])" using assms(2) by simp
  have q: "q \<noteq> []" "q ! 0 = op" "hd q = op" by (simp_all add: assms(4) req_def push_append)
  have nr: "q = [] \<or> hd q \<noteq> OP_REVERSE_REGISTER"
    using assms(6) q(3) by (auto simp: OP_ALL_def OP_REVERSE_REGISTER_def)
  have "OP_GET \<le> q ! 0" "q ! 0 \<le> OP_ALL" using assms(5,6) q(2) by simp_all
  note serve = serve_dict [OF q(1) this, of ssys cfg oth clk "(new_client sv q ?t)\<lparr>cl_pending := None\<rparr>" "started q ?t sv"]
  note acc = logs_in_accepted [OF l assms(3) nr, of now sv]
  from logs_in_server [OF l assms(3) nr serve acc, of "[new_client sv q ?t]"] acc assms(7) logs_in_fresh [OF l]
  show ?thesis by (simp add: r_def reply_def write_frame_unlimited)
qed

lemma dict_exchange:
  fixes sv :: server and cfg :: config and clk :: clock and q :: bytes
  defines "r \<equiv> dict_handle (cf_iter cfg) (snd clk) q (sv_dict sv)"
  assumes "logs_in sys cfg nonce st c s (frame q)" and "frame_ok q" and "q = req op key val"
    and "OP_GET \<le> op" and "op \<le> OP_ALL" and "frame_ok (fst r)"
    and "accept_conn (sy_sha sys) cfg nonce now s sv = (a, sv1)" and "sv_clients sv1 = sv_clients sv @ cls"
    and "client_step ssys cfg oth clk (hd cls) sv1 = (Goes_On cl, sv2)" and "c_in c = c_out (cl_conn cl)"
  shows "c_in c = frame (AUTH_REQUIRED # nonce) @ frame [AUTH_OK] @ frame (fst r) \<and> sv_dict sv2 = snd r"
  using dict_served [OF assms(2-6), of clk sv now ssys oth] assms(7-11) by (auto simp: r_def)

text \<open>The commands, for what they are answered.\<close>

lemma dict_get_run:
  assumes "logs_in sys cfg nonce st c s sent" and "str_ok key" and "\<not> starts_with (lit ''-'') key"
    and "frame_ok (get_reply v)" and "c_in c = frame (AUTH_REQUIRED # nonce) @ frame [AUTH_OK] @ frame (get_reply v)"
  shows "main sys term it cit now [lit ''dict'', lit ''get'', key] st = Some (case v of
      Some v \<Rightarrow> (Done (), st\<lparr>p_host := put_line v (p_host st)\<rparr>)
    | None \<Rightarrow> (Exit 1, st))"
proof -
  let ?args = "[lit ''get'', key]"
  have absent: "lit ''--connect'' \<notin> set ?args" using assms(3) by (auto simp: lit_def starts_with_def)
  obtain c' addr where o: "open_session (sy_sha sys) (sy_transport sys) ?args PORT (p_host st) =
      (Done (c', addr, ?args), p_host st)" and c': "c_in c' = frame (get_reply v) @ []" "c_cap c' = None"
    using logs_in_client [OF assms(1) absent assms(5), of PORT] by auto
  have "get_on_conn key c' = (Inr v, conn_put (frame (req OP_GET key [])) (c'\<lparr>c_in := []\<rparr>))"
    by (rule get_answered [OF assms(2,4) c'(2,1)])
  moreover have "main sys term it cit now (lit ''dict'' # ?args) st = on_host st (dict_cmd sys ?args (p_host st))"
    by (simp add: main_def)
  ultimately show ?thesis
    using o assms(3) by (cases v) (simp_all add: dict_cmd_def with_session_def then_do_def dict_keyed_def
        dict_show_def on_host_def lit_def)
qed

lemma dict_set_run:
  fixes words :: "rstr list"
  defines "val \<equiv> join [32] words"
  assumes "logs_in sys cfg nonce st c s sent" and "str_ok key" and "\<not> starts_with (lit ''-'') key"
    and "words \<noteq> []" and "\<forall>w \<in> set words. w \<noteq> lit ''-a'' \<and> w \<noteq> lit ''--connect''"
    and "length val \<le> MAX_VALUE_SIZE"
    and "c_in c = frame (AUTH_REQUIRED # nonce) @ frame [AUTH_OK] @ frame (resp ST_OK [])"
  shows "main sys term it cit now ([lit ''dict'', lit ''set'', key] @ words) st = Some (Done (), st)"
proof -
  let ?args = "lit ''set'' # key # words"
  have key: "key \<noteq> lit ''--connect''" "key \<noteq> lit ''-a''" using assms(4) by (auto simp: lit_def starts_with_def)
  then have absent: "lit ''--connect'' \<notin> set ?args" using assms(6) by (auto simp: lit_def)
  obtain c' addr where o: "open_session (sy_sha sys) (sy_transport sys) ?args PORT (p_host st) =
      (Done (c', addr, ?args), p_host st)" and c': "c_in c' = frame (resp ST_OK []) @ []" "c_cap c' = None"
    using logs_in_client [OF assms(2) absent assms(8), of PORT] by auto
  have rq: "frame_ok (req OP_SET key val)" using assms(3,7) by (intro frame_ok_req) (simp_all add: str_ok_def)
  have rs: "frame_ok (resp ST_OK [])" by (rule frame_ok_resp) simp
  have c1: "c'\<lparr>c_in := frame (resp ST_OK []) @ []\<rparr> = c'" using c'(1) by (metis conn.surjective conn.update_convs(1))
  from call_on_conn_reply [OF rq rs c'(2), of "[]"] have "fst (set_on_conn key val c') = Inr ()"
    unfolding c1 by (simp add: set_on_conn_def check_ok_def resp_def)
  moreover have "filter (\<lambda>w. w \<noteq> lit ''-a'') words = words" "\<not> list_ex (\<lambda>w. w = lit ''-a'') ?args"
    using assms(6) key by (auto simp: filter_id_conv list_ex_iff lit_def)
  moreover have "main sys term it cit now (lit ''dict'' # ?args) st = on_host st (dict_cmd sys ?args (p_host st))"
    by (simp add: main_def)
  ultimately show ?thesis
    using o assms(4,5) by (simp add: dict_cmd_def with_session_def then_do_def dict_keyed_def val_def
        dict_store_def on_host_def lit_def)
qed

section \<open>Properties\<close>

text \<open>C40: a whole command, from the arguments to the printed line, across both processes: after a
  session was cached, \<^theory_text>\<open>thru dict get key\<close> dials the cached address, is admitted by the server,
  is answered by the first round of its client thread, and prints the value the server's
  dictionary holds, or exits with 1 when there is none. The server reads what this client
  writes, the client reads what the server wrote.\<close>

theorem dict_get_command:
  fixes sv :: server
  assumes "logs_in sys cfg nonce st c s (frame (req OP_GET key []))"
    and "dict_inv (sv_dict sv)" and "\<not> poisoned (sv_dict sv)"
    and "str_ok key" and "\<not> starts_with (lit ''-'') key"
    and "accept_conn (sy_sha sys) cfg nonce now s sv = (a, sv1)" and "sv_clients sv1 = sv_clients sv @ cls"
    and "client_step ssys cfg oth clk (hd cls) sv1 = (Goes_On cl, sv2)" and "c_in c = c_out (cl_conn cl)"
  shows "main sys term it cit later [lit ''dict'', lit ''get'', key] st =
    Some (case contents (sv_dict sv) key of
        Some v \<Rightarrow> (Done (), st\<lparr>p_host := put_line v (p_host st)\<rparr>)
      | None \<Rightarrow> (Exit 1, st))"
proof -
  have rq: "frame_ok (req OP_GET key [])" using assms(4) by (intro frame_ok_req) (simp_all add: str_ok_def)
  have g: "fst (dict_handle (cf_iter cfg) (snd clk) (req OP_GET key []) (sv_dict sv)) =
      get_reply (contents (sv_dict sv) key)" by (rule dict_handle_get [OF assms(4,3)])
  note ok = frame_ok_get_reply [OF assms(2), of key]
  from dict_exchange [OF assms(1) rq refl _ _ _ assms(6-9)] ok g
  have "c_in c = frame (AUTH_REQUIRED # nonce) @ frame [AUTH_OK] @ frame (get_reply (contents (sv_dict sv) key))"
    by (simp add: op_defs)
  from dict_get_run [OF assms(1,4,5) ok this] show ?thesis .
qed

theorem dict_get_command_witness:
  "\<forall>(sys0 :: unit system) st0. \<exists>(sys :: unit system) st.
     main sys None rev rev 0 [lit ''dict'', lit ''get'', [107]] st =
       Some (Done (), st\<lparr>p_host := put_line [1] (p_host st)\<rparr>)"
proof (intro allI)
  fix sys0 :: "unit system" and st0 :: exec_state
  define st where "st = st0\<lparr>p_host := session_host\<rparr>"
  let ?sv = "(server_new st0)\<lparr>sv_dict := full_dict\<rparr>" and ?q = "req OP_GET [107] []"
  let ?c = "demo_client_end (frame (get_reply (contents full_dict [107])))" and ?s = "demo_server_end (frame ?q)"
  have l: "logs_in (dials sys0 ?c) pw_cfg demo_nonce st ?c ?s (frame ?q)"
    by (rule demo_logs_in) (simp add: st_def session_host_load)
  have d: "dict_inv (sv_dict ?sv)" "\<not> poisoned (sv_dict ?sv)" "str_ok [107]" "\<not> starts_with (lit ''-'') [107]"
    using full_dict_inv by (simp, simp add: full_dict_def)
      (simp_all add: str_ok_def utf8_valid_ascii starts_with_def lit_def)
  have q: "frame_ok ?q" by (rule frame_ok_req) simp_all
  have r: "fst (dict_handle (cf_iter pw_cfg) 3 ?q (sv_dict ?sv)) = get_reply (contents full_dict [107])"
    using dict_handle_get [OF d(3,2)] by simp
  obtain sv1 cl cl' sv2 where
    "accept_conn (sy_sha (dials sys0 ?c)) pw_cfg demo_nonce 0 ?s ?sv = (Started (sv_counter ?sv), sv1)"
    "sv_clients sv1 = sv_clients ?sv @ [cl]" "client_step sys0 pw_cfg alone (0, 3) (hd [cl]) sv1 = (Goes_On cl', sv2)"
    "c_in ?c = c_out (cl_conn cl')"
    using dict_served [OF l q refl, of "(0, 3)" ?sv 0 sys0 alone] r frame_ok_get_reply [OF full_dict_inv, of "[107]"]
    by (auto simp: op_defs)
  from dict_get_command [OF l d this]
  have "main (dials sys0 ?c) None rev rev 0 [lit ''dict'', lit ''get'', [107]] st =
       Some (Done (), st\<lparr>p_host := put_line [1] (p_host st)\<rparr>)"
    using full_dict_old by (simp add: contents_def)
  then show "\<exists>sys st. main (sys :: unit system) None rev rev 0 [lit ''dict'', lit ''get'', [107]] st =
       Some (Done (), st\<lparr>p_host := put_line [1] (p_host st)\<rparr>)" by blast
qed

text \<open>C37: two whole commands: \<^theory_text>\<open>thru dict set key words\<close> succeeds, and a later \<^theory_text>\<open>thru dict get key\<close>, run by
  the same or another process, prints exactly the words, joined by blanks. Both dial, log in and
  are served by threads of the server; in between the server may do anything that leaves the
  dictionary alone. The dictionary may have had to evict other entries to store the value.\<close>

theorem dict_set_get:
  fixes sv sv3 :: server and words :: "rstr list"
  defines "val \<equiv> join [32] words"
  assumes "dict_inv (sv_dict sv)" and "\<not> poisoned (sv_dict sv)" and "iter_law (cf_iter cfg)"
    and "str_ok key" and "\<not> starts_with (lit ''-'') key" and "words \<noteq> []"
    and "\<forall>w \<in> set words. w \<noteq> lit ''-a'' \<and> w \<noteq> lit ''--connect''" and "length val \<le> MAX_VALUE_SIZE"
    and "logs_in sys cfg nonce st c s (frame (req OP_SET key val))"
    and "accept_conn (sy_sha sys) cfg nonce now s sv = (a, sv1)" and "sv_clients sv1 = sv_clients sv @ cls"
    and "client_step ssys cfg oth clk (hd cls) sv1 = (Goes_On cl, sv2)" and "c_in c = c_out (cl_conn cl)"
    and "sv_dict sv3 = sv_dict sv2" and "logs_in sys' cfg nonce' st' c' s' (frame (req OP_GET key []))"
    and "accept_conn (sy_sha sys') cfg nonce' now' s' sv3 = (a', sv4)" and "sv_clients sv4 = sv_clients sv3 @ cls'"
    and "client_step ssys cfg oth' clk' (hd cls') sv4 = (Goes_On cl', sv5)" and "c_in c' = c_out (cl_conn cl')"
  shows "main sys term it cit later ([lit ''dict'', lit ''set'', key] @ words) st = Some (Done (), st) \<and>
    main sys' term' it' cit' later' [lit ''dict'', lit ''get'', key] st' =
      Some (Done (), st'\<lparr>p_host := put_line val (p_host st')\<rparr>)"
proof
  let ?set = "req OP_SET key val" and ?get = "req OP_GET key []"
  let ?d = "snd (dict_handle (cf_iter cfg) (snd clk) ?set (sv_dict sv))"
  have rq: "frame_ok ?set" "frame_ok ?get"
    using assms(5,9) by (simp_all add: str_ok_def frame_ok_req)
  have r: "fst (dict_handle (cf_iter cfg) (snd clk) ?set (sv_dict sv)) = resp ST_OK []"
    using dict_handle_set [OF assms(2-5), of "snd clk" val] assms(9) by simp
  have ok: "frame_ok (resp ST_OK [])" by (rule frame_ok_resp) simp
  from dict_exchange [OF assms(10) rq(1) refl _ _ _ assms(11-14)] r ok
  have i: "c_in c = frame (AUTH_REQUIRED # nonce) @ frame [AUTH_OK] @ frame (resp ST_OK [])" and d: "sv_dict sv2 = ?d"
    by (simp_all add: op_defs)
  show "main sys term it cit later ([lit ''dict'', lit ''set'', key] @ words) st = Some (Done (), st)"
    using assms(9,10) unfolding val_def by (rule dict_set_run [OF _ assms(5-8) _ i, rotated])
  have inv: "dict_inv ?d" "\<not> poisoned ?d" using dict_handle_inv [OF assms(2,4)] assms(3) by blast+
  have g: "fst (dict_handle (cf_iter cfg) (snd clk') ?get (sv_dict sv3)) = get_reply (Some val)"
    using dict_handle_get [OF assms(5) inv(2)] set_contents [OF assms(2-5,9)] d assms(15) by simp
  have gok: "frame_ok (get_reply (Some val))"
    using frame_ok_get_reply [OF inv(1), of key] set_contents [OF assms(2-5,9)] by simp
  from dict_exchange [OF assms(16) rq(2) refl _ _ _ assms(17-20)] g gok
  have "c_in c' = frame (AUTH_REQUIRED # nonce') @ frame [AUTH_OK] @ frame (get_reply (Some val))"
    by (simp add: op_defs)
  from dict_get_run [OF assms(16,5,6) gok this]
  show "main sys' term' it' cit' later' [lit ''dict'', lit ''get'', key] st' =
      Some (Done (), st'\<lparr>p_host := put_line val (p_host st')\<rparr>)" by simp
qed

theorem dict_set_get_witness:
  "\<forall>(sys0 :: unit system) st0. \<exists>(sys :: unit system) sys' st.
     main sys None rev rev 0 [lit ''dict'', lit ''set'', [107], [104, 105], [111]] st = Some (Done (), st) \<and>
     main (sys' :: unit system) None rev rev 0 [lit ''dict'', lit ''get'', [107]] st =
       Some (Done (), st\<lparr>p_host := put_line [104, 105, 32, 111] (p_host st)\<rparr>)"
proof (intro allI)
  fix sys0 :: "unit system" and st0 :: exec_state
  define st where "st = st0\<lparr>p_host := session_host\<rparr>"
  let ?words = "[[104 :: u8, 105], [111]]" and ?sv = "(server_new st0)\<lparr>sv_dict := full_dict\<rparr>"
  let ?val = "join [32] ?words"
  let ?q = "req OP_SET [107] ?val" and ?q' = "req OP_GET [107] []"
  let ?c = "demo_client_end (frame (resp ST_OK []))" and ?s = "demo_server_end (frame ?q)"
  let ?c' = "demo_client_end (frame (get_reply (Some ?val)))" and ?s' = "demo_server_end (frame ?q')"
  have l: "logs_in (dials sys0 ?c) pw_cfg demo_nonce st ?c ?s (frame ?q)"
    "logs_in (dials sys0 ?c') pw_cfg demo_nonce st ?c' ?s' (frame ?q')"
    by (rule demo_logs_in, simp add: st_def session_host_load)+
  have d: "dict_inv (sv_dict ?sv)" "\<not> poisoned (sv_dict ?sv)" "iter_law (cf_iter pw_cfg)" "str_ok [107]"
    "\<not> starts_with (lit ''-'') [107]"
    using full_dict_inv by (simp, simp add: full_dict_def)
      (simp_all add: iter_law_rev str_ok_def utf8_valid_ascii starts_with_def lit_def)
  have w: "?words \<noteq> []" "\<forall>w \<in> set ?words. w \<noteq> lit ''-a'' \<and> w \<noteq> lit ''--connect''" "length ?val \<le> MAX_VALUE_SIZE"
    by (simp_all add: lit_def size_defs)
  have q: "frame_ok ?q" "frame_ok ?q'" by (rule frame_ok_req, simp_all add: size_defs)+
  let ?d = "snd (dict_handle (cf_iter pw_cfg) 3 ?q (sv_dict ?sv))"
  have r: "fst (dict_handle (cf_iter pw_cfg) 3 ?q (sv_dict ?sv)) = resp ST_OK []"
    using dict_handle_set [OF d(1-4), of 3 ?val] w(3) by simp
  have ok: "frame_ok (resp ST_OK [])" by (rule frame_ok_resp) simp
  obtain sv1 cl cl' sv2 where 1:
    "accept_conn (sy_sha (dials sys0 ?c)) pw_cfg demo_nonce 0 ?s ?sv = (Started (sv_counter ?sv), sv1)"
    "sv_clients sv1 = sv_clients ?sv @ [cl]" "client_step sys0 pw_cfg alone (0, 3) (hd [cl]) sv1 = (Goes_On cl', sv2)"
    "c_in ?c = c_out (cl_conn cl')" and sv2: "sv_dict sv2 = ?d"
    using dict_served [OF l(1) q(1) refl, of "(0, 3)" ?sv 0 sys0 alone] r ok by (auto simp: op_defs)
  have inv: "dict_inv ?d" "\<not> poisoned ?d" using dict_handle_inv [OF d(1,3)] d(2) by blast+
  note c = set_contents [OF d(1-4) w(3), of 3]
  have r': "fst (dict_handle (cf_iter pw_cfg) 4 ?q' (sv_dict sv2)) = get_reply (Some ?val)"
    using dict_handle_get [OF d(4) inv(2)] c sv2 by simp
  have ok': "frame_ok (get_reply (Some ?val))" using frame_ok_get_reply [OF inv(1), of "[107]"] c by simp
  obtain sv4 cl2 cl3 sv5 where 2:
    "accept_conn (sy_sha (dials sys0 ?c')) pw_cfg demo_nonce 0 ?s' sv2 = (Started (sv_counter sv2), sv4)"
    "sv_clients sv4 = sv_clients sv2 @ [cl2]" "client_step sys0 pw_cfg alone (0, 4) (hd [cl2]) sv4 = (Goes_On cl3, sv5)"
    "c_in ?c' = c_out (cl_conn cl3)"
    using dict_served [OF l(2) q(2) refl, of "(0, 4)" sv2 0 sys0 alone] r' ok' by (auto simp: op_defs)
  from dict_set_get [OF d w l(1) 1 refl l(2) 2, of None rev rev 0 None rev rev 0]
  show "\<exists>(sys :: unit system) sys' st.
     main sys None rev rev 0 [lit ''dict'', lit ''set'', [107], [104, 105], [111]] st = Some (Done (), st) \<and>
     main (sys' :: unit system) None rev rev 0 [lit ''dict'', lit ''get'', [107]] st =
       Some (Done (), st\<lparr>p_host := put_line [104, 105, 32, 111] (p_host st)\<rparr>)"
    by (intro exI [of _ "dials sys0 ?c"] exI [of _ "dials sys0 ?c'"] exI [of _ st]) simp
qed

end
